(* ===== verification/Prelude.thy ===== *)
theory Prelude
  imports Main "HOL-Library.Char_ord" "HOL-Library.List_Lexorder"
    "HOL-Library.Product_Lexorder" "HOL-Library.Option_ord"
begin

text \<open>
  Shared vocabulary of the development: Rust's \<open>std::cmp::Ordering\<close> and
  \<open>Result\<close>, the operations of \<open>str\<close> and \<open>[u8]\<close> the sources call, the
  parsing of unsigned integers, and the generic lemmas the component theories
  share. Strings are byte sequences (\<open>string\<close>, one \<open>char\<close> per byte), so
  the character classes below are Rust's ASCII classes and \<open>trim\<close> removes
  ASCII white space. The orders on characters, lists, pairs and options are the
  library's lexicographic instances, which agree with the orders Rust derives for
  \<open>u8\<close>, \<open>Vec\<close>, tuples and \<open>Option\<close>.
\<close>

named_theorems comparator_rules \<open>how comparators are built from comparators\<close>
named_theorems str_simps \<open>evaluation of the string operations\<close>

type_synonym ('e, 'a) result = "'e + 'a"
type_synonym bytes = "char list"

section \<open>Orderings\<close>

datatype ordering = Less | Equal | Greater

definition cmp :: "'a::linorder \<Rightarrow> 'a \<Rightarrow> ordering" where
  "cmp x y = (if x < y then Less else if x = y then Equal else Greater)"

fun reverse_ord :: "ordering \<Rightarrow> ordering" where
  "reverse_ord Less = Greater"
| "reverse_ord Equal = Equal"
| "reverse_ord Greater = Less"

text \<open>\<open>match o { Equal => {}, ord => return ord }\<close> followed by the rest.\<close>

definition then_cmp :: "ordering \<Rightarrow> ordering \<Rightarrow> ordering" where
  "then_cmp o1 o2 = (case o1 of Equal \<Rightarrow> o2 | _ \<Rightarrow> o1)"

lemma then_cmp_simps [simp]:
  "then_cmp Less q = Less" "then_cmp Equal q = q" "then_cmp Greater q = Greater"
  by (simp_all add: then_cmp_def)

lemma case_ordering_then:
  "(case p of Less \<Rightarrow> Less | Equal \<Rightarrow> q | Greater \<Rightarrow> Greater) = then_cmp p q"
  by (cases p) simp_all

lemma then_cmp_assoc: "then_cmp (then_cmp p q) r = then_cmp p (then_cmp q r)"
  by (cases p) auto

lemma reverse_ord_then [simp]:
  "reverse_ord (then_cmp p q) = then_cmp (reverse_ord p) (reverse_ord q)"
  by (cases p) auto

lemma reverse_ord_idem [simp]: "reverse_ord (reverse_ord p) = p"
  by (cases p) auto

lemma reverse_ord_eq_iff [simp]:
  "reverse_ord p = Equal \<longleftrightarrow> p = Equal"
  "reverse_ord p = Less \<longleftrightarrow> p = Greater"
  "reverse_ord p = Greater \<longleftrightarrow> p = Less"
  by (cases p; simp)+

lemma cmp_iff [simp]:
  "cmp x y = Less \<longleftrightarrow> x < y" "cmp x y = Equal \<longleftrightarrow> x = y" "cmp x y = Greater \<longleftrightarrow> y < x"
  by (auto simp: cmp_def)

lemma cmp_self [simp]: "cmp x x = Equal"
  by simp

lemma cmp_less [simp]: "x < y \<Longrightarrow> cmp x y = Less" "x < y \<Longrightarrow> cmp y x = Greater"
  by simp_all

lemma cmp_list_Nil [simp]: "cmp (x # xs) [] = Greater" "cmp [] (x # xs) = Less"
  by simp_all

lemma cmp_Cons: "cmp (x # xs) (y # ys) = then_cmp (cmp x y) (cmp xs ys)"
  by (auto simp: cmp_def)

lemma cmp_Pair: "cmp (a, b) (c, d) = then_cmp (cmp a c) (cmp b d)"
  by (auto simp: cmp_def)

lemma cmp_flip: "cmp y x = reverse_ord (cmp x y)"
  by (auto simp: cmp_def)

section \<open>Byte strings\<close>

definition is_ascii_digit :: "char \<Rightarrow> bool" where
  "is_ascii_digit c \<longleftrightarrow> CHR ''0'' \<le> c \<and> c \<le> CHR ''9''"

definition is_ascii_lowercase :: "char \<Rightarrow> bool" where
  "is_ascii_lowercase c \<longleftrightarrow> CHR ''a'' \<le> c \<and> c \<le> CHR ''z''"

definition is_ascii_uppercase :: "char \<Rightarrow> bool" where
  "is_ascii_uppercase c \<longleftrightarrow> CHR ''A'' \<le> c \<and> c \<le> CHR ''Z''"

definition is_ascii_alphabetic :: "char \<Rightarrow> bool" where
  "is_ascii_alphabetic c \<longleftrightarrow> is_ascii_lowercase c \<or> is_ascii_uppercase c"

definition is_ascii_alphanumeric :: "char \<Rightarrow> bool" where
  "is_ascii_alphanumeric c \<longleftrightarrow> is_ascii_alphabetic c \<or> is_ascii_digit c"

definition is_ascii_hexdigit :: "char \<Rightarrow> bool" where
  "is_ascii_hexdigit c \<longleftrightarrow> is_ascii_digit c \<or> (CHR ''a'' \<le> c \<and> c \<le> CHR ''f'')
     \<or> (CHR ''A'' \<le> c \<and> c \<le> CHR ''F'')"

definition is_whitespace :: "char \<Rightarrow> bool" where
  "is_whitespace c \<longleftrightarrow> c = CHR '' '' \<or> (CHR 0x09 \<le> c \<and> c \<le> CHR 0x0D)"

definition to_ascii_lowercase :: "char \<Rightarrow> char" where
  "to_ascii_lowercase c = (if is_ascii_uppercase c then char_of ((of_char c :: nat) + 32) else c)"

definition trim :: "string \<Rightarrow> string" where
  "trim s = rev (dropWhile is_whitespace (rev (dropWhile is_whitespace s)))"

fun strip_prefix :: "string \<Rightarrow> string \<Rightarrow> string option" where
  "strip_prefix [] s = Some s"
| "strip_prefix (p # ps) [] = None"
| "strip_prefix (p # ps) (c # cs) = (if p = c then strip_prefix ps cs else None)"

definition starts_with :: "string \<Rightarrow> string \<Rightarrow> bool" where
  "starts_with p s \<longleftrightarrow> strip_prefix p s \<noteq> None"

definition strip_suffix :: "string \<Rightarrow> string \<Rightarrow> string option" where
  "strip_suffix p s = map_option rev (strip_prefix (rev p) (rev s))"

text \<open>\<open>s.strip_prefix(p).unwrap_or(s)\<close>.\<close>

definition strip_prefix_or :: "string \<Rightarrow> string \<Rightarrow> string" where
  "strip_prefix_or p s = (case strip_prefix p s of None \<Rightarrow> s | Some r \<Rightarrow> r)"

text \<open>\<open>split_once\<close> cuts at the first occurrence of a character, \<open>rsplit_once\<close>
  at the last; both drop the character.\<close>

definition split_once :: "char \<Rightarrow> string \<Rightarrow> (string \<times> string) option" where
  "split_once c s = (if c \<in> set s
     then Some (takeWhile (\<lambda>x. x \<noteq> c) s, tl (dropWhile (\<lambda>x. x \<noteq> c) s)) else None)"

definition rsplit_once :: "char \<Rightarrow> string \<Rightarrow> (string \<times> string) option" where
  "rsplit_once c s = (case split_once c (rev s) of None \<Rightarrow> None
     | Some (post, pre) \<Rightarrow> Some (rev pre, rev post))"

text \<open>
  \<open>s.find(pat)\<close> and \<open>s.rfind(pat)\<close> for a string pattern, as the pair of the parts
  before and after the first or last occurrence.
\<close>

fun find_str :: "string \<Rightarrow> string \<Rightarrow> (string \<times> string) option" where
  "find_str p [] = (if p = [] then Some ([], []) else None)"
| "find_str p (c # cs) = (case strip_prefix p (c # cs) of Some r \<Rightarrow> Some ([], r)
     | None \<Rightarrow> map_option (\<lambda>(pre, post). (c # pre, post)) (find_str p cs))"

definition rfind_str :: "string \<Rightarrow> string \<Rightarrow> (string \<times> string) option" where
  "rfind_str p s = map_option (\<lambda>(post, pre). (rev pre, rev post)) (find_str (rev p) (rev s))"

text \<open>\<open>&s[..s.find(c).unwrap_or(s.len())]\<close>: everything before the first \<open>c\<close>.\<close>

definition cut_at :: "char \<Rightarrow> string \<Rightarrow> string" where
  "cut_at c s = takeWhile (\<lambda>x. x \<noteq> c) s"

lemma strip_prefix_iff: "strip_prefix p s = Some r \<longleftrightarrow> s = p @ r"
  by (induction p s rule: strip_prefix.induct) auto

lemma strip_prefix_append [simp]: "strip_prefix p (p @ r) = Some r"
  by (simp add: strip_prefix_iff)

lemma strip_prefix_None_iff: "strip_prefix p s = None \<longleftrightarrow> \<not> starts_with p s"
  by (simp add: starts_with_def)

lemma starts_with_iff: "starts_with p s \<longleftrightarrow> (\<exists>r. s = p @ r)"
  by (auto simp: starts_with_def strip_prefix_iff)

lemma starts_with_append [simp]: "starts_with p (p @ r)"
  by (auto simp: starts_with_iff)

lemma strip_suffix_iff: "strip_suffix p s = Some r \<longleftrightarrow> s = r @ p"
proof -
  have "strip_suffix p s = Some r \<longleftrightarrow> rev s = rev p @ rev r"
    by (auto simp: strip_suffix_def strip_prefix_iff)
  also have "\<dots> \<longleftrightarrow> s = r @ p"
    by (metis rev_append rev_rev_ident)
  finally show ?thesis .
qed

lemma split_once_Some: "split_once c s = Some (p, q) \<Longrightarrow> s = p @ c # q \<and> c \<notin> set p"
proof (induction s arbitrary: p)
  case (Cons x xs)
  show ?case
  proof (cases "x = c")
    case False
    with Cons.prems have "split_once c xs = Some (tl p, q)" "p = x # tl p"
      by (auto simp: split_once_def split: if_splits)
    with Cons.IH [of "tl p"] False show ?thesis
      by (metis append_Cons set_ConsD)
  qed (use Cons.prems in \<open>auto simp: split_once_def\<close>)
qed (simp add: split_once_def)

lemma split_once_append: "c \<notin> set p \<Longrightarrow> split_once c (p @ c # q) = Some (p, q)"
  by (simp add: split_once_def takeWhile_append dropWhile_append)

lemma split_once_iff: "split_once c s = Some (p, q) \<longleftrightarrow> s = p @ c # q \<and> c \<notin> set p"
  using split_once_Some split_once_append by blast

lemma find_str_Some: "find_str p s = Some (a, b) \<Longrightarrow> s = a @ p @ b"
  by (induction p s arbitrary: a rule: find_str.induct)
    (auto simp: strip_prefix_iff split: option.splits if_splits)

lemma rfind_str_Some: "rfind_str p s = Some (a, b) \<Longrightarrow> s = a @ p @ b"
proof -
  assume "rfind_str p s = Some (a, b)"
  then have "find_str (rev p) (rev s) = Some (rev b, rev a)"
    by (auto simp: rfind_str_def)
  then have "rev s = rev b @ rev p @ rev a"
    by (rule find_str_Some)
  then show ?thesis
    by (metis append_assoc rev_append rev_rev_ident)
qed

section \<open>Parsing unsigned integers\<close>

text \<open>
  \<open>str::parse::<uN>()\<close>: an optional leading \<open>+\<close>, then at least one digit, and a
  value below \<open>2 ^ N\<close>; anything else is an error.
\<close>

definition digit_val :: "char \<Rightarrow> nat" where
  "digit_val c = of_char c - 48"

definition digits_val :: "string \<Rightarrow> nat" where
  "digits_val ds = foldl (\<lambda>n c. 10 * n + digit_val c) 0 ds"

definition parse_uint :: "nat \<Rightarrow> string \<Rightarrow> nat option" where
  "parse_uint w s =
     (let ds = strip_prefix_or ''+'' s in
      if ds = [] \<or> \<not> list_all is_ascii_digit ds then None
      else if digits_val ds < 2 ^ w then Some (digits_val ds) else None)"

abbreviation parse_u64 :: "string \<Rightarrow> nat option" where
  "parse_u64 \<equiv> parse_uint 64"

abbreviation parse_u32 :: "string \<Rightarrow> nat option" where
  "parse_u32 \<equiv> parse_uint 32"

text \<open>\<open>str::parse::<i64>()\<close>.\<close>

definition parse_i64 :: "string \<Rightarrow> int option" where
  "parse_i64 s =
     (let neg = starts_with ''-'' s;
          ds = (if neg then tl s else strip_prefix_or ''+'' s) in
      if ds = [] \<or> \<not> list_all is_ascii_digit ds then None
      else let n = (if neg then - int (digits_val ds) else int (digits_val ds)) in
        if - (2 ^ 63) \<le> n \<and> n < 2 ^ 63 then Some n else None)"

text \<open>\<open>to_string()\<close> of an unsigned integer.\<close>

fun show_nat :: "nat \<Rightarrow> string" where
  "show_nat n = (if n < 10 then [char_of (48 + n)] else show_nat (n div 10) @ [char_of (48 + n mod 10)])"

declare show_nat.simps [simp del]

text \<open>Evaluation compares with the bound in binary.\<close>

lemma parse_uint_code [code]:
  "parse_uint w s =
     (let ds = strip_prefix_or ''+'' s in
      if ds = [] \<or> \<not> list_all is_ascii_digit ds then None
      else if int (digits_val ds) < 2 ^ w then Some (digits_val ds) else None)"
proof -
  have "int (digits_val ds) < 2 ^ w \<longleftrightarrow> digits_val ds < 2 ^ w" for ds
    by (metis of_nat_less_iff of_nat_numeral of_nat_power)
  then show ?thesis by (simp add: parse_uint_def Let_def)
qed

lemma parse_uint_bound: "parse_uint w s = Some n \<Longrightarrow> n < 2 ^ w"
  by (auto simp: parse_uint_def Let_def split: if_splits)

lemma digit_val_bound: "is_ascii_digit c \<Longrightarrow> digit_val c < 10"
  by (auto simp: is_ascii_digit_def digit_val_def less_eq_char_def)

lemma digit_val_mono:
  "is_ascii_digit c \<Longrightarrow> is_ascii_digit d \<Longrightarrow> c < d \<longleftrightarrow> digit_val c < digit_val d"
  by (auto simp: is_ascii_digit_def digit_val_def less_eq_char_def less_char_def)

lemma digits_val_Nil [simp]: "digits_val [] = 0"
  by (simp add: digits_val_def)

lemma digits_val_snoc: "digits_val (ds @ [c]) = 10 * digits_val ds + digit_val c"
  by (simp add: digits_val_def)

lemma digits_val_append: "digits_val (xs @ ys) = digits_val xs * 10 ^ length ys + digits_val ys"
proof (induction ys rule: rev_induct)
  case (snoc y ys)
  have "digits_val (xs @ ys @ [y]) = 10 * digits_val (xs @ ys) + digit_val y"
    using digits_val_snoc [of "xs @ ys" y] by simp
  with snoc show ?case by (simp add: digits_val_snoc algebra_simps)
qed simp

lemma digits_val_Cons: "digits_val (c # cs) = digit_val c * 10 ^ length cs + digits_val cs"
  using digits_val_append [of "[c]" cs] by (simp add: digits_val_def)

lemma digits_val_bound: "list_all is_ascii_digit ds \<Longrightarrow> digits_val ds < 10 ^ length ds"
proof (induction ds)
  case (Cons c cs)
  then have "digit_val c \<le> 9" "digits_val cs < 10 ^ length cs"
    using digit_val_bound [of c] by auto
  then have "digit_val c * 10 ^ length cs + digits_val cs < 9 * 10 ^ length cs + 10 ^ length cs"
    by (intro add_le_less_mono mult_le_mono1)
  then show ?case by (simp add: digits_val_Cons)
qed simp

text \<open>Digit strings of one length compare byte by byte as their values compare.\<close>

lemma cmp_digits_same_length:
  assumes "length a = length b" "list_all is_ascii_digit a" "list_all is_ascii_digit b"
  shows "cmp a b = cmp (digits_val a) (digits_val b)"
  using assms
proof (induction a b rule: list_induct2)
  case (Cons c cs d ds)
  have small: "digits_val cs < 10 ^ length ds" "digits_val ds < 10 ^ length ds"
    using Cons digits_val_bound by force+
  have step: "digits_val (x # xs) < digits_val (y # ys)"
    if "digit_val x < digit_val y" "digits_val xs < 10 ^ length ys" "length xs = length ys"
    for x y xs ys
  proof -
    have "digit_val x * 10 ^ length ys + digits_val xs < Suc (digit_val x) * 10 ^ length ys"
      using that by simp
    also have "\<dots> \<le> digit_val y * 10 ^ length ys"
      using that by (intro mult_le_mono1) simp
    finally show ?thesis
      using that by (simp add: digits_val_Cons)
  qed
  have dig: "is_ascii_digit c" "is_ascii_digit d"
    using Cons.prems by auto
  show ?case
  proof (cases c d rule: linorder_cases)
    case equal
    have "cmp cs ds = cmp (digits_val cs) (digits_val ds)"
      using Cons by simp
    with equal Cons.hyps show ?thesis
      by (simp add: cmp_def digits_val_Cons split: if_splits)
  next
    case less
    have "digits_val (c # cs) < digits_val (d # ds)"
      using less dig small Cons.hyps by (intro step) (simp_all flip: digit_val_mono)
    with less show ?thesis by (simp add: cmp_def)
  next
    case greater
    have "digits_val (d # ds) < digits_val (c # cs)"
      using greater dig small Cons.hyps by (intro step) (simp_all flip: digit_val_mono)
    with greater show ?thesis by (auto simp: cmp_def)
  qed
qed simp

lemma digits_val_longer:
  assumes "length a < length b" "list_all is_ascii_digit a" "list_all is_ascii_digit b"
    and "hd b \<noteq> CHR ''0''"
  shows "digits_val a < digits_val b"
proof (cases b)
  case (Cons d ds)
  with assms have "0 < digit_val d"
    using digit_val_mono [of "CHR ''0''" d]
    by (auto simp: is_ascii_digit_def digit_val_def order_less_le)
  have "digits_val a < 10 ^ length a"
    using assms digits_val_bound by blast
  also have "(10::nat) ^ length a \<le> 10 ^ length ds"
    using assms Cons by (intro power_increasing) auto
  also have "\<dots> \<le> digit_val d * 10 ^ length ds"
    using \<open>0 < digit_val d\<close> by simp
  finally show ?thesis
    using Cons by (simp add: digits_val_Cons)
qed (use assms in simp)

text \<open>
  Length first, then byte by byte: the overflow-free comparison of digit strings
  without leading zeros, which is the comparison of their values.
\<close>

lemma cmp_length_digits:
  assumes a: "list_all is_ascii_digit a" and b: "list_all is_ascii_digit b"
    and ab: "length a < length b \<Longrightarrow> hd b \<noteq> CHR ''0''"
    and ba: "length b < length a \<Longrightarrow> hd a \<noteq> CHR ''0''"
  shows "then_cmp (cmp (length a) (length b)) (cmp a b) = cmp (digits_val a) (digits_val b)"
proof (cases "length a" "length b" rule: linorder_cases)
  case less
  then have "digits_val a < digits_val b"
    using digits_val_longer [OF less a b] ab by blast
  with less show ?thesis by simp
next
  case greater
  then have "digits_val b < digits_val a"
    using digits_val_longer [OF greater b a] ba by blast
  with greater show ?thesis by simp
next
  case equal
  then show ?thesis
    using cmp_digits_same_length [OF equal a b] by simp
qed

section \<open>Association lists and maps\<close>

text \<open>\<open>xs.get(i).copied().unwrap_or(d)\<close>.\<close>

definition get_or :: "'a \<Rightarrow> 'a list \<Rightarrow> nat \<Rightarrow> 'a" where
  "get_or d xs i = (if i < length xs then xs ! i else d)"

lemma get_or_beyond [simp]: "length xs \<le> i \<Longrightarrow> get_or d xs i = d"
  by (simp add: get_or_def)

lemma card_filter_insert_fresh:
  "finite A \<Longrightarrow> x \<notin> A \<Longrightarrow> P x \<Longrightarrow> card {y \<in> insert x A. P y} = Suc (card {y \<in> A. P y})"
proof -
  assume fin: "finite A" and new: "x \<notin> A" and px: "P x"
  have "{y \<in> insert x A. P y} = insert x {y \<in> A. P y}"
    using px by auto
  then show ?thesis
    using fin new by simp
qed

end
