(* ===== verification/Version_Order.thy ===== *)
theory Version_Order
  imports Prelude
begin

text \<open>
  The contract of a version comparator (\<open>matcher::VersionCompare\<close>), as two locales:
  \<open>comparator\<close> for a total three-way comparison and \<open>version_compare\<close> for the
  fallible comparison of version strings the scanner calls. The lemmas below build
  comparators from comparators (by key, lexicographically, over padded lists), so
  that each ecosystem theory only has to exhibit the shape of its own comparison.
\<close>

section \<open>Total comparisons\<close>

locale comparator =
  fixes c :: "'a \<Rightarrow> 'a \<Rightarrow> ordering"
  assumes refl: "c x x = Equal"
    and flip: "c y x = reverse_ord (c x y)"
    and trans: "c x y \<noteq> Greater \<Longrightarrow> c y z \<noteq> Greater \<Longrightarrow> c x z \<noteq> Greater"
begin

lemma equal_sym: "c x y = Equal \<Longrightarrow> c y x = Equal"
  using flip [of y x] by simp

lemma greater_iff_less: "c x y = Greater \<longleftrightarrow> c y x = Less"
  using flip [of y x] by simp

lemma less_le_trans: "c x y = Less \<Longrightarrow> c y z \<noteq> Greater \<Longrightarrow> c x z = Less"
proof -
  assume xy: "c x y = Less" and yz: "c y z \<noteq> Greater"
  show "c x z = Less"
  proof (rule ccontr)
    assume "c x z \<noteq> Less"
    then have zx: "c z x \<noteq> Greater"
      using greater_iff_less by blast
    from trans [OF yz zx] have "c y x \<noteq> Greater" .
    with xy show False
      using greater_iff_less by blast
  qed
qed

lemma le_less_trans: "c x y \<noteq> Greater \<Longrightarrow> c y z = Less \<Longrightarrow> c x z = Less"
proof -
  assume xy: "c x y \<noteq> Greater" and yz: "c y z = Less"
  show "c x z = Less"
  proof (rule ccontr)
    assume "c x z \<noteq> Less"
    then have zx: "c z x \<noteq> Greater"
      using greater_iff_less by blast
    from trans [OF zx xy] have "c z y \<noteq> Greater" .
    with yz show False
      using greater_iff_less by blast
  qed
qed

lemma equal_cong: "c x y = Equal \<Longrightarrow> c x z = c y z"
proof -
  assume xy: "c x y = Equal"
  then have yx: "c y x = Equal" by (rule equal_sym)
  show "c x z = c y z"
  proof (cases "c x z")
    case Less
    then show ?thesis using le_less_trans [of y x z] yx by simp
  next
    case Greater
    then have "c z x = Less" by (simp add: greater_iff_less)
    then have "c z y = Less" using less_le_trans [of z x y] xy by simp
    then have "c y z = Greater" by (simp add: greater_iff_less)
    with Greater show ?thesis by simp
  next
    case Equal
    from trans [of y x z] yx Equal have le: "c y z \<noteq> Greater" by simp
    from Equal have "c z x = Equal" by (rule equal_sym)
    with trans [of z x y] xy have "c z y \<noteq> Greater" by simp
    then have "c y z \<noteq> Less" using greater_iff_less by blast
    with le Equal show ?thesis by (cases "c y z") auto
  qed
qed

end

interpretation linorder_cmp: comparator "cmp :: 'a::linorder \<Rightarrow> 'a \<Rightarrow> ordering"
  by unfold_locales (auto simp: cmp_def split: if_splits)

lemma comparator_cmp: "comparator (cmp :: 'a::linorder \<Rightarrow> 'a \<Rightarrow> ordering)"
  by (rule linorder_cmp.comparator_axioms)

lemma comparator_key:
  assumes "comparator c"
  shows "comparator (\<lambda>x y. c (f x) (f y))"
  by (rule comparator.intro)
    (fact comparator.refl [OF assms] comparator.flip [OF assms] comparator.trans [OF assms])+

lemma comparator_then [comparator_rules]:
  assumes c: "comparator c" and d: "comparator d"
  shows "comparator (\<lambda>x y. then_cmp (c x y) (d x y))"
proof
  show "then_cmp (c x x) (d x x) = Equal" for x
    by (simp add: comparator.refl [OF c] comparator.refl [OF d])
  show "then_cmp (c y x) (d y x) = reverse_ord (then_cmp (c x y) (d x y))" for x y
    by (simp add: comparator.flip [OF c, of y x] comparator.flip [OF d, of y x])
  show "then_cmp (c x z) (d x z) \<noteq> Greater"
    if xy: "then_cmp (c x y) (d x y) \<noteq> Greater" and yz: "then_cmp (c y z) (d y z) \<noteq> Greater"
    for x y z
  proof (cases "c x y")
    case Less
    moreover from yz have "c y z \<noteq> Greater"
      by (cases "c y z") auto
    ultimately have "c x z = Less"
      by (rule comparator.less_le_trans [OF c])
    then show ?thesis by simp
  next
    case Greater
    with xy show ?thesis by simp
  next
    case xyE: Equal
    then have xz: "c x z = c y z"
      by (rule comparator.equal_cong [OF c])
    show ?thesis
      using xy yz xyE xz comparator.trans [OF d, of x y z] by (cases "c y z") auto
  qed
qed

section \<open>Index loops and padded lists\<close>

text \<open>
  \<open>for i in ... { if f(i) != Equal { return f(i) } } Equal\<close>.
\<close>

fun first_diff :: "('i \<Rightarrow> ordering) \<Rightarrow> 'i list \<Rightarrow> ordering" where
  "first_diff f [] = Equal"
| "first_diff f (i # is) = (if f i \<noteq> Equal then f i else first_diff f is)"

text \<open>
  Comparison of two lists position by position, the shorter one padded with \<open>d\<close>:
  the loop \<open>for i in 0..max(a.len(), b.len())\<close> of the apk and deb comparators.
\<close>

definition cmp_padded :: "'a \<Rightarrow> ('a \<Rightarrow> 'a \<Rightarrow> ordering) \<Rightarrow> 'a list \<Rightarrow> 'a list \<Rightarrow> ordering" where
  "cmp_padded d c xs ys = first_diff (\<lambda>i. c (get_or d xs i) (get_or d ys i))
     [0..<max (length xs) (length ys)]"

lemma first_diff_append:
  "first_diff f (is @ js) = then_cmp (first_diff f is) (first_diff f js)"
proof (induction "is")
  case (Cons i "is")
  then show ?case by (cases "f i") auto
qed simp

lemma first_diff_Equal_iff: "first_diff f is = Equal \<longleftrightarrow> (\<forall>i\<in>set is. f i = Equal)"
  by (induction "is") auto

lemma first_diff_cong:
  "(\<And>i. i \<in> set is \<Longrightarrow> f i = g i) \<Longrightarrow> first_diff f is = first_diff g is"
  by (induction "is") auto

lemma comparator_first_diff:
  assumes "\<And>i. comparator (c i)"
  shows "comparator (\<lambda>x y. first_diff (\<lambda>i. c i x y) is)"
proof (induction "is")
  case Nil
  show ?case by unfold_locales auto
next
  case (Cons i "is")
  have "first_diff (\<lambda>i. c i x y) (i # is) = then_cmp (c i x y) (first_diff (\<lambda>i. c i x y) is)" for x y
    by (cases "c i x y") auto
  then show ?case
    using comparator_then [OF assms Cons] by simp
qed

lemma cmp_padded_upto:
  assumes c: "comparator c" and "length xs \<le> n" "length ys \<le> n"
  shows "cmp_padded d c xs ys = first_diff (\<lambda>i. c (get_or d xs i) (get_or d ys i)) [0..<n]"
proof -
  let ?f = "\<lambda>i. c (get_or d xs i) (get_or d ys i)"
  let ?m = "max (length xs) (length ys)"
  have "[0..<n] = [0..<?m] @ [?m..<n]"
    using assms by (metis le_add_diff_inverse max.bounded_iff upt_add_eq_append zero_le)
  moreover have "first_diff ?f [?m..<n] = Equal"
    by (auto simp: first_diff_Equal_iff comparator.refl [OF c])
  ultimately show ?thesis
    by (simp add: cmp_padded_def first_diff_append) (cases "first_diff ?f [0..<?m]"; simp)
qed

lemma comparator_padded:
  assumes c: "comparator c"
  shows "comparator (cmp_padded d c)"
proof -
  let ?g = "\<lambda>n xs ys. first_diff (\<lambda>i. c (get_or d xs i) (get_or d ys i)) [0..<n]"
  have g: "comparator (?g n)" for n
    by (rule comparator_first_diff) (rule comparator_key [OF c])
  show ?thesis
  proof
    show "cmp_padded d c x x = Equal" for x
      using comparator.refl [OF g [of "length x"], of x] by (simp only: cmp_padded_def max.idem)
    show "cmp_padded d c y x = reverse_ord (cmp_padded d c x y)" for x y
      using comparator.flip [OF g [of "max (length x) (length y)"], of y x]
      by (simp only: cmp_padded_def max.commute [of "length y" "length x"])
    show "cmp_padded d c x z \<noteq> Greater"
      if "cmp_padded d c x y \<noteq> Greater" and "cmp_padded d c y z \<noteq> Greater" for x y z
    proof -
      define n where "n = max (length x) (max (length y) (length z))"
      have "length x \<le> n" "length y \<le> n" "length z \<le> n"
        by (auto simp: n_def)
      with that show ?thesis
        using comparator.trans [OF g [of n], of x y z] by (simp add: cmp_padded_upto [OF c])
    qed
  qed
qed

lemmas comparator_key_cmp [comparator_rules] = comparator_key [OF comparator_cmp]

lemmas comparator_key_padded [comparator_rules] =
  comparator_key [OF comparator_padded [OF comparator_cmp]]

lemma get_or_tl: "get_or d (tl xs) i = get_or d xs (Suc i)"
  by (cases xs) (auto simp: get_or_def nth_tl)

lemma first_diff_map: "first_diff f (map g is) = first_diff (\<lambda>i. f (g i)) is"
  by (induction "is") auto

text \<open>One round of the loop: the heads first, then the tails.\<close>

lemma cmp_padded_step:
  assumes "comparator c"
  shows "cmp_padded d c xs ys =
     then_cmp (c (get_or d xs 0) (get_or d ys 0)) (cmp_padded d c (tl xs) (tl ys))"
proof -
  define n where "n = max (length xs) (length ys)"
  have "[0..<Suc n] = 0 # map Suc [0..<n]"
    by (simp add: map_Suc_upt upt_conv_Cons)
  then have "cmp_padded d c xs ys =
      then_cmp (c (get_or d xs 0) (get_or d ys 0))
        (first_diff (\<lambda>i. c (get_or d (tl xs) i) (get_or d (tl ys) i)) [0..<n])"
    using cmp_padded_upto [OF assms, of xs "Suc n" ys d]
    by (cases "c (get_or d xs 0) (get_or d ys 0)") (simp_all add: n_def first_diff_map get_or_tl)
  then show ?thesis
    using cmp_padded_upto [OF assms, of "tl xs" n "tl ys" d] by (simp add: n_def le_diff_conv)
qed

lemma cmp_padded_Nil [simp]: "cmp_padded d c [] [] = Equal"
  by (simp add: cmp_padded_def)

section \<open>Fallible comparison of version strings\<close>

datatype version_error = Invalid

locale version_compare =
  fixes compare :: "string \<Rightarrow> string \<Rightarrow> (version_error, ordering) result"
  assumes self: "compare a b = Inr r \<Longrightarrow> compare a a = Inr Equal"
    and flipped: "compare a b = Inr r \<Longrightarrow> compare b a = Inr (reverse_ord r)"
    and chain: "compare a b = Inr r \<Longrightarrow> compare b d = Inr s \<Longrightarrow>
      \<exists>t. compare a d = Inr t \<and> (r \<noteq> Greater \<longrightarrow> s \<noteq> Greater \<longrightarrow> t \<noteq> Greater)"
    and total: "compare a a = Inr r \<Longrightarrow> compare b b = Inr s \<Longrightarrow> \<exists>t. compare a b = Inr t"

text \<open>
  \<open>let va = parse(a)?; let vb = parse(b)?; Ok(va.cmp(&vb))\<close>, the shape of every
  parsing comparator.
\<close>

definition compare_parsed ::
  "(string \<Rightarrow> (version_error, 'v) result) \<Rightarrow> ('v \<Rightarrow> 'v \<Rightarrow> ordering) \<Rightarrow>
   string \<Rightarrow> string \<Rightarrow> (version_error, ordering) result" where
  "compare_parsed parse c a b =
     (case parse a of Inl e \<Rightarrow> Inl e
      | Inr va \<Rightarrow> (case parse b of Inl e \<Rightarrow> Inl e | Inr vb \<Rightarrow> Inr (c va vb)))"

lemma compare_parsed_Inr:
  "compare_parsed parse c a b = Inr r \<longleftrightarrow>
     (\<exists>va vb. parse a = Inr va \<and> parse b = Inr vb \<and> r = c va vb)"
  by (auto simp: compare_parsed_def split: sum.splits)

lemma version_compare_parsed:
  assumes c: "comparator c"
  shows "version_compare (compare_parsed parse c)"
proof
  show "compare_parsed parse c a a = Inr Equal" if "compare_parsed parse c a b = Inr r" for a b r
    using that by (auto simp: compare_parsed_Inr comparator.refl [OF c])
  show "compare_parsed parse c b a = Inr (reverse_ord r)"
    if "compare_parsed parse c a b = Inr r" for a b r
  proof -
    from that obtain va vb where "parse a = Inr va" "parse b = Inr vb" "r = c va vb"
      by (auto simp: compare_parsed_Inr)
    then show ?thesis
      by (simp add: compare_parsed_Inr comparator.flip [OF c, of vb va])
  qed
  show "\<exists>t. compare_parsed parse c a d = Inr t
      \<and> (r \<noteq> Greater \<longrightarrow> s \<noteq> Greater \<longrightarrow> t \<noteq> Greater)"
    if "compare_parsed parse c a b = Inr r" and "compare_parsed parse c b d = Inr s" for a b d r s
  proof -
    from that obtain va vb vd where "parse a = Inr va" "parse b = Inr vb" "parse d = Inr vd"
      and "r = c va vb" "s = c vb vd"
      by (auto simp: compare_parsed_Inr)
    then show ?thesis
      using comparator.trans [OF c, of va vb vd] by (simp add: compare_parsed_def)
  qed
  show "\<exists>t. compare_parsed parse c a b = Inr t"
    if "compare_parsed parse c a a = Inr r" "compare_parsed parse c b b = Inr s" for a b r s
    using that by (auto simp: compare_parsed_Inr)
qed

end
