(* ===== verification/Version_Apk.thy ===== *)
theory Version_Apk
  imports Version_Order
begin

text \<open>
  The Alpine comparator, \<open>matcher/apk.rs\<close>: the version record, its parser, its
  \<open>Ord\<close> instance and \<open>ApkCompare\<close>. The payload of \<open>VersionError::Invalid\<close> (a
  message) is dropped.
\<close>

record apk_version =
  numerics :: "nat list"
  letter :: "char option"
  suffixes :: "(int \<times> nat) list"
  revision :: nat

definition suffix_rank :: "string \<Rightarrow> int option" where
  "suffix_rank s =
    (if s = ''alpha'' then Some (- 4)
     else if s = ''beta'' then Some (- 3)
     else if s = ''pre'' then Some (- 2)
     else if s = ''rc'' then Some (- 1)
     else if s = ''cvs'' then Some 1
     else if s = ''svn'' then Some 2
     else if s = ''git'' then Some 3
     else if s = ''hg'' then Some 4
     else if s = ''p'' then Some 5
     else None)"

text \<open>The \<open>-rN\<close> suffix: rightmost, and taken only when digits follow to the end.\<close>

definition apk_split_revision :: "string \<Rightarrow> (version_error, string \<times> nat) result" where
  "apk_split_revision s =
    (case rfind_str ''-r'' s of
       Some (pre, post) \<Rightarrow>
         if list_all is_ascii_digit post
         then (case parse_u64 post of None \<Rightarrow> Inl Invalid | Some n \<Rightarrow> Inr (pre, n))
         else Inr (s, 0)
     | None \<Rightarrow> Inr (s, 0))"

text \<open>The loop reading \<open><num>(.<num>)*\<close>; it returns the numbers and the unread rest.\<close>

function apk_numerics :: "string \<Rightarrow> (version_error, nat list \<times> string) result" where
  "apk_numerics s =
    (let digits = takeWhile is_ascii_digit s; rest = dropWhile is_ascii_digit s in
     if digits = [] then Inl Invalid
     else case parse_u64 digits of
       None \<Rightarrow> Inl Invalid
     | Some n \<Rightarrow>
         (case rest of
            [] \<Rightarrow> Inr ([n], rest)
          | c # s1 \<Rightarrow>
              if c = CHR ''.'' then
                (case apk_numerics s1 of
                   Inl e \<Rightarrow> Inl e
                 | Inr (ns, r) \<Rightarrow> Inr (n # ns, r))
              else Inr ([n], rest)))"
  by pat_completeness auto
termination
proof (relation "measure length")
  show "(s1, s) \<in> measure length"
    if "rest = c # s1" "rest = dropWhile is_ascii_digit s" for s rest c s1
    using that length_dropWhile_le [of is_ascii_digit s] by (metis Suc_le_lessD in_measure length_Cons)
qed simp

text \<open>The loop reading \<open>(_<suffix>[<digits>])*\<close>.\<close>

function apk_suffixes :: "string \<Rightarrow> (version_error, (int \<times> nat) list \<times> string) result" where
  "apk_suffixes s =
    (case s of
       [] \<Rightarrow> Inr ([], s)
     | c # s1 \<Rightarrow>
         if c \<noteq> CHR ''_'' then Inr ([], s)
         else
           (let name = takeWhile is_ascii_lowercase s1;
                s2 = dropWhile is_ascii_lowercase s1;
                digits = takeWhile is_ascii_digit s2;
                s3 = dropWhile is_ascii_digit s2 in
            case suffix_rank name of
              None \<Rightarrow> Inl Invalid
            | Some rank \<Rightarrow>
                (case (if digits = [] then Some 0 else parse_u64 digits) of
                   None \<Rightarrow> Inl Invalid
                 | Some num \<Rightarrow>
                     (case apk_suffixes s3 of
                        Inl e \<Rightarrow> Inl e
                      | Inr (xs, r) \<Rightarrow> Inr ((rank, num) # xs, r)))))"
  by pat_completeness auto
termination
proof (relation "measure length")
  show "(s3, s) \<in> measure length"
    if "s = c # s1" "s2 = dropWhile is_ascii_lowercase s1" "s3 = dropWhile is_ascii_digit s2"
    for s c s1 s2 s3
    using that length_dropWhile_le [of is_ascii_lowercase s1]
      length_dropWhile_le [of is_ascii_digit s2] by simp
qed simp

declare apk_numerics.simps [simp del] apk_suffixes.simps [simp del]

definition apk_letter :: "string \<Rightarrow> char option \<times> string" where
  "apk_letter s = (case s of [] \<Rightarrow> (None, s)
     | c # r \<Rightarrow> if is_ascii_lowercase c then (Some c, r) else (None, s))"

definition apk_parse :: "string \<Rightarrow> (version_error, apk_version) result" where
  "apk_parse s0 =
    (let s = trim s0 in
     if s = [] then Inl Invalid
     else case apk_split_revision s of
       Inl e \<Rightarrow> Inl e
     | Inr (main0, rv) \<Rightarrow>
        (case apk_numerics (cut_at CHR ''~'' main0) of
           Inl e \<Rightarrow> Inl e
         | Inr (ns, r1) \<Rightarrow>
             (case apk_letter r1 of (l, r2) \<Rightarrow>
               (case apk_suffixes r2 of
                  Inl e \<Rightarrow> Inl e
                | Inr (sfx, r3) \<Rightarrow>
                    if r3 \<noteq> [] then Inl Invalid
                    else Inr \<lparr>numerics = ns, letter = l, suffixes = sfx, revision = rv\<rparr>))))"

definition apk_cmp :: "apk_version \<Rightarrow> apk_version \<Rightarrow> ordering" where
  "apk_cmp a b =
     then_cmp (cmp_padded 0 cmp (numerics a) (numerics b))
    (then_cmp (cmp (letter a) (letter b))
    (then_cmp (cmp_padded (0, 0) cmp (suffixes a) (suffixes b))
              (cmp (revision a) (revision b))))"

definition apk_compare :: "string \<Rightarrow> string \<Rightarrow> (version_error, ordering) result" where
  "apk_compare = compare_parsed apk_parse apk_cmp"

section \<open>The comparator contract\<close>

interpretation apk_cmp: comparator apk_cmp
  unfolding apk_cmp_def by (intro comparator_rules)

interpretation apk: version_compare apk_compare
  unfolding apk_compare_def by (rule version_compare_parsed) (rule apk_cmp.comparator_axioms)

section \<open>Release order of suffixes\<close>

lemma cmp_padded_snoc:
  assumes "comparator c"
  shows "cmp_padded d c xs (xs @ [y]) = c d y"
proof -
  let ?f = "\<lambda>i. c (get_or d xs i) (get_or d (xs @ [y]) i)"
  have "first_diff ?f [0..<length xs] = Equal"
    by (auto simp: first_diff_Equal_iff get_or_def nth_append comparator.refl [OF assms])
  then show ?thesis
    by (simp add: cmp_padded_def first_diff_append get_or_def nth_append)
qed

lemma suffix_rank_nonzero: "suffix_rank s = Some r \<Longrightarrow> r \<noteq> 0"
  by (auto simp: suffix_rank_def split: if_splits)

section \<open>Properties\<close>

text \<open>
  Appending a suffix moves an apk version the way its kind says: a pre-release
  suffix (alpha, beta, pre, rc) makes it older than the version without the suffix,
  every other known suffix (cvs, svn, git, hg, p) makes it newer, whatever its number.
\<close>

theorem apk_suffix_release_order:
  assumes "suffix_rank name = Some r"
  shows "apk_cmp (v\<lparr>suffixes := suffixes v @ [(r, n)]\<rparr>) v =
    (if name \<in> {''alpha'', ''beta'', ''pre'', ''rc''} then Less else Greater)"
proof -
  have "apk_cmp v (v\<lparr>suffixes := suffixes v @ [(r, n)]\<rparr>) = cmp (0, 0) (r, n)"
    by (simp add: apk_cmp_def cmp_padded_snoc [OF comparator_cmp]
        comparator.refl [OF comparator_padded [OF comparator_cmp]]) (simp add: cmp_def)
  then have "apk_cmp (v\<lparr>suffixes := suffixes v @ [(r, n)]\<rparr>) v = reverse_ord (cmp (0, 0) (r, n))"
    using apk_cmp.flip [of "v\<lparr>suffixes := suffixes v @ [(r, n)]\<rparr>" v] by simp
  then show ?thesis
    using assms by (auto simp: suffix_rank_def cmp_def split: if_splits)
qed

theorem apk_suffix_release_order_witness:
  "suffix_rank ''rc'' = Some (- 1) \<and>
   apk_parse ''1.2.3_rc2-r4'' = Inr \<lparr>numerics = [1, 2, 3], letter = None,
     suffixes = [(- 1, 2)], revision = 4\<rparr> \<and>
   apk_cmp \<lparr>numerics = [1, 2, 3], letter = None, suffixes = [(- 1, 2)], revision = 4\<rparr>
     \<lparr>numerics = [1, 2, 3], letter = None, suffixes = [], revision = 4\<rparr> = Less"
proof (intro conjI)
  show rank: "suffix_rank ''rc'' = Some (- 1)"
    by (simp add: suffix_rank_def)
  show "apk_parse ''1.2.3_rc2-r4'' = Inr \<lparr>numerics = [1, 2, 3], letter = None,
      suffixes = [(- 1, 2)], revision = 4\<rparr>"
    by code_simp
  show "apk_cmp \<lparr>numerics = [1, 2, 3], letter = None, suffixes = [(- 1, 2)], revision = 4\<rparr>
     \<lparr>numerics = [1, 2, 3], letter = None, suffixes = [], revision = 4\<rparr> = Less"
    using apk_suffix_release_order [OF rank,
        of "\<lparr>numerics = [1, 2, 3], letter = None, suffixes = [], revision = 4\<rparr>" 2]
    by simp
qed

end
