(* ===== verification/Version_Deb.thy ===== *)
theory Version_Deb
  imports Version_Order
begin

text \<open>
  The Debian comparator, \<open>matcher/deb.rs\<close>. \<open>compare_component\<close> is the source's
  loop over alternating non-digit and digit runs; it is shown equal to the
  comparison of \<open>deb-version(5)\<close>: cut both strings into their runs once, pad the
  shorter list with empty runs, compare non-digit runs by the manual's own rule
  (\<open>deb_lexical\<close>, written without the source's ranks) and digit runs as numbers of any size.
\<close>

record deb_version =
  epoch :: nat
  upstream :: string
  revision :: string

definition deb_split_epoch :: "string \<Rightarrow> (version_error, nat \<times> string) result" where
  "deb_split_epoch s =
    (case split_once CHR '':'' s of
       Some (pre, post) \<Rightarrow>
         if pre \<noteq> [] \<and> list_all is_ascii_digit pre
         then (case parse_u64 pre of None \<Rightarrow> Inl Invalid | Some e \<Rightarrow> Inr (e, post))
         else Inr (0, s)
     | None \<Rightarrow> Inr (0, s))"

definition deb_parse :: "string \<Rightarrow> (version_error, deb_version) result" where
  "deb_parse s0 =
    (let s = trim s0 in
     if s = [] then Inl Invalid
     else case deb_split_epoch s of
       Inl e \<Rightarrow> Inl e
     | Inr (e, rest) \<Rightarrow>
         (let (up, rv) = (case rsplit_once CHR ''-'' rest of
             Some (pre, post) \<Rightarrow> (pre, post) | None \<Rightarrow> (rest, [])) in
          if up = [] then Inl Invalid
          else Inr \<lparr>epoch = e, upstream = up, revision = rv\<rparr>))"

definition take_while :: "string \<Rightarrow> (char \<Rightarrow> bool) \<Rightarrow> string \<times> string" where
  "take_while buf pred = (takeWhile pred buf, dropWhile pred buf)"

definition nondigit_rank :: "char option \<Rightarrow> int" where
  "nondigit_rank b =
    (case b of
       None \<Rightarrow> 0
     | Some c \<Rightarrow> if c = CHR ''~'' then - 1
         else if is_ascii_alphabetic c then 256 + of_char c
         else 512 + of_char c)"

definition get_byte :: "string \<Rightarrow> nat \<Rightarrow> char option" where
  "get_byte a i = (if i < length a then Some (a ! i) else None)"

definition compare_non_digit :: "string \<Rightarrow> string \<Rightarrow> ordering" where
  "compare_non_digit a b =
     first_diff (\<lambda>i. cmp (nondigit_rank (get_byte a i)) (nondigit_rank (get_byte b i)))
       [0..<max (length a) (length b)]"

definition strip_leading_zeros :: "string \<Rightarrow> string" where
  "strip_leading_zeros a = dropWhile (\<lambda>c. c = CHR ''0'') a"

definition compare_digit :: "string \<Rightarrow> string \<Rightarrow> ordering" where
  "compare_digit a0 b0 =
    (let a = strip_leading_zeros a0; b = strip_leading_zeros b0 in
     case cmp (length a) (length b) of Equal \<Rightarrow> cmp a b | ord \<Rightarrow> ord)"

function compare_component :: "string \<Rightarrow> string \<Rightarrow> ordering" where
  "compare_component a b =
    (let (a_nondigit, a1) = take_while a (\<lambda>c. \<not> is_ascii_digit c);
         (b_nondigit, b1) = take_while b (\<lambda>c. \<not> is_ascii_digit c) in
     case compare_non_digit a_nondigit b_nondigit of
       Equal \<Rightarrow>
         (let (a_digit, a2) = take_while a1 is_ascii_digit;
              (b_digit, b2) = take_while b1 is_ascii_digit in
          case compare_digit a_digit b_digit of
            Equal \<Rightarrow> if a2 = [] \<and> b2 = [] then Equal else compare_component a2 b2
          | ord \<Rightarrow> ord)
     | ord \<Rightarrow> ord)"
  by pat_completeness auto

text \<open>One round consumes at least one byte of every non-empty side.\<close>

abbreviation (input) runs_rest :: "string \<Rightarrow> string" where
  "runs_rest s \<equiv> dropWhile is_ascii_digit (dropWhile (\<lambda>c. \<not> is_ascii_digit c) s)"

lemma runs_rest_shorter: "s \<noteq> [] \<Longrightarrow> length (runs_rest s) < length s"
proof (cases s)
  case (Cons c cs)
  have "length (dropWhile is_ascii_digit (dropWhile (\<lambda>c. \<not> is_ascii_digit c) cs)) \<le> length cs"
    "length (dropWhile is_ascii_digit cs) \<le> length cs"
    by (meson length_dropWhile_le order_trans)+
  with Cons show ?thesis by auto
qed simp

termination compare_component
proof (relation "measure (\<lambda>(a, b). length a + length b)", goal_cases)
  case (2 a b x a_nondigit a1 y b_nondigit b1 z a_digit a2 w b_digit b2)
  then have a2: "a2 = runs_rest a" and b2: "b2 = runs_rest b"
    by (auto simp: take_while_def)
  have "length a2 \<le> length a" "length b2 \<le> length b"
    unfolding a2 b2 by (meson length_dropWhile_le order_trans)+
  moreover have "a \<noteq> [] \<Longrightarrow> length a2 < length a" "b \<noteq> [] \<Longrightarrow> length b2 < length b"
    unfolding a2 b2 by (rule runs_rest_shorter; assumption)+
  moreover have "a \<noteq> [] \<or> b \<noteq> []"
    using 2 a2 b2 by auto
  ultimately show ?case by fastforce
qed simp

declare compare_component.simps [simp del]

definition deb_cmp :: "deb_version \<Rightarrow> deb_version \<Rightarrow> ordering" where
  "deb_cmp a b =
    (case cmp (epoch a) (epoch b) of
       Equal \<Rightarrow>
         (case compare_component (upstream a) (upstream b) of
            Equal \<Rightarrow> compare_component (revision a) (revision b)
          | ord \<Rightarrow> ord)
     | ord \<Rightarrow> ord)"

definition deb_compare :: "string \<Rightarrow> string \<Rightarrow> (version_error, ordering) result" where
  "deb_compare = compare_parsed deb_parse deb_cmp"

section \<open>Digit runs are compared as numbers\<close>

lemma digits_val_strip: "digits_val (strip_leading_zeros ds) = digits_val ds"
  by (induction ds) (auto simp: strip_leading_zeros_def digits_val_Cons digit_val_def)

lemma strip_leading_zeros_digits:
  "list_all is_ascii_digit ds \<Longrightarrow> list_all is_ascii_digit (strip_leading_zeros ds)"
  by (auto simp: strip_leading_zeros_def list_all_iff dest: set_dropWhileD)

lemma strip_leading_zeros_hd:
  "strip_leading_zeros ds \<noteq> [] \<Longrightarrow> hd (strip_leading_zeros ds) \<noteq> CHR ''0''"
  unfolding strip_leading_zeros_def by (rule hd_dropWhile)

lemma compare_digit_numeric:
  assumes "list_all is_ascii_digit a0" "list_all is_ascii_digit b0"
  shows "compare_digit a0 b0 = cmp (digits_val a0) (digits_val b0)"
proof -
  let ?a = "strip_leading_zeros a0" and ?b = "strip_leading_zeros b0"
  have "compare_digit a0 b0 = then_cmp (cmp (length ?a) (length ?b)) (cmp ?a ?b)"
    by (simp only: compare_digit_def Let_def case_ordering_then)
  also have "\<dots> = cmp (digits_val ?a) (digits_val ?b)"
    using assms by (intro cmp_length_digits strip_leading_zeros_digits strip_leading_zeros_hd) auto
  finally show ?thesis by (simp add: digits_val_strip)
qed

section \<open>The loop is the comparison of the runs\<close>

function runs :: "string \<Rightarrow> (string \<times> string) list" where
  "runs s = (if s = [] then []
     else (takeWhile (\<lambda>c. \<not> is_ascii_digit c) s,
           takeWhile is_ascii_digit (dropWhile (\<lambda>c. \<not> is_ascii_digit c) s)) # runs (runs_rest s))"
  by pat_completeness auto
termination by (relation "measure length") (auto intro: runs_rest_shorter)

declare runs.simps [simp del]

text \<open>
  The lexical comparison of \<open>deb-version(5)\<close>: ASCII values, modified so that all the letters
  sort earlier than all the non-letters and so that a tilde sorts before anything, even the
  end of a part.
\<close>

fun deb_lexical :: "string \<Rightarrow> string \<Rightarrow> ordering" where
  "deb_lexical [] [] = Equal"
| "deb_lexical [] (y # ys) = (if y = CHR ''~'' then Greater else Less)"
| "deb_lexical (x # xs) [] = (if x = CHR ''~'' then Less else Greater)"
| "deb_lexical (x # xs) (y # ys) =
    (if x = y then deb_lexical xs ys
     else if x = CHR ''~'' then Less
     else if y = CHR ''~'' then Greater
     else if is_ascii_alphabetic x \<and> \<not> is_ascii_alphabetic y then Less
     else if \<not> is_ascii_alphabetic x \<and> is_ascii_alphabetic y then Greater
     else cmp (of_char x :: nat) (of_char y))"

text \<open>The order of \<open>deb-version(5)\<close> on the runs, digit runs read as numbers.\<close>

definition dpkg_run_order :: "string \<times> nat \<Rightarrow> string \<times> nat \<Rightarrow> ordering" where
  "dpkg_run_order p q = then_cmp (deb_lexical (fst p) (fst q)) (cmp (snd p) (snd q))"

definition dpkg_runs :: "string \<Rightarrow> (string \<times> nat) list" where
  "dpkg_runs s = map (\<lambda>(n, d). (n, digits_val d)) (runs s)"

definition dpkg_order :: "string \<Rightarrow> string \<Rightarrow> ordering" where
  "dpkg_order a b = cmp_padded ([], 0) dpkg_run_order (dpkg_runs a) (dpkg_runs b)"

lemma compare_non_digit_padded:
  "compare_non_digit a b = cmp_padded None (\<lambda>x y. cmp (nondigit_rank x) (nondigit_rank y))
     (map Some a) (map Some b)"
proof -
  have "get_or None (map Some s) i = get_byte s i" for s i
    by (simp add: get_or_def get_byte_def)
  then show ?thesis
    by (simp add: compare_non_digit_def cmp_padded_def)
qed

lemma comparator_non_digit: "comparator compare_non_digit"
  unfolding compare_non_digit_padded [abs_def]
  by (rule comparator_key) (intro comparator_padded comparator_key_cmp)

text \<open>The source's ranks give the manual's lexical comparison.\<close>

lemma of_char_int: "(of_char c :: int) = int (of_char c)"
  by (simp add: of_nat_of_char)

lemma rank_bounds:
  "nondigit_rank None = 0" "nondigit_rank (Some CHR ''~'') = - 1" "c \<noteq> CHR ''~'' \<Longrightarrow> 0 < nondigit_rank (Some c)"
  by (simp_all add: nondigit_rank_def of_char_int)

lemma rank_cmp_None:
  "cmp (nondigit_rank None) (nondigit_rank (Some c)) = (if c = CHR ''~'' then Greater else Less)"
  "cmp (nondigit_rank (Some c)) (nondigit_rank None) = (if c = CHR ''~'' then Less else Greater)"
  by (cases "c = CHR ''~''"; use rank_bounds(3) [of c] in \<open>simp add: rank_bounds(1,2) cmp_def\<close>)+

lemma rank_cmp:
  assumes "x \<noteq> y"
  shows "cmp (nondigit_rank (Some x)) (nondigit_rank (Some y)) = deb_lexical [x] [y]"
proof -
  obtain m n :: nat where mn: "of_char x = m" "of_char y = n"
    by blast
  then have "m < 256" "n < 256" "m \<noteq> n"
    using assms by auto
  with mn assms show ?thesis
    by (auto simp: nondigit_rank_def cmp_def of_char_int)
qed

lemma deb_lexical_Cons:
  "deb_lexical (x # xs) (y # ys) = (if x = y then deb_lexical xs ys else deb_lexical [x] [y])"
  "x \<noteq> y \<Longrightarrow> deb_lexical [x] [y] \<noteq> Equal"
  by (auto simp: cmp_def)

lemma compare_non_digit_step:
  "compare_non_digit (x # xs) (y # ys) =
    then_cmp (cmp (nondigit_rank (Some x)) (nondigit_rank (Some y))) (compare_non_digit xs ys)"
  "compare_non_digit [] (y # ys) =
    then_cmp (cmp (nondigit_rank None) (nondigit_rank (Some y))) (compare_non_digit [] ys)"
  "compare_non_digit (x # xs) [] =
    then_cmp (cmp (nondigit_rank (Some x)) (nondigit_rank None)) (compare_non_digit xs [])"
  unfolding compare_non_digit_padded
  by (subst cmp_padded_step [OF comparator_key_cmp], simp add: get_or_def)+

lemma compare_non_digit_lexical: "compare_non_digit a b = deb_lexical a b"
proof (induction a b rule: deb_lexical.induct)
  case (4 x xs y ys)
  show ?case
  proof (cases "x = y")
    case True
    with 4 show ?thesis
      by (simp add: compare_non_digit_step comparator.refl [OF comparator_cmp])
  next
    case False
    then show ?thesis
      using deb_lexical_Cons(2) [OF False]
      unfolding compare_non_digit_step deb_lexical_Cons(1) [of x xs] rank_cmp [OF False]
      by (cases "deb_lexical [x] [y]") (simp_all only: then_cmp_simps if_False simp_thms)
  qed
qed (simp_all add: compare_non_digit_step rank_cmp_None, simp add: compare_non_digit_def)

lemma comparator_dpkg_run: "comparator dpkg_run_order"
  unfolding dpkg_run_order_def [abs_def] compare_non_digit_lexical [symmetric]
  by (intro comparator_then comparator_key [OF comparator_non_digit] comparator_key_cmp)

lemma comparator_dpkg: "comparator dpkg_order"
  unfolding dpkg_order_def [abs_def]
  by (rule comparator_key [OF comparator_padded [OF comparator_dpkg_run]])

lemma dpkg_runs_head:
  "get_or ([], 0) (dpkg_runs s) 0 =
     (takeWhile (\<lambda>c. \<not> is_ascii_digit c) s,
      digits_val (takeWhile is_ascii_digit (dropWhile (\<lambda>c. \<not> is_ascii_digit c) s)))"
  by (subst dpkg_runs_def, subst runs.simps) (simp add: get_or_def)

lemma dpkg_runs_tl: "tl (dpkg_runs s) = dpkg_runs (runs_rest s)"
  by (subst dpkg_runs_def, subst runs.simps) (simp add: dpkg_runs_def runs.simps [of "[]"])

lemma dpkg_order_step:
  "dpkg_order a b =
    then_cmp (compare_non_digit (takeWhile (\<lambda>c. \<not> is_ascii_digit c) a)
                                (takeWhile (\<lambda>c. \<not> is_ascii_digit c) b))
    (then_cmp (compare_digit (takeWhile is_ascii_digit (dropWhile (\<lambda>c. \<not> is_ascii_digit c) a))
                             (takeWhile is_ascii_digit (dropWhile (\<lambda>c. \<not> is_ascii_digit c) b)))
              (dpkg_order (runs_rest a) (runs_rest b)))"
proof -
  have dig: "list_all is_ascii_digit (takeWhile is_ascii_digit s)" for s
    by (auto simp: list_all_iff dest: set_takeWhileD)
  show ?thesis
    unfolding dpkg_order_def
    by (subst cmp_padded_step [OF comparator_dpkg_run])
      (simp add: dpkg_runs_head dpkg_runs_tl dpkg_run_order_def then_cmp_assoc
        compare_non_digit_lexical compare_digit_numeric [OF dig dig])
qed

lemma if_empty_Equal:
  "f x y = g x y \<Longrightarrow> g [] [] = Equal \<Longrightarrow> (if x = [] \<and> y = [] then Equal else f x y) = g x y"
  by auto

lemma compare_component_step:
  "compare_component a b =
    then_cmp (compare_non_digit (takeWhile (\<lambda>c. \<not> is_ascii_digit c) a)
                                (takeWhile (\<lambda>c. \<not> is_ascii_digit c) b))
    (then_cmp (compare_digit (takeWhile is_ascii_digit (dropWhile (\<lambda>c. \<not> is_ascii_digit c) a))
                             (takeWhile is_ascii_digit (dropWhile (\<lambda>c. \<not> is_ascii_digit c) b)))
      (if runs_rest a = [] \<and> runs_rest b = [] then Equal
       else compare_component (runs_rest a) (runs_rest b)))"
  by (subst compare_component.simps)
    (simp only: take_while_def Let_def prod.case case_ordering_then)

lemma compare_component_dpkg: "compare_component a b = dpkg_order a b"
proof (induction "length a + length b" arbitrary: a b rule: less_induct)
  case less
  have "(if runs_rest a = [] \<and> runs_rest b = [] then Equal
      else compare_component (runs_rest a) (runs_rest b)) = dpkg_order (runs_rest a) (runs_rest b)"
  proof (cases "a = [] \<and> b = []")
    case True
    then show ?thesis
      by (simp add: comparator.refl [OF comparator_dpkg])
  next
    case False
    moreover have "length (runs_rest a) \<le> length a" "length (runs_rest b) \<le> length b"
      by (meson length_dropWhile_le order_trans)+
    ultimately have "length (runs_rest a) + length (runs_rest b) < length a + length b"
      using runs_rest_shorter [of a] runs_rest_shorter [of b] by linarith
    from less.hyps [OF this] show ?thesis
      by (rule if_empty_Equal) (rule comparator.refl [OF comparator_dpkg])
  qed
  then show ?case
    by (subst compare_component_step, subst dpkg_order_step) (rule arg_cong2; simp)
qed

section \<open>The comparator contract\<close>

lemma deb_cmp_key:
  "deb_cmp a b = then_cmp (cmp (epoch a) (epoch b))
     (then_cmp (dpkg_order (upstream a) (upstream b)) (dpkg_order (revision a) (revision b)))"
  by (simp add: deb_cmp_def compare_component_dpkg case_ordering_then)

interpretation deb_cmp: comparator deb_cmp
  unfolding deb_cmp_key [abs_def]
  by (intro comparator_then comparator_key_cmp comparator_key [OF comparator_dpkg])

interpretation deb: version_compare deb_compare
  unfolding deb_compare_def by (rule version_compare_parsed) (rule deb_cmp.comparator_axioms)

section \<open>Properties\<close>

text \<open>
  C14. Two Debian versions that parse are ordered as \<open>deb-version(5)\<close> says: by
  epoch, then upstream version, then revision, each of the latter two compared run by
  run, the non-digit runs by the manual's lexical rule (a tilde before the end of the
  part, the end before letters, letters before the rest) and the digit runs as natural
  numbers of any size.
\<close>

theorem deb_compare_order:
  assumes "deb_parse a = Inr va" "deb_parse b = Inr vb"
  shows "deb_compare a b = Inr (then_cmp (cmp (epoch va) (epoch vb))
    (then_cmp (dpkg_order (upstream va) (upstream vb)) (dpkg_order (revision va) (revision vb))))"
  using assms by (simp add: deb_compare_def compare_parsed_def deb_cmp_key)

theorem deb_compare_order_witness:
  "deb_parse ''1:2.30~rc1-10'' = Inr \<lparr>epoch = 1, upstream = ''2.30~rc1'', revision = ''10''\<rparr> \<and>
   deb_parse ''1:2.30-9'' = Inr \<lparr>epoch = 1, upstream = ''2.30'', revision = ''9''\<rparr> \<and>
   deb_compare ''1:2.30~rc1-10'' ''1:2.30-9'' = Inr (then_cmp (cmp 1 (1::nat))
     (then_cmp (dpkg_order ''2.30~rc1'' ''2.30'') (dpkg_order ''10'' ''9'')))"
proof (intro conjI)
  show a: "deb_parse ''1:2.30~rc1-10'' =
      Inr \<lparr>epoch = 1, upstream = ''2.30~rc1'', revision = ''10''\<rparr>"
    by code_simp
  show b: "deb_parse ''1:2.30-9'' = Inr \<lparr>epoch = 1, upstream = ''2.30'', revision = ''9''\<rparr>"
    by code_simp
  show "deb_compare ''1:2.30~rc1-10'' ''1:2.30-9'' = Inr (then_cmp (cmp 1 (1::nat))
     (then_cmp (dpkg_order ''2.30~rc1'' ''2.30'') (dpkg_order ''10'' ''9'')))"
    using deb_compare_order [OF a b] by simp
qed

end
