(* ===== verification/Version_Rpm.thy ===== *)
theory Version_Rpm
  imports Version_Order
begin

text \<open>
  The RPM comparator, \<open>matcher/rpm.rs\<close>. The loop of \<open>rpmvercmp\<close> walks two indices;
  the model carries the unread suffixes \<open>a[i..]\<close> and \<open>b[j..]\<close>. For versions
  without the markers \<open>~\<close> and \<open>^\<close> it is the lexicographic comparison of
  digit and letter runs; with \<open>^\<close> it is not transitive.
\<close>

definition rpm_sep :: "char \<Rightarrow> bool" where
  "rpm_sep c \<longleftrightarrow> \<not> is_ascii_alphanumeric c \<and> c \<noteq> CHR ''~'' \<and> c \<noteq> CHR ''^''"

definition rpm_strip_zeros :: "string \<Rightarrow> string" where
  "rpm_strip_zeros a =
    (let r = dropWhile (\<lambda>c. c = CHR ''0'') a in if r = [] \<and> a \<noteq> [] then ''0'' else r)"

definition first_byte :: "string \<Rightarrow> char option" where
  "first_byte s = (case s of [] \<Rightarrow> None | c # _ \<Rightarrow> Some c)"

text \<open>The final \<open>match (a_rest, b_rest)\<close>.\<close>

definition rpm_leftover :: "string \<Rightarrow> string \<Rightarrow> ordering" where
  "rpm_leftover a b =
    (case (first_byte a, first_byte b) of
       (None, None) \<Rightarrow> Equal
     | (x, y) \<Rightarrow>
         if x = Some CHR ''~'' then Less
         else if y = Some CHR ''~'' then Greater
         else if x = None then Less
         else if y = None then Greater
         else Equal)"

definition rpm_run :: "string \<Rightarrow> string" where
  "rpm_run a = (if is_ascii_digit (hd a) then takeWhile is_ascii_digit a
     else takeWhile is_ascii_alphabetic a)"

definition rpm_after_run :: "string \<Rightarrow> string" where
  "rpm_after_run a = (if is_ascii_digit (hd a) then dropWhile is_ascii_digit a
     else dropWhile is_ascii_alphabetic a)"

definition rpm_seg_cmp :: "bool \<Rightarrow> string \<Rightarrow> string \<Rightarrow> ordering" where
  "rpm_seg_cmp num a_seg b_seg =
    (if num then
       (let a = rpm_strip_zeros a_seg; b = rpm_strip_zeros b_seg in
        case cmp (length a) (length b) of Equal \<Rightarrow> cmp a b | ord \<Rightarrow> ord)
     else cmp a_seg b_seg)"

lemma rpm_after_run_shorter:
  assumes "a \<noteq> []" "\<not> rpm_sep (hd a)" "hd a \<noteq> CHR ''~''" "hd a \<noteq> CHR ''^''"
  shows "length (rpm_after_run a) < length a"
proof (cases a)
  case (Cons c cs)
  with assms have "is_ascii_digit c \<or> is_ascii_alphabetic c"
    by (auto simp: rpm_sep_def is_ascii_alphanumeric_def)
  then show ?thesis
    using Cons length_dropWhile_le [of is_ascii_digit cs]
      length_dropWhile_le [of is_ascii_alphabetic cs]
    by (auto simp: rpm_after_run_def less_Suc_eq_le)
qed (use assms in simp)

lemma first_byte_hd: "s \<noteq> [] \<Longrightarrow> first_byte s = Some (hd s)"
  by (cases s) (auto simp: first_byte_def)

lemma hd_dropWhile_sep: "dropWhile rpm_sep a \<noteq> [] \<Longrightarrow> \<not> rpm_sep (hd (dropWhile rpm_sep a))"
  by (rule hd_dropWhile)

lemma dropWhile_sep_shorter:
  "first_byte a \<noteq> first_byte (dropWhile rpm_sep a) \<Longrightarrow>
    length (dropWhile rpm_sep a) < length a"
  using length_dropWhile_le [of rpm_sep "tl a"]
  by (cases a) (auto simp: first_byte_def less_Suc_eq_le split: if_splits)

lemma sep_progress:
  assumes "first_byte a \<noteq> Some CHR ''~''" "first_byte b \<noteq> Some CHR ''~''"
    and "first_byte a \<noteq> Some CHR ''^''" "first_byte b \<noteq> Some CHR ''^''"
    and a1: "dropWhile rpm_sep a \<noteq> []" and b1: "dropWhile rpm_sep b \<noteq> []"
    and "hd (dropWhile rpm_sep a) = CHR ''~'' \<or> hd (dropWhile rpm_sep b) = CHR ''~''
      \<or> hd (dropWhile rpm_sep a) = CHR ''^'' \<or> hd (dropWhile rpm_sep b) = CHR ''^''"
  shows "length (dropWhile rpm_sep a) + length (dropWhile rpm_sep b) < length a + length b"
proof -
  have "first_byte a \<noteq> first_byte (dropWhile rpm_sep a)
      \<or> first_byte b \<noteq> first_byte (dropWhile rpm_sep b)"
    using assms first_byte_hd [OF a1] first_byte_hd [OF b1] by metis
  then show ?thesis
    using dropWhile_sep_shorter [of a] dropWhile_sep_shorter [of b]
      length_dropWhile_le [of rpm_sep a] length_dropWhile_le [of rpm_sep b]
    by (auto intro: add_less_le_mono add_le_less_mono)
qed

function rpm_loop :: "string \<Rightarrow> string \<Rightarrow> ordering" where
  "rpm_loop a b =
    (let a_t = (first_byte a = Some CHR ''~''); b_t = (first_byte b = Some CHR ''~'') in
     if a_t \<or> b_t then
       (if a_t \<and> \<not> b_t then Less
        else if \<not> a_t \<and> b_t then Greater
        else rpm_loop (tl a) (tl b))
     else
     let a_c = (first_byte a = Some CHR ''^''); b_c = (first_byte b = Some CHR ''^'') in
     if a_c \<or> b_c then
       (if a_c \<and> b = [] then Greater
        else if b_c \<and> a = [] then Less
        else if a_c \<and> \<not> b_c then Less
        else if \<not> a_c \<and> b_c then Greater
        else rpm_loop (tl a) (tl b))
     else
     let a1 = dropWhile rpm_sep a; b1 = dropWhile rpm_sep b in
     if a1 = [] \<or> b1 = [] then rpm_leftover a1 b1
     else if hd a1 = CHR ''~'' \<or> hd b1 = CHR ''~'' \<or> hd a1 = CHR ''^'' \<or> hd b1 = CHR ''^''
     then rpm_loop a1 b1
     else
     let a_is_num = is_ascii_digit (hd a1); b_is_num = is_ascii_digit (hd b1) in
     if a_is_num \<noteq> b_is_num then (if a_is_num then Greater else Less)
     else
     let ord = rpm_seg_cmp a_is_num (rpm_run a1) (rpm_run b1) in
     if ord \<noteq> Equal then ord else rpm_loop (rpm_after_run a1) (rpm_after_run b1))"
  by pat_completeness auto
termination
proof (relation "measure (\<lambda>(a, b). length a + length b)", goal_cases)
  case 1
  show ?case by simp
next
  case (2 a b)
  then show ?case by (cases a) (auto simp: first_byte_def)
next
  case (3 a b)
  then show ?case by (cases a) (auto simp: first_byte_def)
next
  case (4 a b a_t b_t a_c b_c a1 b1)
  then show ?case
    using sep_progress [of a b] by simp
next
  case (5 a b a_t b_t a_c b_c a1 b1)
  have le: "length a1 \<le> length a" "length b1 \<le> length b"
    using 5 by (simp_all add: length_dropWhile_le)
  have "length (rpm_after_run a1) < length a1" "length (rpm_after_run b1) < length b1"
    using 5 hd_dropWhile_sep by (auto intro!: rpm_after_run_shorter)
  with le show ?case by simp
qed

declare rpm_loop.simps [simp del]

definition rpmvercmp :: "string \<Rightarrow> string \<Rightarrow> ordering" where
  "rpmvercmp a b = (if a = b then Equal else rpm_loop a b)"

definition rpm_compare :: "string \<Rightarrow> string \<Rightarrow> (version_error, ordering) result" where
  "rpm_compare a b = (if a = [] \<or> b = [] then Inl Invalid else Inr (rpmvercmp a b))"

section \<open>Swapping the arguments\<close>

lemma rpm_seg_cmp_flip: "rpm_seg_cmp num b a = reverse_ord (rpm_seg_cmp num a b)"
  by (simp add: rpm_seg_cmp_def Let_def case_ordering_then cmp_flip [of "rpm_strip_zeros b"]
      cmp_flip [of "length (rpm_strip_zeros b)"] cmp_flip [of b])

lemma rpm_leftover_flip:
  "a = [] \<or> b = [] \<Longrightarrow> rpm_leftover b a = reverse_ord (rpm_leftover a b)"
  by (cases a; cases b) (auto simp: rpm_leftover_def first_byte_def)

text \<open>The branches of the loop, one equation each.\<close>

abbreviation (input) tilde :: "string \<Rightarrow> bool" where
  "tilde s \<equiv> first_byte s = Some CHR ''~''"

abbreviation (input) caret :: "string \<Rightarrow> bool" where
  "caret s \<equiv> first_byte s = Some CHR ''^''"

lemma rpm_loop_tilde:
  "tilde a \<or> tilde b \<Longrightarrow> rpm_loop a b =
    (if tilde a \<and> \<not> tilde b then Less else if \<not> tilde a \<and> tilde b then Greater
     else rpm_loop (tl a) (tl b))"
  by (subst rpm_loop.simps) (simp only: Let_def if_True)

lemma rpm_loop_caret:
  "\<not> tilde a \<Longrightarrow> \<not> tilde b \<Longrightarrow> caret a \<or> caret b \<Longrightarrow> rpm_loop a b =
    (if caret a \<and> b = [] then Greater else if caret b \<and> a = [] then Less
     else if caret a \<and> \<not> caret b then Less else if \<not> caret a \<and> caret b then Greater
     else rpm_loop (tl a) (tl b))"
  by (subst rpm_loop.simps) (simp only: Let_def if_True if_False simp_thms)

definition rpm_step :: "string \<Rightarrow> string \<Rightarrow> ordering" where
  "rpm_step a1 b1 =
    (if a1 = [] \<or> b1 = [] then rpm_leftover a1 b1
     else if hd a1 = CHR ''~'' \<or> hd b1 = CHR ''~'' \<or> hd a1 = CHR ''^'' \<or> hd b1 = CHR ''^''
     then rpm_loop a1 b1
     else if is_ascii_digit (hd a1) \<noteq> is_ascii_digit (hd b1)
     then (if is_ascii_digit (hd a1) then Greater else Less)
     else then_cmp (rpm_seg_cmp (is_ascii_digit (hd a1)) (rpm_run a1) (rpm_run b1))
            (rpm_loop (rpm_after_run a1) (rpm_after_run b1)))"

lemma then_cmp_if: "(if p \<noteq> Equal then p else q) = then_cmp p q"
  by (cases p) auto

lemma rpm_loop_plain:
  "\<not> tilde a \<Longrightarrow> \<not> tilde b \<Longrightarrow> \<not> caret a \<Longrightarrow> \<not> caret b \<Longrightarrow>
    rpm_loop a b = rpm_step (dropWhile rpm_sep a) (dropWhile rpm_sep b)"
  by (subst rpm_loop.simps)
    (simp only: Let_def if_True if_False simp_thms rpm_step_def then_cmp_if)

lemma tilde_caret_nonempty: "tilde a \<Longrightarrow> a \<noteq> []" "caret a \<Longrightarrow> a \<noteq> []"
  by (auto simp: first_byte_def)

lemma length_tl_less: "a \<noteq> [] \<Longrightarrow> length (tl a) < length a"
  by (cases a) auto

lemma rpm_step_flip:
  assumes loop: "\<And>c d. length c + length d < length a1 + length b1 \<Longrightarrow>
      rpm_loop d c = reverse_ord (rpm_loop c d)"
    and marker: "rpm_loop b1 a1 = reverse_ord (rpm_loop a1 b1)
      \<or> \<not> (a1 \<noteq> [] \<and> b1 \<noteq> [] \<and> (hd a1 = CHR ''~'' \<or> hd b1 = CHR ''~''
        \<or> hd a1 = CHR ''^'' \<or> hd b1 = CHR ''^''))"
    and sep: "a1 \<noteq> [] \<Longrightarrow> \<not> rpm_sep (hd a1)" "b1 \<noteq> [] \<Longrightarrow> \<not> rpm_sep (hd b1)"
  shows "rpm_step b1 a1 = reverse_ord (rpm_step a1 b1)"
proof -
  consider (empty) "a1 = [] \<or> b1 = []"
    | (mark) "a1 \<noteq> []" "b1 \<noteq> []" "hd a1 = CHR ''~'' \<or> hd b1 = CHR ''~''
        \<or> hd a1 = CHR ''^'' \<or> hd b1 = CHR ''^''"
    | (run) "a1 \<noteq> []" "b1 \<noteq> []" "hd a1 \<noteq> CHR ''~''" "hd b1 \<noteq> CHR ''~''"
        "hd a1 \<noteq> CHR ''^''" "hd b1 \<noteq> CHR ''^''"
    by blast
  then show ?thesis
  proof cases
    case empty
    then show ?thesis
      using rpm_leftover_flip [of a1 b1] by (auto simp: rpm_step_def)
  next
    case mark
    then show ?thesis
      using marker by (auto simp: rpm_step_def)
  next
    case run
    then have "length (rpm_after_run a1) < length a1" "length (rpm_after_run b1) < length b1"
      using sep by (auto intro!: rpm_after_run_shorter)
    then have "rpm_loop (rpm_after_run b1) (rpm_after_run a1) =
        reverse_ord (rpm_loop (rpm_after_run a1) (rpm_after_run b1))"
      by (intro loop) linarith
    then show ?thesis
      using run rpm_seg_cmp_flip [of "is_ascii_digit (hd a1)" "rpm_run b1" "rpm_run a1"]
      by (auto simp: rpm_step_def)
  qed
qed

lemma rpm_loop_flip: "rpm_loop b a = reverse_ord (rpm_loop a b)"
proof (induction "length a + length b" arbitrary: a b rule: less_induct)
  case less
  let ?a1 = "dropWhile rpm_sep a" and ?b1 = "dropWhile rpm_sep b"
  have tls: "a \<noteq> [] \<Longrightarrow> b \<noteq> [] \<Longrightarrow> rpm_loop (tl b) (tl a) = reverse_ord (rpm_loop (tl a) (tl b))"
    using length_tl_less [of a] length_tl_less [of b] by (intro less) linarith
  consider "tilde a \<or> tilde b" | "\<not> tilde a" "\<not> tilde b" "caret a \<or> caret b"
    | "\<not> tilde a" "\<not> tilde b" "\<not> caret a" "\<not> caret b"
    by blast
  then show ?case
  proof cases
    case 1
    then show ?thesis
      using tls tilde_caret_nonempty
      by (auto simp: rpm_loop_tilde [of a b] rpm_loop_tilde [of b a])
  next
    case 2
    then show ?thesis
      using tls tilde_caret_nonempty
      by (auto simp: rpm_loop_caret [of a b] rpm_loop_caret [of b a]
          rpm_loop_caret [of "[]"] rpm_loop_caret [of _ "[]"])
  next
    case 3
    have le: "length ?a1 \<le> length a" "length ?b1 \<le> length b"
      by (rule length_dropWhile_le)+
    have "rpm_step ?b1 ?a1 = reverse_ord (rpm_step ?a1 ?b1)"
    proof (rule rpm_step_flip)
      show "rpm_loop d c = reverse_ord (rpm_loop c d)"
        if "length c + length d < length ?a1 + length ?b1" for c d
        using that le by (intro less) linarith
      show "rpm_loop ?b1 ?a1 = reverse_ord (rpm_loop ?a1 ?b1)
          \<or> \<not> (?a1 \<noteq> [] \<and> ?b1 \<noteq> [] \<and> (hd ?a1 = CHR ''~'' \<or> hd ?b1 = CHR ''~''
            \<or> hd ?a1 = CHR ''^'' \<or> hd ?b1 = CHR ''^''))"
        using less [of ?a1 ?b1] sep_progress [of a b] 3 by blast
    qed (rule hd_dropWhile_sep; assumption)+
    then show ?thesis
      using 3 by (simp only: rpm_loop_plain not_False_eq_True)
  qed
qed

lemma rpmvercmp_flip: "rpmvercmp b a = reverse_ord (rpmvercmp a b)"
  by (simp add: rpmvercmp_def rpm_loop_flip [of b a])

section \<open>Versions without markers\<close>

text \<open>
  The runs of a version, letter runs ranked below digit runs and digit runs read as
  numbers; comparing versions without \<open>~\<close> and \<open>^\<close> is comparing these lists
  lexicographically.
\<close>

definition no_marker :: "string \<Rightarrow> bool" where
  "no_marker s \<longleftrightarrow> CHR ''~'' \<notin> set s \<and> CHR ''^'' \<notin> set s"

definition rpm_token :: "string \<Rightarrow> nat \<times> nat \<times> string" where
  "rpm_token s = (if is_ascii_digit (hd s) then (1, digits_val (rpm_run s), [])
     else (0, 0, rpm_run s))"

function rpm_tokens :: "string \<Rightarrow> (nat \<times> nat \<times> string) list" where
  "rpm_tokens s =
    (let s1 = dropWhile rpm_sep s in
     if s1 = [] \<or> hd s1 = CHR ''~'' \<or> hd s1 = CHR ''^'' then []
     else rpm_token s1 # rpm_tokens (rpm_after_run s1))"
  by pat_completeness auto
termination
proof (relation "measure length", goal_cases)
  case (2 s s1)
  then have "length (rpm_after_run s1) < length s1"
    using hd_dropWhile_sep [of s] by (intro rpm_after_run_shorter) auto
  with 2 show ?case
    using length_dropWhile_le [of rpm_sep s] by simp
qed simp

declare rpm_tokens.simps [simp del] dropWhile_eq_Nil_conv [simp del]

lemma digits_val_rpm_strip: "digits_val (rpm_strip_zeros ds) = digits_val ds"
proof -
  have "digits_val (dropWhile (\<lambda>c. c = CHR ''0'') ds) = digits_val ds"
    by (induction ds) (auto simp: digits_val_Cons digit_val_def)
  moreover have "digits_val ''0'' = 0"
    by (simp add: digits_val_Cons digit_val_def)
  ultimately show ?thesis
    by (cases "dropWhile (\<lambda>c. c = CHR ''0'') ds = [] \<and> ds \<noteq> []")
      (simp_all only: rpm_strip_zeros_def Let_def if_True if_False digits_val_Nil simp_thms)
qed

lemma rpm_strip_digits:
  "list_all is_ascii_digit ds \<Longrightarrow> list_all is_ascii_digit (rpm_strip_zeros ds)"
  by (auto simp: rpm_strip_zeros_def Let_def list_all_iff is_ascii_digit_def less_eq_char_def
      dest: set_dropWhileD)

lemma rpm_strip_hd: "1 < length (rpm_strip_zeros ds) \<Longrightarrow> hd (rpm_strip_zeros ds) \<noteq> CHR ''0''"
proof (cases "dropWhile (\<lambda>c. c = CHR ''0'') ds = []")
  case False
  then show ?thesis
    using hd_dropWhile [OF False] by (simp only: rpm_strip_zeros_def Let_def simp_thms if_False)
qed (simp add: rpm_strip_zeros_def split: if_splits)

lemma rpm_strip_nonempty: "ds \<noteq> [] \<Longrightarrow> 0 < length (rpm_strip_zeros ds)"
  by (auto simp: rpm_strip_zeros_def Let_def)

lemma rpm_seg_cmp_numeric:
  assumes "list_all is_ascii_digit a" "list_all is_ascii_digit b" "a \<noteq> []" "b \<noteq> []"
  shows "rpm_seg_cmp True a b = cmp (digits_val a) (digits_val b)"
proof -
  let ?a = "rpm_strip_zeros a" and ?b = "rpm_strip_zeros b"
  have "rpm_seg_cmp True a b = then_cmp (cmp (length ?a) (length ?b)) (cmp ?a ?b)"
    by (simp only: rpm_seg_cmp_def Let_def if_True case_ordering_then)
  also have "\<dots> = cmp (digits_val ?a) (digits_val ?b)"
    using assms rpm_strip_nonempty [of a] rpm_strip_nonempty [of b]
    by (intro cmp_length_digits rpm_strip_digits rpm_strip_hd; (assumption | linarith))
  finally show ?thesis by (simp add: digits_val_rpm_strip)
qed

lemma rpm_run_nonempty:
  assumes "a \<noteq> []" "\<not> rpm_sep (hd a)" "hd a \<noteq> CHR ''~''" "hd a \<noteq> CHR ''^''"
  shows "rpm_run a \<noteq> []"
  using assms by (cases a) (auto simp: rpm_run_def rpm_sep_def is_ascii_alphanumeric_def)

lemma rpm_seg_cmp_token:
  assumes "rpm_run a \<noteq> []" "rpm_run b \<noteq> []" "is_ascii_digit (hd a) = is_ascii_digit (hd b)"
  shows "rpm_seg_cmp (is_ascii_digit (hd a)) (rpm_run a) (rpm_run b) =
    cmp (rpm_token a) (rpm_token b)"
proof (cases "is_ascii_digit (hd a)")
  case True
  then have "list_all is_ascii_digit (rpm_run a)" "list_all is_ascii_digit (rpm_run b)"
    using assms by (auto simp: rpm_run_def list_all_iff dest: set_takeWhileD)
  with True assms show ?thesis
    by (simp add: rpm_seg_cmp_numeric rpm_token_def cmp_Pair)
      (cases "cmp (digits_val (rpm_run a)) (digits_val (rpm_run b))"; simp)
next
  case False
  with assms show ?thesis
    by (simp add: rpm_seg_cmp_def rpm_token_def cmp_Pair)
qed

lemma no_marker_rest: "no_marker s \<Longrightarrow> no_marker (rpm_after_run (dropWhile rpm_sep s))"
  by (auto simp: no_marker_def rpm_after_run_def dest!: set_dropWhileD split: if_splits)

lemma no_marker_hd:
  "no_marker s \<Longrightarrow> dropWhile rpm_sep s \<noteq> [] \<Longrightarrow>
    hd (dropWhile rpm_sep s) \<noteq> CHR ''~'' \<and> hd (dropWhile rpm_sep s) \<noteq> CHR ''^''"
  by (metis hd_in_set no_marker_def set_dropWhileD)

lemma no_marker_run:
  assumes "no_marker s" "dropWhile rpm_sep s \<noteq> []"
  shows "rpm_run (dropWhile rpm_sep s) \<noteq> []"
    and "length (rpm_after_run (dropWhile rpm_sep s)) < length (dropWhile rpm_sep s)"
proof -
  note hd = assms(2) hd_dropWhile_sep [OF assms(2)] conjunct1 [OF no_marker_hd [OF assms]]
    conjunct2 [OF no_marker_hd [OF assms]]
  show "rpm_run (dropWhile rpm_sep s) \<noteq> []"
    by (rule rpm_run_nonempty) (rule hd)+
  show "length (rpm_after_run (dropWhile rpm_sep s)) < length (dropWhile rpm_sep s)"
    by (rule rpm_after_run_shorter) (rule hd)+
qed

lemma no_marker_first:
  "no_marker s \<Longrightarrow> first_byte s \<noteq> Some CHR ''~''" "no_marker s \<Longrightarrow> first_byte s \<noteq> Some CHR ''^''"
  by (cases s; auto simp: no_marker_def first_byte_def)+

lemma rpm_tokens_step:
  "no_marker s \<Longrightarrow> rpm_tokens s = (if dropWhile rpm_sep s = [] then []
     else rpm_token (dropWhile rpm_sep s) # rpm_tokens (rpm_after_run (dropWhile rpm_sep s)))"
  using no_marker_hd [of s] by (subst rpm_tokens.simps) (simp only: Let_def; simp)

lemma rpm_loop_tokens:
  "no_marker a \<Longrightarrow> no_marker b \<Longrightarrow> rpm_loop a b = cmp (rpm_tokens a) (rpm_tokens b)"
proof (induction "length a + length b" arbitrary: a b rule: less_induct)
  case less
  let ?a1 = "dropWhile rpm_sep a" and ?b1 = "dropWhile rpm_sep b"
  note marks = no_marker_first [OF less.prems(1)] no_marker_first [OF less.prems(2)]
  have eq: "rpm_loop a b = rpm_step ?a1 ?b1"
    by (rule rpm_loop_plain) (rule marks)+
  note tokens = rpm_tokens_step [OF less.prems(1)] rpm_tokens_step [OF less.prems(2)]
  show ?case
  proof (cases "?a1 = [] \<or> ?b1 = []")
    case True
    then show ?thesis
      using no_marker_hd [OF less.prems(1)] no_marker_hd [OF less.prems(2)]
      by (cases ?a1; cases ?b1)
        (simp_all only: eq tokens rpm_step_def rpm_leftover_def, simp_all add: first_byte_def)
  next
    case False
    note hds = no_marker_hd [OF less.prems(1)] no_marker_hd [OF less.prems(2)]
    have run: "rpm_run ?a1 \<noteq> []" "rpm_run ?b1 \<noteq> []"
      using False less.prems no_marker_run(1) by - blast+
    have short: "length (rpm_after_run ?a1) < length ?a1" "length (rpm_after_run ?b1) < length ?b1"
      using False less.prems no_marker_run(2) by - blast+
    have ih: "rpm_loop (rpm_after_run ?a1) (rpm_after_run ?b1) =
        cmp (rpm_tokens (rpm_after_run ?a1)) (rpm_tokens (rpm_after_run ?b1))"
      using short length_dropWhile_le [of rpm_sep a] length_dropWhile_le [of rpm_sep b]
      by (intro less.hyps no_marker_rest less.prems) linarith
    have "rpm_step ?a1 ?b1 = then_cmp (cmp (rpm_token ?a1) (rpm_token ?b1))
        (rpm_loop (rpm_after_run ?a1) (rpm_after_run ?b1))"
    proof (cases "is_ascii_digit (hd ?a1) = is_ascii_digit (hd ?b1)")
      case True
      then show ?thesis
        using False hds rpm_seg_cmp_token [OF run True] by (simp add: rpm_step_def)
    next
      case kinds: False
      then have "cmp (rpm_token ?a1) (rpm_token ?b1) =
          (if is_ascii_digit (hd ?a1) then Greater else Less)"
        by (auto simp: rpm_token_def cmp_Pair)
      then show ?thesis
        using False hds kinds by (simp add: rpm_step_def)
    qed
    then show ?thesis
      using False by (simp add: eq ih tokens cmp_Cons)
  qed
qed

section \<open>Properties\<close>



text \<open>
  With the caret marker the comparison is antisymmetric in its outcome but not
  transitive: swapping the arguments always reverses the result, yet
  1.0. equals 1.0, 1.0 is older than 1.0^, and 1.0^ is older than 1.0. again.
\<close>

theorem rpm_compare_flip_not_transitive:
  "(\<forall>a b. rpmvercmp b a = reverse_ord (rpmvercmp a b)) \<and>
   rpm_compare ''1.0.'' ''1.0'' = Inr Equal \<and>
   rpm_compare ''1.0'' ''1.0^'' = Inr Less \<and>
   rpm_compare ''1.0^'' ''1.0.'' = Inr Less"
proof (intro conjI allI)
  show "rpmvercmp b a = reverse_ord (rpmvercmp a b)" for a b
    by (rule rpmvercmp_flip)
  show "rpm_compare ''1.0.'' ''1.0'' = Inr Equal" "rpm_compare ''1.0'' ''1.0^'' = Inr Less"
    "rpm_compare ''1.0^'' ''1.0.'' = Inr Less"
    by code_simp+
qed

end
