(* ===== verification/Version_Pep440.thy ===== *)
theory Version_Pep440
  imports Version_Order
begin

text \<open>
  The Python comparator, \<open>matcher/pep440.rs\<close>: parser, sort key and
  \<open>Pep440Compare\<close>. The sort key trims trailing zeros of the release; the lemmas
  show that this is PEP 440's zero-padded comparison, and that the presence flags of
  the key put development, pre-, final and post-releases in the order of the PEP.
\<close>

datatype pre_kind = Alpha | Beta | Rc

fun pre_kind_u8 :: "pre_kind \<Rightarrow> nat" where
  "pre_kind_u8 Alpha = 0"
| "pre_kind_u8 Beta = 1"
| "pre_kind_u8 Rc = 2"

record pep440_version =
  epoch :: nat
  release :: "nat list"
  pre :: "(pre_kind \<times> nat) option"
  post :: "nat option"
  dev :: "nat option"

type_synonym sort_key = "nat \<times> nat list \<times> (int \<times> nat \<times> nat) \<times> (int \<times> nat) \<times> (int \<times> nat)"

definition consume_sep :: "string \<Rightarrow> string" where
  "consume_sep s = (case s of [] \<Rightarrow> []
     | c # r \<Rightarrow> if c = CHR ''.'' \<or> c = CHR ''-'' \<or> c = CHR ''_'' then r else s)"

fun match_first :: "(string \<times> 'a) list \<Rightarrow> string \<Rightarrow> ('a \<times> string) option" where
  "match_first [] s = None"
| "match_first ((lit, k) # labels) s =
     (case strip_prefix lit s of Some rest \<Rightarrow> Some (k, rest) | None \<Rightarrow> match_first labels s)"

definition match_pre_label :: "string \<Rightarrow> (pre_kind \<times> string) option" where
  "match_pre_label s = match_first
     [(''alpha'', Alpha), (''preview'', Rc), (''beta'', Beta), (''pre'', Rc),
      (''rc'', Rc), (''c'', Rc), (''a'', Alpha), (''b'', Beta)] s"

definition match_post_label :: "string \<Rightarrow> string option" where
  "match_post_label s =
     map_option snd (match_first [(''post'', ()), (''rev'', ()), (''r'', ())] s)"

definition match_implicit_post :: "string \<Rightarrow> (nat \<times> string) option" where
  "match_implicit_post s =
    (case strip_prefix ''-'' s of
       None \<Rightarrow> None
     | Some rest \<Rightarrow>
         if takeWhile is_ascii_digit rest \<noteq> []
         then (case parse_u64 (takeWhile is_ascii_digit rest) of
                 None \<Rightarrow> None
               | Some n \<Rightarrow> Some (n, dropWhile is_ascii_digit rest))
         else None)"

definition parse_optional_digits :: "string \<Rightarrow> nat \<times> string" where
  "parse_optional_digits s =
    (let ds = takeWhile is_ascii_digit s in
     if ds = [] then (0, s)
     else (case parse_u64 ds of Some n \<Rightarrow> n | None \<Rightarrow> 0, dropWhile is_ascii_digit s))"

text \<open>The release loop: \<open>digits('.'digits)*\<close>, a dot being taken only before a digit.\<close>

function pep440_release :: "string \<Rightarrow> (version_error, nat list \<times> string) result" where
  "pep440_release s =
    (let ds = takeWhile is_ascii_digit s; rest = dropWhile is_ascii_digit s in
     if ds = [] then Inl Invalid
     else case parse_u64 ds of
       None \<Rightarrow> Inl Invalid
     | Some n \<Rightarrow>
         (case rest of
            c # d # r \<Rightarrow>
              if c = CHR ''.'' \<and> is_ascii_digit d then
                (case pep440_release (d # r) of
                   Inl e \<Rightarrow> Inl e
                 | Inr (ns, rest') \<Rightarrow> Inr (n # ns, rest'))
              else Inr ([n], rest)
          | _ \<Rightarrow> Inr ([n], rest)))"
  by pat_completeness auto
termination
proof (relation "measure length", goal_cases)
  case (2 s ds rest n c cs d r)
  then have "dropWhile is_ascii_digit s = c # d # r"
    by auto
  then show ?case
    using length_dropWhile_le [of is_ascii_digit s] by simp
qed simp

declare pep440_release.simps [simp del]

definition pep440_epoch :: "string \<Rightarrow> (version_error, nat \<times> string) result" where
  "pep440_epoch s =
    (case split_once CHR ''!'' s of
       Some (e, rest) \<Rightarrow> (case parse_u64 e of None \<Rightarrow> Inl Invalid | Some n \<Rightarrow> Inr (n, rest))
     | None \<Rightarrow> Inr (0, s))"

text \<open>
  The optional parts after the release, each returning what it read and the rest.
\<close>

definition pep440_pre :: "string \<Rightarrow> (pre_kind \<times> nat) option \<times> string" where
  "pep440_pre rest =
    (case match_pre_label rest of
       None \<Rightarrow> (None, rest)
     | Some (kind, after) \<Rightarrow>
         (case parse_optional_digits (consume_sep after) of (n, after') \<Rightarrow>
            (Some (kind, n), after')))"

definition pep440_post :: "nat option \<Rightarrow> string \<Rightarrow> nat option \<times> string" where
  "pep440_post post0 rest =
    (case post0 of
       Some n \<Rightarrow> (Some n, rest)
     | None \<Rightarrow>
         (case match_post_label rest of
            None \<Rightarrow> (None, rest)
          | Some after \<Rightarrow>
              (case parse_optional_digits (consume_sep after) of (n, after') \<Rightarrow>
                 (Some n, after'))))"

definition pep440_dev :: "string \<Rightarrow> nat option \<times> string" where
  "pep440_dev rest =
    (case strip_prefix ''dev'' rest of
       None \<Rightarrow> (None, rest)
     | Some after \<Rightarrow>
         (case parse_optional_digits (consume_sep after) of (n, after') \<Rightarrow> (Some n, after')))"

definition pep440_parse :: "string \<Rightarrow> (version_error, pep440_version) result" where
  "pep440_parse s0 =
    (let raw = map to_ascii_lowercase (trim s0);
         s1 = strip_prefix_or ''v'' raw in
     if s1 = [] then Inl Invalid
     else case pep440_epoch (cut_at CHR ''+'' s1) of
       Inl e \<Rightarrow> Inl e
     | Inr (ep, rest0) \<Rightarrow>
        (case pep440_release rest0 of
           Inl e \<Rightarrow> Inl e
         | Inr (rel, rest1) \<Rightarrow>
            (let (post0, rest2) = (case match_implicit_post rest1 of
                   None \<Rightarrow> (None, rest1) | Some (n, after) \<Rightarrow> (Some n, after));
                 (pr, rest3) = pep440_pre (consume_sep rest2);
                 (po, rest4) = pep440_post post0 (consume_sep rest3);
                 (de, rest5) = pep440_dev (consume_sep rest4) in
             if consume_sep rest5 \<noteq> [] then Inl Invalid
             else Inr \<lparr>epoch = ep, release = rel, pre = pr, post = po, dev = de\<rparr>)))"

text \<open>\<open>while rel.len() > 1 && *rel.last() == 0 { rel.pop(); }\<close>\<close>

function trim_zeros :: "nat list \<Rightarrow> nat list" where
  "trim_zeros rel = (if 1 < length rel \<and> last rel = 0 then trim_zeros (butlast rel) else rel)"
  by pat_completeness auto
termination by (relation "measure length") auto

declare trim_zeros.simps [simp del]

definition pre_key :: "pep440_version \<Rightarrow> int \<times> nat \<times> nat" where
  "pre_key v =
    (case (pre v, post v, dev v) of
       (None, None, Some _) \<Rightarrow> (- 1, 0, 0)
     | (Some (kind, n), _, _) \<Rightarrow> (0, pre_kind_u8 kind, n)
     | _ \<Rightarrow> (1, 0, 0))"

definition post_key :: "pep440_version \<Rightarrow> int \<times> nat" where
  "post_key v = (case post v of Some n \<Rightarrow> (1, n) | None \<Rightarrow> (- 1, 0))"

definition dev_key :: "pep440_version \<Rightarrow> int \<times> nat" where
  "dev_key v = (case dev v of Some n \<Rightarrow> (0, n) | None \<Rightarrow> (1, 0))"

definition pep440_key :: "pep440_version \<Rightarrow> sort_key" where
  "pep440_key v = (epoch v, trim_zeros (release v), pre_key v, post_key v, dev_key v)"

definition pep440_cmp :: "pep440_version \<Rightarrow> pep440_version \<Rightarrow> ordering" where
  "pep440_cmp a b = cmp (pep440_key a) (pep440_key b)"

definition pep440_compare :: "string \<Rightarrow> string \<Rightarrow> (version_error, ordering) result" where
  "pep440_compare = compare_parsed pep440_parse pep440_cmp"

section \<open>The comparator contract\<close>

interpretation pep440_cmp: comparator pep440_cmp
  unfolding pep440_cmp_def [abs_def] by (rule comparator_key_cmp)

interpretation pep440: version_compare pep440_compare
  unfolding pep440_compare_def
  by (rule version_compare_parsed) (rule pep440_cmp.comparator_axioms)

section \<open>Trimming zeros is padding with zeros\<close>

lemma get_or_trim_zeros: "get_or 0 (trim_zeros rel) i = get_or 0 rel i"
proof (induction rel rule: trim_zeros.induct)
  case (1 rel)
  show ?case
  proof (cases "1 < length rel \<and> last rel = 0")
    case True
    then have "get_or 0 (butlast rel) i = get_or 0 rel i"
      by (cases rel rule: rev_cases) (auto simp: get_or_def nth_append)
    with 1 True show ?thesis by (simp add: trim_zeros.simps [of rel])
  qed (auto simp: trim_zeros.simps [of rel])
qed

lemma trim_zeros_normal: "1 < length (trim_zeros rel) \<Longrightarrow> last (trim_zeros rel) \<noteq> 0"
proof (induction rel rule: trim_zeros.induct)
  case (1 rel)
  then show ?case
    by (cases "1 < length rel \<and> last rel = 0") (auto simp: trim_zeros.simps [of rel])
qed

lemma trim_zeros_Nil_iff: "trim_zeros rel = [] \<longleftrightarrow> rel = []"
proof (induction rel rule: trim_zeros.induct)
  case (1 rel)
  show ?case
  proof (cases "1 < length rel \<and> last rel = 0")
    case True
    then have "butlast rel \<noteq> []" "rel \<noteq> []"
      by (auto simp flip: length_greater_0_conv)
    with 1 True show ?thesis by (simp add: trim_zeros.simps [of rel])
  qed (auto simp: trim_zeros.simps [of rel])
qed

lemma cmp_padded_pointwise:
  assumes "comparator c" "\<And>i. get_or d xs i = get_or d xs' i" "\<And>i. get_or d ys i = get_or d ys' i"
  shows "cmp_padded d c xs ys = cmp_padded d c xs' ys'"
proof -
  define n where "n = length xs + length ys + length xs' + length ys'"
  have "length xs \<le> n" "length ys \<le> n" "length xs' \<le> n" "length ys' \<le> n"
    by (auto simp: n_def)
  then show ?thesis
    using assms by (simp add: cmp_padded_upto)
qed

lemma cmp_padded_zero_Nil:
  "ys \<noteq> [] \<Longrightarrow> last ys \<noteq> 0 \<Longrightarrow> cmp_padded 0 cmp [] (ys :: nat list) = Less"
proof (induction ys)
  case (Cons y ys)
  have "cmp_padded 0 cmp [] (y # ys) = then_cmp (cmp 0 y) (cmp_padded 0 cmp [] ys)"
    by (subst cmp_padded_step [OF comparator_cmp]) (simp add: get_or_def)
  moreover have "cmp 0 y = (if y = 0 then Equal else Less)"
    by simp
  ultimately show ?case
    using Cons by (auto split: if_splits)
qed simp

lemma cmp_padded_Cons:
  "comparator c \<Longrightarrow> cmp_padded d c (x # xs) (y # ys) = then_cmp (c x y) (cmp_padded d c xs ys)"
  by (subst cmp_padded_step) (simp_all add: get_or_def)

lemma cmp_padded_normal:
  fixes xs ys :: "nat list"
  assumes "xs = [] \<or> last xs \<noteq> 0" "ys = [] \<or> last ys \<noteq> 0"
  shows "cmp xs ys = cmp_padded 0 cmp xs ys"
  using assms
proof (induction xs ys rule: list_induct2')
  case (2 x xs)
  then have "cmp_padded 0 cmp [] (x # xs) = Less"
    by (intro cmp_padded_zero_Nil) auto
  then have "cmp_padded 0 cmp (x # xs) [] = Greater"
    using comparator.flip [OF comparator_padded [OF comparator_cmp], of 0 "x # xs" "[]"] by simp
  then show ?case by simp
next
  case (3 y ys)
  then have "cmp_padded 0 cmp [] (y # ys) = Less"
    by (intro cmp_padded_zero_Nil) auto
  then show ?case by simp
next
  case (4 x xs y ys)
  then have "cmp xs ys = cmp_padded 0 cmp xs ys"
    by (auto split: if_splits)
  then show ?case by (simp add: cmp_Cons cmp_padded_Cons [OF comparator_cmp])
qed simp

lemma cmp_trim_zeros:
  assumes "xs \<noteq> []" "ys \<noteq> []"
  shows "cmp (trim_zeros xs) (trim_zeros ys) = cmp_padded 0 cmp xs ys"
proof -
  from assms obtain x xs' y ys' where
    t: "trim_zeros xs = x # xs'" "trim_zeros ys = y # ys'"
    by (metis trim_zeros_Nil_iff list.exhaust)
  with trim_zeros_normal [of xs] trim_zeros_normal [of ys]
  have "cmp xs' ys' = cmp_padded 0 cmp xs' ys'"
    by (intro cmp_padded_normal) (fastforce split: if_splits)+
  then have "cmp (trim_zeros xs) (trim_zeros ys) = cmp_padded 0 cmp (trim_zeros xs) (trim_zeros ys)"
    by (simp add: t cmp_Cons cmp_padded_Cons [OF comparator_cmp])
  also have "\<dots> = cmp_padded 0 cmp xs ys"
    by (rule cmp_padded_pointwise [OF comparator_cmp]) (simp_all add: get_or_trim_zeros)
  finally show ?thesis .
qed

lemma pep440_release_nonempty: "pep440_release s = Inr (ns, r) \<Longrightarrow> ns \<noteq> []"
  by (subst (asm) pep440_release.simps)
    (auto simp: Let_def split: if_splits option.splits list.splits sum.splits)

lemma pep440_parse_release: "pep440_parse s = Inr v \<Longrightarrow> release v \<noteq> []"
  by (auto simp: pep440_parse_def Let_def pep440_release_nonempty
      split: if_splits sum.splits prod.splits)

section \<open>The order of the PEP\<close>

text \<open>
  The reference order, from the PEP and not from the source's sort key: within one release the
  phases are ordered \<open>.devN\<close>, \<open>aN\<close>, \<open>bN\<close>, \<open>rcN\<close>, no suffix, \<open>.postN\<close>; within a pre-release
  \<open>.devN\<close>, no suffix, \<open>.postN\<close>; within a post-release \<open>.devN\<close>, no suffix. So a version is the
  list of its suffixes, closed by \<open>Final\<close>, and the lists are compared lexicographically.
\<close>

datatype suffix = Dev nat | Pre pre_kind nat | Final | Post nat

fun suffix_rank :: "suffix \<Rightarrow> nat \<times> nat" where
  "suffix_rank (Dev n) = (0, n)"
| "suffix_rank (Pre Alpha n) = (1, n)"
| "suffix_rank (Pre Beta n) = (2, n)"
| "suffix_rank (Pre Rc n) = (3, n)"
| "suffix_rank Final = (4, 0)"
| "suffix_rank (Post n) = (5, n)"

definition suffixes :: "pep440_version \<Rightarrow> suffix list" where
  "suffixes v = (case pre v of None \<Rightarrow> [] | Some (k, n) \<Rightarrow> [Pre k n]) @
     (case post v of None \<Rightarrow> [] | Some n \<Rightarrow> [Post n]) @ (case dev v of None \<Rightarrow> [] | Some n \<Rightarrow> [Dev n]) @ [Final]"

definition pep440_order :: "pep440_version \<Rightarrow> pep440_version \<Rightarrow> ordering" where
  "pep440_order a b =
    then_cmp (cmp (epoch a) (epoch b))
    (then_cmp (cmp_padded 0 cmp (release a) (release b))
      (cmp (map suffix_rank (suffixes a)) (map suffix_rank (suffixes b))))"

text \<open>The presence flags of the source's key put the suffixes in this order.\<close>

lemma cmp_nat_simps: "cmp (x :: 'a :: linorder) x = Equal" "x < y \<Longrightarrow> cmp x y = Less" "y < x \<Longrightarrow> cmp x y = Greater"
  by (auto simp: cmp_def)

lemma then_cmp_Equal: "then_cmp r Equal = r"
  by (cases r) simp_all

lemma suffix_rank_Pre: "suffix_rank (Pre k n) = (Suc (pre_kind_u8 k), n)" "pre_kind_u8 k \<le> 2"
  by (cases k; simp)+

lemma cmp_Suc: "cmp (Suc m) (Suc n) = cmp m n"
  by (simp add: cmp_def)

lemma cmp_pre_rank:
  "cmp 0 (Suc m) = Less" "cmp (Suc m) 0 = Greater" "m \<le> 2 \<Longrightarrow> cmp (Suc m) 4 = Less" "m \<le> 2 \<Longrightarrow> cmp 4 (Suc m) = Greater"
  "m \<le> 2 \<Longrightarrow> cmp (Suc m) 5 = Less" "m \<le> 2 \<Longrightarrow> cmp 5 (Suc m) = Greater" for m :: nat
  by (simp_all add: cmp_def)

lemma suffix_keys:
  "cmp (pre_key a, post_key a, dev_key a) (pre_key b, post_key b, dev_key b) =
    cmp (map suffix_rank (suffixes a)) (map suffix_rank (suffixes b))"
  using suffix_rank_Pre(2)
  by (cases "pre a"; cases "post a"; cases "dev a"; cases "pre b"; cases "post b"; cases "dev b")
    (simp_all add: pre_key_def post_key_def dev_key_def suffixes_def suffix_rank_Pre(1) cmp_Cons cmp_Pair cmp_nat_simps
      cmp_Suc cmp_pre_rank then_cmp_Equal split: prod.split)

lemma pep440_cmp_order:
  "release a \<noteq> [] \<Longrightarrow> release b \<noteq> [] \<Longrightarrow> pep440_cmp a b = pep440_order a b"
  by (simp add: pep440_cmp_def pep440_key_def pep440_order_def cmp_Pair [of "epoch a"]
      cmp_Pair [of "trim_zeros (release a)"] cmp_trim_zeros suffix_keys)

section \<open>Properties\<close>

text \<open>
  C15. Two Python versions that parse are ordered as PEP 440 says: by epoch, then by
  release with the shorter one padded with zeros (so 1.0 and 1.0.0 are equal), then by
  the suffixes, in the PEP's order dev, alpha, beta, rc, none, post. The code reaches this
  through a sort key of presence flags whose release has its trailing zeros trimmed.
\<close>

theorem pep440_compare_order:
  assumes "pep440_parse a = Inr va" "pep440_parse b = Inr vb"
  shows "pep440_compare a b = Inr (pep440_order va vb)"
  using assms pep440_parse_release [of a va] pep440_parse_release [of b vb]
  by (simp add: pep440_compare_def compare_parsed_def pep440_cmp_order)

theorem pep440_compare_order_witness:
  "pep440_parse ''1!2.0.0rc1.dev3'' =
     Inr \<lparr>epoch = 1, release = [2, 0, 0], pre = Some (Rc, 1), post = None, dev = Some 3\<rparr> \<and>
   pep440_parse ''v1!2.post4+local'' =
     Inr \<lparr>epoch = 1, release = [2], pre = None, post = Some 4, dev = None\<rparr> \<and>
   pep440_compare ''1!2.0.0rc1.dev3'' ''v1!2.post4+local'' = Inr (pep440_order
     \<lparr>epoch = 1, release = [2, 0, 0], pre = Some (Rc, 1), post = None, dev = Some 3\<rparr>
     \<lparr>epoch = 1, release = [2], pre = None, post = Some 4, dev = None\<rparr>)"
proof (intro conjI)
  show a: "pep440_parse ''1!2.0.0rc1.dev3'' =
     Inr \<lparr>epoch = 1, release = [2, 0, 0], pre = Some (Rc, 1), post = None, dev = Some 3\<rparr>"
    by code_simp
  show b: "pep440_parse ''v1!2.post4+local'' =
     Inr \<lparr>epoch = 1, release = [2], pre = None, post = Some 4, dev = None\<rparr>"
    by code_simp
  show "pep440_compare ''1!2.0.0rc1.dev3'' ''v1!2.post4+local'' = Inr (pep440_order
     \<lparr>epoch = 1, release = [2, 0, 0], pre = Some (Rc, 1), post = None, dev = Some 3\<rparr>
     \<lparr>epoch = 1, release = [2], pre = None, post = Some 4, dev = None\<rparr>)"
    by (rule pep440_compare_order [OF a b])
qed

end
