(* ===== verification/Json.thy ===== *)
theory Json
  imports Prelude
begin

text \<open>
  The values of \<open>serde_json::Value\<close> and the accessors the sources call on them.
  A number that is not an integer is kept by its text (\<open>Float\<close>).
  Objects are association lists; \<open>get\<close> returns the first binding. Parsing bytes
  into values is done by the crate and is a parameter of the definitions that
  need it.
\<close>

datatype json =
    Null
  | Bool bool
  | Number int
  | Float string
  | String string
  | Array "json list"
  | Object "(string \<times> json) list"

definition json_get :: "string \<Rightarrow> json \<Rightarrow> json option" where
  "json_get k v = (case v of Object kvs \<Rightarrow> map_of kvs k | _ \<Rightarrow> None)"

definition as_str :: "json \<Rightarrow> string option" where
  "as_str v = (case v of String s \<Rightarrow> Some s | _ \<Rightarrow> None)"

definition as_array :: "json \<Rightarrow> json list option" where
  "as_array v = (case v of Array vs \<Rightarrow> Some vs | _ \<Rightarrow> None)"

definition as_u64 :: "json \<Rightarrow> nat option" where
  "as_u64 v = (case v of Number n \<Rightarrow> if 0 \<le> n \<and> n < 2 ^ 64 then Some (nat n) else None
     | _ \<Rightarrow> None)"

text \<open>\<open>filter_map\<close> of Rust iterators.\<close>

abbreviation filter_map :: "('a \<Rightarrow> 'b option) \<Rightarrow> 'a list \<Rightarrow> 'b list" where
  "filter_map \<equiv> List.map_filter"

end
