(* ===== verification/Vuln_Match.thy ===== *)
theory Vuln_Match
  imports Version_Apk Version_Deb Version_Rpm Version_Pep440 Json
begin

text \<open>
  Matching installed packages against the vulnerability database:
  \<open>matcher/mod.rs\<close>, \<open>matcher/go.rs\<close>, \<open>matcher/semver_ecosystem.rs\<close> and
  \<open>vulndb/specton.rs\<close>. The crate \<open>semver\<close> is a parameter: its parser and its
  \<open>Ord\<close> instance, which its documentation promises to be a total order
  (\<open>comparator\<close>). The database is the pair of tables the query joins; whether a
  statement succeeds is a parameter.
\<close>

section \<open>Comparators by ecosystem\<close>

record 'v semver_crate =
  semver_parse :: "string \<Rightarrow> 'v option"
  semver_ord :: "'v \<Rightarrow> 'v \<Rightarrow> ordering"

definition semver_result :: "'v semver_crate \<Rightarrow> string \<Rightarrow> (version_error, 'v) result" where
  "semver_result sv s = (case semver_parse sv s of None \<Rightarrow> Inl Invalid | Some v \<Rightarrow> Inr v)"

text \<open>\<open>trim_start_matches('v')\<close> removes every leading \<open>v\<close>.\<close>

definition semver_compare ::
  "'v semver_crate \<Rightarrow> string \<Rightarrow> string \<Rightarrow> (version_error, ordering) result" where
  "semver_compare sv =
     compare_parsed (\<lambda>a. semver_result sv (dropWhile (\<lambda>c. c = CHR ''v'') a)) (semver_ord sv)"

definition pad_to_three :: "string \<Rightarrow> string" where
  "pad_to_three s =
    (let core = takeWhile (\<lambda>c. c \<noteq> CHR ''-'' \<and> c \<noteq> CHR ''+'') s;
         rest = dropWhile (\<lambda>c. c \<noteq> CHR ''-'' \<and> c \<noteq> CHR ''+'') s;
         dots = length (filter (\<lambda>c. c = CHR ''.'') core) in
     if dots = 0 then core @ ''.0.0'' @ rest
     else if dots = 1 then core @ ''.0'' @ rest
     else s)"

definition go_parse :: "'v semver_crate \<Rightarrow> string \<Rightarrow> (version_error, 'v) result" where
  "go_parse sv s0 =
    (let s1 = trim s0 in
     if s1 = [] then Inl Invalid
     else
       let s2 = strip_prefix_or ''v'' s1;
           s3 = (case strip_suffix ''+incompatible'' s2 of Some x \<Rightarrow> x | None \<Rightarrow> s2) in
       semver_result sv (pad_to_three s3))"

definition go_compare ::
  "'v semver_crate \<Rightarrow> string \<Rightarrow> string \<Rightarrow> (version_error, ordering) result" where
  "go_compare sv = compare_parsed (go_parse sv) (semver_ord sv)"

type_synonym version_cmp = "string \<Rightarrow> string \<Rightarrow> (version_error, ordering) result"

definition for_ecosystem :: "'v semver_crate \<Rightarrow> string \<Rightarrow> version_cmp option" where
  "for_ecosystem sv eco =
    (if eco = ''npm'' \<or> eco = ''cargo'' then Some (semver_compare sv)
     else if eco = ''deb'' then Some deb_compare
     else if eco = ''rpm'' then Some rpm_compare
     else if eco = ''apk'' then Some apk_compare
     else if eco = ''pypi'' then Some pep440_compare
     else if eco = ''go'' then Some (go_compare sv)
     else None)"

section \<open>Findings\<close>

datatype severity = Critical | High | Medium | Low | Unknown

record package =
  pkg_name :: string
  pkg_version :: string
  pkg_ecosystem :: string
  purl :: string
  pkg_layer_digest :: "string option"

text \<open>CVSS scores are only passed on; \<open>'f\<close> is the type of \<open>f64\<close>.\<close>

record 'f query_row =
  row_id :: string
  row_aliases :: "string list"
  row_summary :: "string option"
  row_description :: "string option"
  row_severity :: "string option"
  row_cvss_score :: "'f option"
  row_refs :: json
  introduced :: "string option"
  fixed :: "string option"
  last_affected :: "string option"

record 'f vulnerability =
  vuln_id :: string
  aliases :: "string list"
  vuln_package :: string
  ecosystem :: string
  installed_version :: string
  fixed_version :: "string option"
  severity :: severity
  cvss_score :: "'f option"
  summary :: "string option"
  description :: "string option"
  layer_digest :: "string option"
  references :: "string list"
  suppressed :: bool

definition in_range :: "version_cmp \<Rightarrow> string \<Rightarrow> 'f query_row \<Rightarrow> bool" where
  "in_range c installed row =
    ((case introduced row of
        None \<Rightarrow> True
      | Some intro \<Rightarrow> intro = ''0'' \<or>
          (case c installed intro of Inl _ \<Rightarrow> False | Inr r \<Rightarrow> r \<noteq> Less)) \<and>
     (case fixed row of
        None \<Rightarrow> True
      | Some f \<Rightarrow> (case c installed f of Inl _ \<Rightarrow> False | Inr r \<Rightarrow> r = Less)) \<and>
     (case last_affected row of
        None \<Rightarrow> True
      | Some l \<Rightarrow> (case c installed l of Inl _ \<Rightarrow> False | Inr r \<Rightarrow> r \<noteq> Greater)))"

definition parse_severity :: "string option \<Rightarrow> severity" where
  "parse_severity s =
    (if s = Some ''CRITICAL'' then Critical
     else if s = Some ''HIGH'' then High
     else if s = Some ''MEDIUM'' then Medium
     else if s = Some ''LOW'' then Low
     else Unknown)"

definition extract_refs :: "json \<Rightarrow> string list" where
  "extract_refs v = (case v of Array items \<Rightarrow> filter_map as_str items | _ \<Rightarrow> [])"

definition mk_vulnerability :: "package \<Rightarrow> 'f query_row \<Rightarrow> 'f vulnerability" where
  "mk_vulnerability pkg row =
    \<lparr>vuln_id = row_id row, aliases = row_aliases row, vuln_package = pkg_name pkg,
     ecosystem = pkg_ecosystem pkg, installed_version = pkg_version pkg,
     fixed_version = fixed row, severity = parse_severity (row_severity row),
     cvss_score = row_cvss_score row, summary = row_summary row,
     description = row_description row, layer_digest = pkg_layer_digest pkg,
     references = extract_refs (row_refs row), suppressed = False\<rparr>"

text \<open>The inner loop over the fetched rows with its \<open>seen\<close> set.\<close>

fun query_rows ::
  "version_cmp \<Rightarrow> package \<Rightarrow> string set \<Rightarrow> 'f query_row list \<Rightarrow> 'f vulnerability list" where
  "query_rows c pkg seen [] = []"
| "query_rows c pkg seen (row # rows) =
    (if \<not> in_range c (pkg_version pkg) row then query_rows c pkg seen rows
     else if row_id row \<in> seen then query_rows c pkg seen rows
     else mk_vulnerability pkg row # query_rows c pkg (insert (row_id row) seen) rows)"

text \<open>
  The tables: \<open>affected_ranges\<close> rows carry the ecosystem, the package, the
  vulnerability id and the bounds; \<open>vulnerabilities\<close> is keyed by id. \<open>select_ranges\<close>
  is the \<open>JOIN ... WHERE r.ecosystem = $1 AND r.package = $2\<close>.
\<close>

record affected_range =
  ar_vuln_id :: string
  ar_ecosystem :: string
  ar_package :: string
  ar_introduced :: "string option"
  ar_fixed :: "string option"
  ar_last_affected :: "string option"

record 'f vuln_row =
  vr_aliases :: "string list"
  vr_summary :: "string option"
  vr_description :: "string option"
  vr_severity :: "string option"
  vr_cvss_score :: "'f option"
  vr_refs :: json

record 'f vuln_tables =
  affected_ranges :: "affected_range list"
  vulnerabilities :: "string \<rightharpoonup> 'f vuln_row"
  statement_ok :: "string \<Rightarrow> string \<Rightarrow> bool"

definition join_row :: "affected_range \<Rightarrow> 'f vuln_row \<Rightarrow> 'f query_row" where
  "join_row r v =
    \<lparr>row_id = ar_vuln_id r, row_aliases = vr_aliases v, row_summary = vr_summary v,
     row_description = vr_description v, row_severity = vr_severity v,
     row_cvss_score = vr_cvss_score v, row_refs = vr_refs v, introduced = ar_introduced r,
     fixed = ar_fixed r, last_affected = ar_last_affected r\<rparr>"

definition select_ranges :: "'f vuln_tables \<Rightarrow> string \<Rightarrow> string \<Rightarrow> 'f query_row list" where
  "select_ranges db eco pkg =
    filter_map (\<lambda>r. map_option (join_row r) (vulnerabilities db (ar_vuln_id r)))
      (filter (\<lambda>r. ar_ecosystem r = eco \<and> ar_package r = pkg) (affected_ranges db))"

datatype scan_error = DbError

fun vuln_query ::
  "'v semver_crate \<Rightarrow> 'f vuln_tables \<Rightarrow> package list \<Rightarrow>
   (scan_error, 'f vulnerability list) result" where
  "vuln_query sv db [] = Inr []"
| "vuln_query sv db (pkg # pkgs) =
    (case for_ecosystem sv (pkg_ecosystem pkg) of
       None \<Rightarrow> vuln_query sv db pkgs
     | Some c \<Rightarrow>
         if \<not> statement_ok db (pkg_ecosystem pkg) (pkg_name pkg) then Inl DbError
         else (case vuln_query sv db pkgs of
             Inl e \<Rightarrow> Inl e
           | Inr out \<Rightarrow> Inr (query_rows c pkg {}
               (select_ranges db (pkg_ecosystem pkg) (pkg_name pkg)) @ out)))"

section \<open>Ranges under a lawful comparator\<close>

lemma in_range_iff:
  "in_range c v row \<longleftrightarrow>
    (\<forall>i. introduced row = Some i \<longrightarrow> i = ''0'' \<or> (\<exists>t. c v i = Inr t \<and> t \<noteq> Less)) \<and>
    (\<forall>f. fixed row = Some f \<longrightarrow> c v f = Inr Less) \<and>
    (\<forall>l. last_affected row = Some l \<longrightarrow> (\<exists>t. c v l = Inr t \<and> t \<noteq> Greater))"
  by (simp add: in_range_def split: option.split sum.split)

context version_compare
begin

lemma strict_chain:
  assumes "compare a b = Inr r" "compare b d = Inr s" "r \<noteq> Greater" "s \<noteq> Greater"
  shows "\<exists>t. compare a d = Inr t \<and> t \<noteq> Greater \<and> (r = Less \<or> s = Less \<longrightarrow> t = Less)"
proof -
  from chain [OF assms(1,2)] assms(3,4) obtain t where t: "compare a d = Inr t" "t \<noteq> Greater"
    by blast
  have "t = Less" if strict: "r = Less \<or> s = Less"
  proof (rule ccontr)
    assume "t \<noteq> Less"
    with t have eq: "compare a d = Inr Equal" by (cases t) auto
    then have da: "compare d a = Inr Equal"
      using flipped by fastforce
    from chain [OF da assms(1)] assms(3) obtain u where u: "compare d b = Inr u" "u \<noteq> Greater"
      by blast
    from chain [OF assms(2) da] assms(4) obtain w where w: "compare b a = Inr w" "w \<noteq> Greater"
      by blast
    from flipped [OF u(1)] flipped [OF w(1)] assms(1,2) u(2) w(2) strict show False
      by auto
  qed
  with t show ?thesis by blast
qed

text \<open>Two versions can be compared as soon as each can be compared with itself.\<close>

lemma comparable: "(\<exists>r. compare a b = Inr r) \<longleftrightarrow> compare a a = Inr Equal \<and> compare b b = Inr Equal"
  using self [of a b] self [of b a] flipped [of a b] total [of a Equal b Equal] by blast

text \<open>The affected versions of a range form an interval.\<close>

lemma convex:
  assumes a: "in_range compare a row" and d: "in_range compare d row"
    and ab: "compare a b = Inr r" "r \<noteq> Greater" and bd: "compare b d = Inr s" "s \<noteq> Greater"
  shows "in_range compare b row"
proof -
  have ba: "compare b a = Inr (reverse_ord r)"
    by (rule flipped [OF ab(1)])
  have intro: "\<exists>t. compare b i = Inr t \<and> t \<noteq> Less"
    if i: "compare a i = Inr u" "u \<noteq> Less" for i u
  proof -
    have "compare i a = Inr (reverse_ord u)" "reverse_ord u \<noteq> Greater"
      using flipped [OF i(1)] i(2) by auto
    then obtain t where "compare i b = Inr t" "t \<noteq> Greater"
      using strict_chain ab by blast
    then show ?thesis
      using flipped [of i b t] by auto
  qed
  have fixed: "compare b f = Inr Less" if f: "compare d f = Inr Less" for f
    using strict_chain [OF bd(1) f bd(2)] by auto
  have last: "\<exists>t. compare b l = Inr t \<and> t \<noteq> Greater"
    if l: "compare d l = Inr u" "u \<noteq> Greater" for l u
    using strict_chain [OF bd(1) l(1) bd(2) l(2)] by blast
  have "i = ''0'' \<or> (\<exists>t. compare b i = Inr t \<and> t \<noteq> Less)" if "introduced row = Some i" for i
    using a that intro by (auto simp: in_range_iff)
  moreover have "compare b f = Inr Less" if "fixed row = Some f" for f
    using d that fixed by (auto simp: in_range_iff)
  moreover have "\<exists>t. compare b l = Inr t \<and> t \<noteq> Greater" if "last_affected row = Some l" for l
    using d that last by (auto simp: in_range_iff)
  ultimately show ?thesis
    by (simp add: in_range_iff)
qed

text \<open>No version at or above the fixed version of a range is reported for it.\<close>

lemma fixed_upgrade:
  assumes "fixed row = Some f" "compare f v = Inr r" "r \<noteq> Greater"
    and "compare v w = Inr s" "s \<noteq> Greater"
  shows "\<not> in_range compare w row"
proof -
  from strict_chain [OF assms(2,4,3,5)] obtain t where "compare f w = Inr t" "t \<noteq> Greater"
    by blast
  then have "compare w f = Inr (reverse_ord t)" "reverse_ord t \<noteq> Less"
    using flipped [of f w t] by auto
  then show ?thesis
    using assms(1) by (auto simp: in_range_def)
qed

end

lemma semver_version_compare:
  "comparator (semver_ord sv) \<Longrightarrow> version_compare (semver_compare sv)"
  unfolding semver_compare_def by (rule version_compare_parsed)

lemma go_version_compare:
  "comparator (semver_ord sv) \<Longrightarrow> version_compare (go_compare sv)"
  unfolding go_compare_def by (rule version_compare_parsed)

lemma ecosystem_version_compare:
  assumes "comparator (semver_ord sv)" "for_ecosystem sv eco = Some c" "eco \<noteq> ''rpm''"
  shows "version_compare c"
  using assms
  by (auto simp: for_ecosystem_def semver_version_compare go_version_compare
      deb.version_compare_axioms apk.version_compare_axioms pep440.version_compare_axioms
      split: if_splits)

section \<open>The query loop\<close>

lemma mk_vulnerability_id [simp]: "vuln_id (mk_vulnerability pkg row) = row_id row"
  by (simp add: mk_vulnerability_def)

lemma query_rows_unseen: "v \<in> set (query_rows c pkg seen rows) \<Longrightarrow> vuln_id v \<notin> seen"
  by (induction c pkg seen rows rule: query_rows.induct) (auto split: if_splits)

lemma query_rows_distinct: "distinct (map vuln_id (query_rows c pkg seen rows))"
proof (induction c pkg seen rows rule: query_rows.induct)
  case (2 c pkg seen row rows)
  have "row_id row \<notin> vuln_id ` set (query_rows c pkg (insert (row_id row) seen) rows)"
    using query_rows_unseen [of _ c pkg "insert (row_id row) seen" rows] by fastforce
  with 2 show ?case by simp
qed simp

lemma query_rows_sound:
  "v \<in> set (query_rows c pkg seen rows) \<Longrightarrow>
    \<exists>row \<in> set rows. in_range c (pkg_version pkg) row \<and> v = mk_vulnerability pkg row"
  by (induction c pkg seen rows rule: query_rows.induct) (auto split: if_splits)

lemma query_rows_complete:
  "row \<in> set rows \<Longrightarrow> in_range c (pkg_version pkg) row \<Longrightarrow> row_id row \<notin> seen \<Longrightarrow>
    \<exists>v \<in> set (query_rows c pkg seen rows). vuln_id v = row_id row"
proof (induction c pkg seen rows rule: query_rows.induct)
  case (2 c pkg seen r rows)
  show ?case
  proof (cases "in_range c (pkg_version pkg) r \<and> row_id r \<notin> seen")
    case True
    show ?thesis
    proof (cases "row_id row = row_id r")
      case True
      then show ?thesis
        using \<open>in_range c (pkg_version pkg) r \<and> row_id r \<notin> seen\<close> by auto
    next
      case False
      then have "row \<in> set rows" "row_id row \<notin> insert (row_id r) seen"
        using 2 by auto
      then show ?thesis
        using 2 True by auto
    qed
  next
    case False
    then have "row \<in> set rows"
      using 2 by auto
    then show ?thesis
      using 2 False by (auto split: if_splits)
  qed
qed simp

text \<open>What is reported for one package.\<close>

definition findings_of :: "'v semver_crate \<Rightarrow> 'f vuln_tables \<Rightarrow> package \<Rightarrow> 'f vulnerability list" where
  "findings_of sv db pkg =
    (case for_ecosystem sv (pkg_ecosystem pkg) of
       None \<Rightarrow> []
     | Some c \<Rightarrow> query_rows c pkg {} (select_ranges db (pkg_ecosystem pkg) (pkg_name pkg)))"

lemma vuln_query_ok:
  "\<forall>pkg \<in> set pkgs. statement_ok db (pkg_ecosystem pkg) (pkg_name pkg) \<Longrightarrow>
    vuln_query sv db pkgs = Inr (concat (map (findings_of sv db) pkgs))"
  by (induction pkgs) (auto simp: findings_of_def split: option.split)

lemma findings_of_ids:
  "set (map vuln_id (findings_of sv db pkg)) =
    {row_id row | row c. for_ecosystem sv (pkg_ecosystem pkg) = Some c
       \<and> row \<in> set (select_ranges db (pkg_ecosystem pkg) (pkg_name pkg))
       \<and> in_range c (pkg_version pkg) row}"
proof (cases "for_ecosystem sv (pkg_ecosystem pkg)")
  case (Some c)
  let ?rows = "select_ranges db (pkg_ecosystem pkg) (pkg_name pkg)"
  have "vuln_id ` set (query_rows c pkg {} ?rows) =
      {row_id row | row. row \<in> set ?rows \<and> in_range c (pkg_version pkg) row}"
    (is "?ids = ?affected")
  proof (rule subset_antisym)
    show "?ids \<subseteq> ?affected"
      by (auto dest!: query_rows_sound)
    show "?affected \<subseteq> ?ids"
      using query_rows_complete [of _ ?rows c pkg "{}"] by (auto simp: image_iff) metis
  qed
  with Some show ?thesis by (simp add: findings_of_def)
qed (simp add: findings_of_def)

section \<open>Properties\<close>

text \<open>
  C1. For every ecosystem but rpm the comparator the scanner picks is a total
  preorder on the versions it accepts: two versions can be compared exactly when
  each equals itself, swapping the arguments reverses every outcome, and two
  comparisons in ascending order chain, strictly if one of them is strict. For npm,
  cargo and go this rests on the documented total order of the semver crate.
\<close>

theorem ecosystem_preorder:
  assumes "comparator (semver_ord sv)" "for_ecosystem sv eco = Some c" "eco \<noteq> ''rpm''"
  shows "((\<exists>r. c x y = Inr r) \<longleftrightarrow> c x x = Inr Equal \<and> c y y = Inr Equal) \<and>
    (\<forall>r. c x y = Inr r \<longrightarrow> c y x = Inr (reverse_ord r)) \<and>
    (\<forall>r s. c x y = Inr r \<and> c y z = Inr s \<and> r \<noteq> Greater \<and> s \<noteq> Greater \<longrightarrow>
      (\<exists>t. c x z = Inr t \<and> t \<noteq> Greater \<and> (r = Less \<or> s = Less \<longrightarrow> t = Less)))"
proof -
  have c: "version_compare c"
    by (rule ecosystem_version_compare [OF assms])
  show ?thesis
    using version_compare.comparable [OF c, of x y] version_compare.flipped [OF c, of x y]
      version_compare.strict_chain [OF c, of x y _ z] by blast
qed

definition exact_semver :: "nat semver_crate" where
  "exact_semver = \<lparr>semver_parse = parse_uint 64, semver_ord = cmp\<rparr>"

theorem ecosystem_preorder_witness:
  "for_ecosystem exact_semver ''apk'' = Some apk_compare \<and>
   apk_compare ''1.2_rc1'' ''1.2.1'' = Inr Less \<and> apk_compare ''1.2'' ''1.2_rc1'' = Inr Greater \<and>
   \<not> (\<exists>r. apk_compare ''1.2'' ''x'' = Inr r)"
proof -
  have sv: "comparator (semver_ord exact_semver)"
    by (simp add: exact_semver_def comparator_cmp)
  have eco: "for_ecosystem exact_semver ''apk'' = Some apk_compare"
    by (simp add: for_ecosystem_def)
  have cmps: "apk_compare ''1.2_rc1'' ''1.2'' = Inr Less" "apk_compare ''1.2'' ''1.2.1'' = Inr Less"
    "apk_compare ''x'' ''x'' \<noteq> Inr Equal"
    by code_simp+
  show ?thesis
    using ecosystem_preorder [OF sv eco, of "''1.2_rc1''" "''1.2''" "''1.2.1''"]
      ecosystem_preorder [OF sv eco, of "''1.2''" "''x''"] eco cmps
    by auto
qed

text \<open>
  C2. For every ecosystem but rpm the versions reported for a range form an interval
  that ends below the fixed version: whatever lies between two reported versions is
  reported, and no version at or above the fixed version, nor any later one, is. For
  npm, cargo and go this rests on the documented total order of the semver crate.
\<close>

theorem affected_interval:
  assumes "comparator (semver_ord sv)" "for_ecosystem sv eco = Some c" "eco \<noteq> ''rpm''"
    and "c x y = Inr r" "r \<noteq> Greater" "c y z = Inr s" "s \<noteq> Greater"
  shows "(in_range c x row \<and> in_range c z row \<longrightarrow> in_range c y row) \<and>
    (fixed row = Some x \<longrightarrow> \<not> in_range c z row)"
proof -
  have c: "version_compare c"
    by (rule ecosystem_version_compare [OF assms(1-3)])
  show ?thesis
    using version_compare.convex [OF c _ _ assms(4-7)]
      version_compare.fixed_upgrade [OF c _ assms(4-7)] by blast
qed

definition demo_range :: "nat query_row" where
  "demo_range = \<lparr>row_id = ''CVE-2024-1'', row_aliases = [], row_summary = None,
     row_description = None, row_severity = Some ''HIGH'', row_cvss_score = None,
     row_refs = Null, introduced = Some ''0'', fixed = Some ''1.1.1-1'', last_affected = None\<rparr>"

theorem affected_interval_witness:
  "in_range deb_compare ''1.1.1~beta'' demo_range \<and> \<not> in_range deb_compare ''1.1.2'' demo_range"
proof -
  have sv: "comparator (semver_ord exact_semver)"
    by (simp add: exact_semver_def comparator_cmp)
  have eco: "for_ecosystem exact_semver ''deb'' = Some deb_compare"
    by (simp add: for_ecosystem_def)
  have "deb_compare ''1.1.1-1'' ''1.1.1-2'' = Inr Less" "deb_compare ''1.1.1-2'' ''1.1.2'' = Inr Less"
    "in_range deb_compare ''1.1.1~beta'' demo_range" "fixed demo_range = Some ''1.1.1-1''"
    by code_simp+
  then show ?thesis
    using affected_interval [OF sv eco, of "''1.1.1-1''" "''1.1.1-2''" Less "''1.1.2''" Less demo_range]
    by simp
qed

text \<open>
  C3. A query whose statements succeed reports, package by package and in order,
  every vulnerability with at least one range the installed version lies in, once
  each, and nothing else; packages of an unknown ecosystem contribute nothing.
\<close>

theorem vuln_query_exact:
  assumes "\<forall>pkg \<in> set pkgs. statement_ok db (pkg_ecosystem pkg) (pkg_name pkg)"
  shows "\<exists>fs. vuln_query sv db pkgs = Inr (concat (map fs pkgs)) \<and>
    (\<forall>pkg. distinct (map vuln_id (fs pkg)) \<and>
      set (map vuln_id (fs pkg)) =
        {row_id row | row c. for_ecosystem sv (pkg_ecosystem pkg) = Some c
           \<and> row \<in> set (select_ranges db (pkg_ecosystem pkg) (pkg_name pkg))
           \<and> in_range c (pkg_version pkg) row})"
proof (intro exI conjI allI)
  show "vuln_query sv db pkgs = Inr (concat (map (findings_of sv db) pkgs))"
    by (rule vuln_query_ok [OF assms])
  show "distinct (map vuln_id (findings_of sv db pkg))" for pkg
    by (simp add: findings_of_def query_rows_distinct split: option.split)
qed (rule findings_of_ids)

definition demo_tables :: "nat vuln_tables" where
  "demo_tables =
    \<lparr>affected_ranges = [\<lparr>ar_vuln_id = ''CVE-2024-1'', ar_ecosystem = ''deb'',
       ar_package = ''openssl'', ar_introduced = Some ''0'', ar_fixed = Some ''1.1.1-1'',
       ar_last_affected = None\<rparr>],
     vulnerabilities = [''CVE-2024-1'' \<mapsto> \<lparr>vr_aliases = [], vr_summary = None,
       vr_description = None, vr_severity = Some ''HIGH'', vr_cvss_score = None, vr_refs = Null\<rparr>],
     statement_ok = (\<lambda>_ _. True)\<rparr>"

definition demo_package :: package where
  "demo_package = \<lparr>pkg_name = ''openssl'', pkg_version = ''1.1.1~beta'', pkg_ecosystem = ''deb'',
     purl = ''pkg:deb/openssl'', pkg_layer_digest = None\<rparr>"

theorem vuln_query_exact_witness:
  "\<exists>vs. vuln_query exact_semver demo_tables [demo_package] = Inr vs
     \<and> map vuln_id vs = [''CVE-2024-1'']"
proof -
  have ok: "\<forall>pkg \<in> set [demo_package]. statement_ok demo_tables (pkg_ecosystem pkg) (pkg_name pkg)"
    by (simp add: demo_tables_def)
  obtain fs where q: "vuln_query exact_semver demo_tables [demo_package]
      = Inr (concat (map fs [demo_package]))"
    using vuln_query_exact [OF ok] by blast
  moreover have "case vuln_query exact_semver demo_tables [demo_package] of
      Inr vs \<Rightarrow> map vuln_id vs = [''CVE-2024-1''] | Inl _ \<Rightarrow> False"
    by code_simp
  ultimately show ?thesis
    by simp
qed

end
