(* ===== verification/Scan_Policy.thy ===== *)
theory Scan_Policy
  imports Vuln_Match
begin

text \<open>
  From findings to a verdict: the summary counters of \<open>model.rs\<close>, the rules of
  \<open>policy.rs\<close> and the suppressions of \<open>suppress.rs\<close>. Counters are \<open>u32\<close> and wrap
  as in a release build. The tables \<open>suppressions\<close> and \<open>audit_log\<close> are lists in
  insertion order; the fresh ids come from the caller, and a statement failure
  rolls the transaction back.
\<close>

fun rank :: "severity \<Rightarrow> nat" where
  "rank Critical = 4"
| "rank High = 3"
| "rank Medium = 2"
| "rank Low = 1"
| "rank Unknown = 0"

record scan_summary =
  critical :: nat
  high :: nat
  medium :: nat
  low :: nat
  unknown :: nat

definition empty_summary :: scan_summary where
  "empty_summary = \<lparr>critical = 0, high = 0, medium = 0, low = 0, unknown = 0\<rparr>"

definition inc_u32 :: "nat \<Rightarrow> nat" where
  "inc_u32 n = (n + 1) mod 2 ^ 32"

fun summary_add :: "scan_summary \<Rightarrow> severity \<Rightarrow> scan_summary" where
  "summary_add s Critical = s\<lparr>critical := inc_u32 (critical s)\<rparr>"
| "summary_add s High = s\<lparr>high := inc_u32 (high s)\<rparr>"
| "summary_add s Medium = s\<lparr>medium := inc_u32 (medium s)\<rparr>"
| "summary_add s Low = s\<lparr>low := inc_u32 (low s)\<rparr>"
| "summary_add s Unknown = s\<lparr>unknown := inc_u32 (unknown s)\<rparr>"

section \<open>Policy rules\<close>

record block_rules =
  rule_critical :: "string option"
  rule_high :: "string option"
  rule_medium :: "string option"
  rule_low :: "string option"

record policy = block_if :: block_rules

datatype policy_status = Pass | Fail

record policy_violation =
  viol_severity :: severity
  viol_count :: nat
  threshold :: string

text \<open>\<open>eval_reason\<close> is the number the message "n policy violation(s)" carries.\<close>

record policy_evaluation =
  status :: policy_status
  violations :: "policy_violation list"
  eval_reason :: "nat option"

text \<open>The operators, tried in the order of the source: \<open>>=\<close> and \<open><=\<close> before
  \<open>>\<close>, \<open><\<close> and \<open>=\<close>.\<close>

definition rule_ops :: "(string \<times> (nat \<Rightarrow> nat \<Rightarrow> bool)) list" where
  "rule_ops = [(''>='', \<lambda>n t. n \<ge> t), (''<='', \<lambda>n t. n \<le> t), (''>'', \<lambda>n t. n > t),
     (''<'', \<lambda>n t. n < t), (''='', \<lambda>n t. n = t)]"

definition rule_holds :: "nat \<Rightarrow> string \<Rightarrow> bool" where
  "rule_holds n rule =
    (case match_first rule_ops (trim rule) of
       None \<Rightarrow> False
     | Some (f, rest) \<Rightarrow>
         (case parse_u32 (trim rest) of None \<Rightarrow> False | Some t \<Rightarrow> f n t))"

definition check :: "severity \<Rightarrow> nat \<Rightarrow> string option \<Rightarrow> policy_violation list \<Rightarrow>
    policy_violation list" where
  "check sev n rule out =
    (case rule of
       None \<Rightarrow> out
     | Some r \<Rightarrow> if rule_holds n r
         then out @ [\<lparr>viol_severity = sev, viol_count = n, threshold = r\<rparr>] else out)"

definition summarize :: "'f vulnerability list \<Rightarrow> scan_summary" where
  "summarize vulns = foldl (\<lambda>s v. summary_add s (severity v)) empty_summary
     (filter (\<lambda>v. \<not> suppressed v) vulns)"

definition evaluate :: "policy \<Rightarrow> 'f vulnerability list \<Rightarrow> policy_evaluation" where
  "evaluate p vulns =
    (let s = summarize vulns; b = block_if p;
         v1 = check Critical (critical s) (rule_critical b) [];
         v2 = check High (high s) (rule_high b) v1;
         v3 = check Medium (medium s) (rule_medium b) v2;
         v4 = check Low (low s) (rule_low b) v3 in
     \<lparr>status = (if v4 = [] then Pass else Fail), violations = v4,
      eval_reason = (if v4 = [] then None else Some (length v4))\<rparr>)"

section \<open>Suppressions\<close>

record new_suppression =
  cve_id :: string
  scope_tenant :: "string option"
  scope_project :: "string option"
  scope_repository :: "string option"
  scope_package :: "string option"
  reason :: string
  expires_at :: "nat option"

record suppression_row =
  sup_id :: nat
  sup_input :: new_suppression
  created_by :: string
  created_at :: nat
  revoked_at :: "nat option"

record audit_entry =
  audit_actor :: string
  audit_action :: string
  audit_target :: nat

record suppression_db =
  suppressions :: "suppression_row list"
  audit_log :: "audit_entry list"

definition suppression_create ::
  "bool \<Rightarrow> nat \<Rightarrow> nat \<Rightarrow> string \<Rightarrow> new_suppression \<Rightarrow> suppression_db \<Rightarrow>
   suppression_db \<times> (scan_error, nat) result" where
  "suppression_create tx_ok now new_id actor input db =
    (if \<not> tx_ok then (db, Inl DbError)
     else (db\<lparr>suppressions := suppressions db @ [\<lparr>sup_id = new_id, sup_input = input,
               created_by = actor, created_at = now, revoked_at = None\<rparr>],
             audit_log := audit_log db @ [\<lparr>audit_actor = actor,
               audit_action = ''suppression.create'', audit_target = new_id\<rparr>]\<rparr>,
           Inr new_id))"

definition stamp_revoked :: "nat \<Rightarrow> nat \<Rightarrow> suppression_row \<Rightarrow> suppression_row" where
  "stamp_revoked now i row =
    (if sup_id row = i \<and> revoked_at row = None then row\<lparr>revoked_at := Some now\<rparr> else row)"

definition suppression_revoke ::
  "bool \<Rightarrow> nat \<Rightarrow> string \<Rightarrow> nat \<Rightarrow> suppression_db \<Rightarrow>
   suppression_db \<times> (scan_error, bool) result" where
  "suppression_revoke tx_ok now actor i db =
    (if \<not> tx_ok then (db, Inl DbError)
     else if \<not> list_ex (\<lambda>row. sup_id row = i \<and> revoked_at row = None) (suppressions db)
     then (db, Inr False)
     else (db\<lparr>suppressions := map (stamp_revoked now i) (suppressions db),
             audit_log := audit_log db @ [\<lparr>audit_actor = actor,
               audit_action = ''suppression.revoke'', audit_target = i\<rparr>]\<rparr>,
           Inr True))"

definition scope_ok :: "string option \<Rightarrow> string \<Rightarrow> bool" where
  "scope_ok scope x = (case scope of None \<Rightarrow> True | Some s \<Rightarrow> s = x)"

definition suppression_matches ::
  "nat \<Rightarrow> string \<Rightarrow> string \<Rightarrow> string \<Rightarrow> 'f vulnerability \<Rightarrow> suppression_row \<Rightarrow> bool" where
  "suppression_matches now tenant project repository v row =
    (let s = sup_input row in
     cve_id s = vuln_id v \<and> revoked_at row = None \<and>
     (case expires_at s of None \<Rightarrow> True | Some t \<Rightarrow> t > now) \<and>
     scope_ok (scope_tenant s) tenant \<and> scope_ok (scope_project s) project \<and>
     scope_ok (scope_repository s) repository \<and> scope_ok (scope_package s) (vuln_package v))"

definition suppression_apply ::
  "nat \<Rightarrow> string \<Rightarrow> string \<Rightarrow> string \<Rightarrow> suppression_db \<Rightarrow>
   'f vulnerability list \<Rightarrow> 'f vulnerability list" where
  "suppression_apply now tenant project repository db vulns =
    map (\<lambda>v. if list_ex (suppression_matches now tenant project repository v) (suppressions db)
      then v\<lparr>suppressed := True\<rparr> else v) vulns"

section \<open>Counting\<close>

definition count_open :: "severity \<Rightarrow> 'f vulnerability list \<Rightarrow> nat" where
  "count_open sev vulns = length (filter (\<lambda>v. \<not> suppressed v \<and> severity v = sev) vulns)"

fun summary_count :: "severity \<Rightarrow> scan_summary \<Rightarrow> nat" where
  "summary_count Critical s = critical s"
| "summary_count High s = high s"
| "summary_count Medium s = medium s"
| "summary_count Low s = low s"
| "summary_count Unknown s = unknown s"

lemma summary_count_add:
  "summary_count sev (summary_add s sev') =
    (if sev = sev' then inc_u32 (summary_count sev s) else summary_count sev s)"
  by (cases sev; cases sev') auto

lemma summary_count_foldl:
  "summary_count sev s < 2 ^ 32 \<Longrightarrow>
   summary_count sev (foldl (\<lambda>s v. summary_add s (severity v)) s vs) =
    (summary_count sev s + length (filter (\<lambda>v. severity v = sev) vs)) mod 2 ^ 32"
proof (induction vs arbitrary: s)
  case (Cons v vs)
  have "summary_count sev (summary_add s (severity v)) < 2 ^ 32"
    using Cons.prems by (simp add: summary_count_add inc_u32_def)
  from Cons.IH [OF this] show ?case
    by (simp add: summary_count_add inc_u32_def mod_simps)
qed simp

lemma summarize_count:
  "summary_count sev (summarize vulns) = count_open sev vulns mod 2 ^ 32"
proof -
  have "summary_count sev empty_summary = 0"
    by (cases sev) (simp_all add: empty_summary_def)
  then show ?thesis
    by (simp add: summarize_def summary_count_foldl count_open_def conj_commute)
qed

definition rule_for :: "policy \<Rightarrow> severity \<Rightarrow> string option" where
  "rule_for p sev = (case sev of Critical \<Rightarrow> rule_critical (block_if p)
     | High \<Rightarrow> rule_high (block_if p) | Medium \<Rightarrow> rule_medium (block_if p)
     | Low \<Rightarrow> rule_low (block_if p) | Unknown \<Rightarrow> None)"

lemma check_Nil_iff:
  "check sev n rule out = [] \<longleftrightarrow> out = [] \<and> (\<forall>r. rule = Some r \<longrightarrow> \<not> rule_holds n r)"
  by (auto simp: check_def split: option.split)

lemma ex_severity: "(\<exists>sev. P sev) \<longleftrightarrow> P Critical \<or> P High \<or> P Medium \<or> P Low \<or> P Unknown"
  by (metis severity.exhaust)

lemma evaluate_status:
  "status (evaluate p vulns) = Fail \<longleftrightarrow>
    (\<exists>sev r. rule_for p sev = Some r \<and> rule_holds (summary_count sev (summarize vulns)) r)"
  (is "?fail \<longleftrightarrow> ?rule")
proof -
  let ?hit = "\<lambda>sev. \<exists>r. rule_for p sev = Some r \<and> rule_holds (summary_count sev (summarize vulns)) r"
  have "?fail \<longleftrightarrow> ?hit Critical \<or> ?hit High \<or> ?hit Medium \<or> ?hit Low"
    by (simp add: evaluate_def Let_def check_Nil_iff rule_for_def)
  moreover have "\<not> ?hit Unknown"
    by (simp add: rule_for_def)
  moreover have "?rule \<longleftrightarrow> ?hit Critical \<or> ?hit High \<or> ?hit Medium \<or> ?hit Low \<or> ?hit Unknown"
    by (rule ex_severity)
  ultimately show ?thesis
    by blast
qed

lemma revoked_matches:
  "list_ex (suppression_matches now tenant project repository v) (map (stamp_revoked t i) rows) \<longleftrightarrow>
    list_ex (\<lambda>row. sup_id row \<noteq> i \<and> suppression_matches now tenant project repository v row) rows"
  by (induction rows) (auto simp: suppression_matches_def stamp_revoked_def Let_def)

section \<open>Properties\<close>

text \<open>
  C25. With fewer than 2^32 findings the policy verdict is Fail exactly when some
  severity has a rule that holds of the number of its findings that are not
  suppressed: suppressed findings never count.
\<close>

theorem policy_verdict:
  assumes "length vulns < 2 ^ 32"
  shows "status (evaluate p vulns) = Fail \<longleftrightarrow>
    (\<exists>sev r. rule_for p sev = Some r \<and> rule_holds (count_open sev vulns) r)"
proof -
  have "count_open sev vulns < 2 ^ 32" for sev
    unfolding count_open_def using length_filter_le assms by (rule le_less_trans)
  then show ?thesis
    by (simp add: evaluate_status summarize_count)
qed

definition demo_vuln :: "severity \<Rightarrow> bool \<Rightarrow> nat vulnerability" where
  "demo_vuln sev hidden = (mk_vulnerability demo_package demo_range)\<lparr>severity := sev, suppressed := hidden\<rparr>"

theorem policy_verdict_witness:
  "status (evaluate \<lparr>block_if = \<lparr>rule_critical = Some '' > 0'', rule_high = Some ''>=2'',
      rule_medium = None, rule_low = None\<rparr>\<rparr>
    [demo_vuln Critical True, demo_vuln High False]) = Pass"
  (is "status (evaluate ?p ?vs) = Pass")
proof -
  have "rule_holds 0 '' > 0'' = False" "rule_holds 1 ''>=2'' = False"
    by code_simp+
  moreover have "count_open Critical ?vs = 0" "count_open High ?vs = 1"
    by (simp_all add: count_open_def demo_vuln_def)
  ultimately have "\<not> (\<exists>sev r. rule_for ?p sev = Some r \<and> rule_holds (count_open sev ?vs) r)"
    by (auto simp: rule_for_def split: severity.splits)
  then have "status (evaluate ?p ?vs) \<noteq> Fail"
    using policy_verdict [of ?vs ?p] by simp
  then show ?thesis
    by (cases "status (evaluate ?p ?vs)") simp_all
qed

text \<open>
  Revoking a suppression takes it out of force and touches nothing else: after a
  revocation that reports success a finding is marked by later scans exactly when a
  different suppression in force matches it, and exactly one audit entry is added;
  one that reports failure changes nothing.
\<close>

theorem suppression_revoke_effect:
  assumes "suppression_revoke tx_ok t actor i db = (db', Inr ok)"
  shows "(ok \<longrightarrow>
      (\<forall>now tenant project repository (v :: 'f vulnerability).
        list_ex (suppression_matches now tenant project repository v) (suppressions db') \<longleftrightarrow>
        list_ex (\<lambda>row. sup_id row \<noteq> i \<and> suppression_matches now tenant project repository v row)
          (suppressions db)) \<and>
      length (audit_log db') = Suc (length (audit_log db))) \<and>
    (\<not> ok \<longrightarrow> db' = db)"
  using assms by (auto simp: suppression_revoke_def revoked_matches split: if_splits)

definition demo_suppression :: new_suppression where
  "demo_suppression = \<lparr>cve_id = ''CVE-2024-1'', scope_tenant = None, scope_project = None,
     scope_repository = None, scope_package = None, reason = ''accepted'', expires_at = None\<rparr>"

theorem suppression_revoke_effect_witness:
  "\<exists>db db'. suppression_create True 5 7 ''alice'' demo_suppression
        \<lparr>suppressions = [], audit_log = []\<rparr> = (db, Inr 7) \<and>
     suppression_revoke True 6 ''bob'' 7 db = (db', Inr True) \<and>
     suppression_apply 9 ''t'' ''p'' ''r'' db [demo_vuln High False] = [demo_vuln High True] \<and>
     \<not> list_ex (suppression_matches 9 ''t'' ''p'' ''r'' (demo_vuln High False)) (suppressions db')"
proof -
  define row where "row = \<lparr>sup_id = 7, sup_input = demo_suppression, created_by = ''alice'',
      created_at = 5, revoked_at = None\<rparr>"
  define log where "log = [\<lparr>audit_actor = ''alice'', audit_action = ''suppression.create'',
      audit_target = (7::nat)\<rparr>]"
  define db where "db = \<lparr>suppressions = [row], audit_log = log\<rparr>"
  have create: "suppression_create True 5 7 ''alice'' demo_suppression
      \<lparr>suppressions = [], audit_log = []\<rparr> = (db, Inr 7)"
    by (simp add: suppression_create_def db_def row_def log_def)
  obtain db' where revoke: "suppression_revoke True 6 ''bob'' 7 db = (db', Inr True)"
    by (simp add: suppression_revoke_def db_def row_def)
  have "suppression_apply 9 ''t'' ''p'' ''r'' db [demo_vuln High False] = [demo_vuln High True]"
    by (simp add: suppression_apply_def suppression_matches_def db_def row_def demo_suppression_def
        demo_vuln_def scope_ok_def mk_vulnerability_def demo_range_def)
  moreover have "\<not> list_ex (suppression_matches 9 ''t'' ''p'' ''r'' (demo_vuln High False))
      (suppressions db')"
    using suppression_revoke_effect [OF revoke, where 'f = nat] by (simp add: db_def row_def)
  ultimately show ?thesis
    using create revoke by blast
qed

end
