(* ===== verification/Utf8.thy ===== *)
theory Utf8
  imports Prelude
begin

text \<open>
  UTF-8 as Rust's \<open>String\<close> uses it: \<open>String::from_utf8\<close>, \<open>from_utf8_lossy\<close> and
  \<open>str::trim\<close> on the byte sequences the rest of the development calls strings. A decoded
  character is kept as its bytes.
\<close>

definition byte :: "char \<Rightarrow> nat" where
  "byte c = of_char c"

definition cont :: "char \<Rightarrow> bool" where
  "cont c \<longleftrightarrow> 0x80 \<le> byte c \<and> byte c \<le> 0xBF"

text \<open>
  The second byte a lead byte allows; \<open>None\<close> if the byte starts no sequence of several
  bytes. With it the number of bytes of the sequence.
\<close>

definition lead :: "char \<Rightarrow> (nat \<times> nat \<times> nat) option" where
  "lead c = (let b = byte c in
     if 0xC2 \<le> b \<and> b \<le> 0xDF then Some (2, 0x80, 0xBF)
     else if b = 0xE0 then Some (3, 0xA0, 0xBF)
     else if b = 0xED then Some (3, 0x80, 0x9F)
     else if 0xE1 \<le> b \<and> b \<le> 0xEF then Some (3, 0x80, 0xBF)
     else if b = 0xF0 then Some (4, 0x90, 0xBF)
     else if 0xF1 \<le> b \<and> b \<le> 0xF3 then Some (4, 0x80, 0xBF)
     else if b = 0xF4 then Some (4, 0x80, 0x8F) else None)"

text \<open>
  The first character of a non-empty input: whether it is well formed, and how many bytes
  it has - for an ill-formed one, the bytes that one replacement character stands for.
\<close>

fun first_char :: "bytes \<Rightarrow> bool \<times> nat" where
  "first_char [] = (False, 0)"
| "first_char (c # cs) =
    (if byte c < 0x80 then (True, 1)
     else case lead c of
       None \<Rightarrow> (False, 1)
     | Some (n, lo, hi) \<Rightarrow>
        (case cs of [] \<Rightarrow> (False, 1)
         | d # ds \<Rightarrow>
            if \<not> (lo \<le> byte d \<and> byte d \<le> hi) then (False, 1)
            else (let k = length (takeWhile cont (take (n - 2) ds)) in
                  if k = n - 2 then (True, n) else (False, 2 + k))))"

lemma first_char_length: "xs \<noteq> [] \<Longrightarrow> 0 < snd (first_char xs)"
  by (cases xs rule: first_char.cases)
    (auto simp: lead_def Let_def split: option.splits list.splits if_splits)

function utf8_chars :: "bytes \<Rightarrow> (bool \<times> bytes) list" where
  "utf8_chars xs = (if xs = [] then []
     else (fst (first_char xs), take (snd (first_char xs)) xs) # utf8_chars (drop (snd (first_char xs)) xs))"
  by pat_completeness auto
termination
  by (relation "measure length") (use first_char_length in auto)

declare utf8_chars.simps [simp del]

definition utf8_ok :: "bytes \<Rightarrow> bool" where
  "utf8_ok xs \<longleftrightarrow> list_all fst (utf8_chars xs)"

definition replacement :: bytes where
  "replacement = [CHR 0xEF, CHR 0xBF, CHR 0xBD]"

definition from_utf8 :: "bytes \<Rightarrow> string option" where
  "from_utf8 xs = (if utf8_ok xs then Some xs else None)"

definition from_utf8_lossy :: "bytes \<Rightarrow> string" where
  "from_utf8_lossy xs = concat (map (\<lambda>(ok, c). if ok then c else replacement) (utf8_chars xs))"

text \<open>\<open>char::is_whitespace\<close>: the property White_Space, by encoding.\<close>

definition white_chars :: "bytes list" where
  "white_chars =
    [[CHR 0xC2, CHR 0x85], [CHR 0xC2, CHR 0xA0], [CHR 0xE1, CHR 0x9A, CHR 0x80],
     [CHR 0xE2, CHR 0x80, CHR 0xA8], [CHR 0xE2, CHR 0x80, CHR 0xA9], [CHR 0xE2, CHR 0x80, CHR 0xAF],
     [CHR 0xE2, CHR 0x81, CHR 0x9F], [CHR 0xE3, CHR 0x80, CHR 0x80]]"

definition is_white :: "bytes \<Rightarrow> bool" where
  "is_white c \<longleftrightarrow> (case c of [b] \<Rightarrow> is_whitespace b | _ \<Rightarrow> c \<in> set white_chars
     \<or> (\<exists>b \<in> set (drop 2 c). c = [CHR 0xE2, CHR 0x80, b] \<and> 0x80 \<le> byte b \<and> byte b \<le> 0x8A))"

definition utf8_trim :: "string \<Rightarrow> string" where
  "utf8_trim s = concat (rev (dropWhile is_white (rev (dropWhile is_white (map snd (utf8_chars s))))))"

section \<open>ASCII text\<close>

definition ascii :: "bytes \<Rightarrow> bool" where
  "ascii xs \<longleftrightarrow> list_all (\<lambda>c. byte c < 0x80) xs"

lemma utf8_chars_ascii: "ascii xs \<Longrightarrow> utf8_chars xs = map (\<lambda>c. (True, [c])) xs"
proof (induction xs)
  case (Cons c cs)
  then show ?case
    by (subst utf8_chars.simps) (simp add: ascii_def)
qed (simp add: utf8_chars.simps)

lemma from_utf8_ascii: "ascii xs \<Longrightarrow> from_utf8 xs = Some xs"
  by (simp add: from_utf8_def utf8_ok_def utf8_chars_ascii list_all_iff)

lemma from_utf8_lossy_ascii: "ascii xs \<Longrightarrow> from_utf8_lossy xs = xs"
  by (simp add: from_utf8_lossy_def utf8_chars_ascii comp_def)

lemma is_white_single [simp]: "is_white [c] = is_whitespace c"
  by (simp add: is_white_def)

lemma dropWhile_singletons:
  "dropWhile is_white (map (\<lambda>c. [c]) xs) = map (\<lambda>c. [c]) (dropWhile is_whitespace xs)"
  by (induction xs) auto

lemma utf8_trim_ascii: "ascii s \<Longrightarrow> utf8_trim s = trim s"
proof -
  assume "ascii s"
  then have "map snd (utf8_chars s) = map (\<lambda>c. [c]) s"
    by (simp add: utf8_chars_ascii comp_def)
  then show ?thesis
    by (simp add: utf8_trim_def trim_def dropWhile_singletons rev_map)
qed

text \<open>Splitting into characters loses no byte, so well-formed text is what it decodes to.\<close>

lemma concat_utf8_chars: "concat (map snd (utf8_chars xs)) = xs"
proof (induction xs rule: utf8_chars.induct)
  case (1 xs)
  then show ?case
    by (subst utf8_chars.simps) simp
qed

lemma from_utf8_lossy_ok: "utf8_ok xs \<Longrightarrow> from_utf8_lossy xs = xs"
proof -
  assume "utf8_ok xs"
  then have "map (\<lambda>(ok, c). if ok then c else replacement) (utf8_chars xs) = map snd (utf8_chars xs)"
    by (auto simp: utf8_ok_def list_all_iff)
  then show ?thesis
    unfolding from_utf8_lossy_def by (simp only: concat_utf8_chars)
qed

lemma trim_id: "s \<noteq> [] \<Longrightarrow> \<not> is_whitespace (hd s) \<Longrightarrow> \<not> is_whitespace (last s) \<Longrightarrow> trim s = s"
proof -
  assume "s \<noteq> []" "\<not> is_whitespace (hd s)" "\<not> is_whitespace (last s)"
  then have "dropWhile is_whitespace s = s" "dropWhile is_whitespace (rev s) = rev s"
    using dropWhile_eq_self_iff [of is_whitespace] by (auto simp: hd_rev)
  then show ?thesis by (simp add: trim_def)
qed

end
