(* ===== verification/Sbom.thy ===== *)
theory Sbom
  imports Vuln_Match Utf8 "HOL-Library.Word"
begin

text \<open>
  The software bill of materials (\<open>specton-scanner/src/sbom\<close>): one parser per package
  database and lock file, and \<open>dispatch\<close>, which chooses among them by the path of a file.
  Each parser is a function from the bytes of a file to the packages it appends. The
  crates \<open>serde_json\<close> and \<open>toml\<close> are parameters. The two binary formats index into the
  file; an index out of range is a panic, the outer \<open>None\<close> of their results.
\<close>

unbundle bit_operations_syntax

section \<open>Lines and words\<close>

abbreviation (input) LF :: char where
  "LF \<equiv> CHR 0x0A"

definition strip_cr :: "string \<Rightarrow> string" where
  "strip_cr l = (case strip_suffix [CHR 0x0D] l of None \<Rightarrow> l | Some l' \<Rightarrow> l')"

text \<open>\<open>str::lines\<close>, \<open>str::split\<close> on a character and on a string, \<open>str::split_whitespace\<close>.\<close>

function text_lines :: "string \<Rightarrow> string list" where
  "text_lines s = (case split_once LF s of
     None \<Rightarrow> if s = [] then [] else [s]
   | Some (l, rest) \<Rightarrow> strip_cr l # text_lines rest)"
  by pat_completeness auto
termination
  by (relation "measure length") (auto dest!: split_once_Some)

declare text_lines.simps [simp del]

function split_char :: "char \<Rightarrow> string \<Rightarrow> string list" where
  "split_char c s = (case split_once c s of None \<Rightarrow> [s] | Some (l, rest) \<Rightarrow> l # split_char c rest)"
  by pat_completeness auto
termination
  by (relation "measure (\<lambda>(c, s). length s)") (auto dest!: split_once_Some)

declare split_char.simps [simp del]

function paragraphs :: "string \<Rightarrow> string list" where
  "paragraphs s = (case find_str [LF, LF] s of None \<Rightarrow> [s] | Some (p, rest) \<Rightarrow> p # paragraphs rest)"
  by pat_completeness auto
termination
  by (relation "measure length") (auto dest!: find_str_Some)

declare paragraphs.simps [simp del]

fun words_from :: "bytes \<Rightarrow> bytes list \<Rightarrow> string list" where
  "words_from acc [] = (if acc = [] then [] else [acc])"
| "words_from acc (c # cs) =
    (if is_white c then (if acc = [] then words_from [] cs else acc # words_from [] cs)
     else words_from (acc @ c) cs)"

definition split_whitespace :: "string \<Rightarrow> string list" where
  "split_whitespace s = words_from [] (map snd (utf8_chars s))"

definition ends_with :: "string \<Rightarrow> string \<Rightarrow> bool" where
  "ends_with p s \<longleftrightarrow> strip_suffix p s \<noteq> None"

section \<open>Debian and Alpine databases\<close>

definition mk_package :: "string \<Rightarrow> string \<Rightarrow> string \<Rightarrow> string \<Rightarrow> string \<Rightarrow> package" where
  "mk_package eco prefix layer n v =
    \<lparr>pkg_name = n, pkg_version = v, pkg_ecosystem = eco, purl = prefix @ n @ ''@'' @ v, pkg_layer_digest = Some layer\<rparr>"

record dpkg_fields =
  dp_name :: "string option"
  dp_version :: "string option"
  dp_installed :: bool

definition dpkg_line :: "string \<Rightarrow> dpkg_fields \<Rightarrow> dpkg_fields" where
  "dpkg_line l f = (case strip_prefix ''Package: '' l of Some v \<Rightarrow> f\<lparr>dp_name := Some (utf8_trim v)\<rparr>
    | None \<Rightarrow> (case strip_prefix ''Version: '' l of Some v \<Rightarrow> f\<lparr>dp_version := Some (utf8_trim v)\<rparr>
    | None \<Rightarrow> (case strip_prefix ''Status: '' l of
        Some v \<Rightarrow> f\<lparr>dp_installed := (''installed'' \<in> set (split_whitespace v))\<rparr>
      | None \<Rightarrow> f)))"

definition dpkg_paragraph :: "string \<Rightarrow> string \<Rightarrow> package list" where
  "dpkg_paragraph layer p =
    (let f = fold dpkg_line (text_lines p) \<lparr>dp_name = None, dp_version = None, dp_installed = False\<rparr> in
     case (dp_name f, dp_version f) of
       (Some n, Some v) \<Rightarrow> if dp_installed f then [mk_package ''deb'' ''pkg:deb/debian/'' layer n v] else []
     | _ \<Rightarrow> [])"

definition dpkg_parse :: "string \<Rightarrow> bytes \<Rightarrow> package list" where
  "dpkg_parse layer contents = (case from_utf8 contents of None \<Rightarrow> []
     | Some s \<Rightarrow> concat (map (dpkg_paragraph layer) (paragraphs s)))"

definition apk_line :: "string \<Rightarrow> string option \<times> string option \<Rightarrow> string option \<times> string option" where
  "apk_line l = (\<lambda>(n, v). case strip_prefix ''P:'' l of Some x \<Rightarrow> (Some (utf8_trim x), v)
     | None \<Rightarrow> (case strip_prefix ''V:'' l of Some x \<Rightarrow> (n, Some (utf8_trim x)) | None \<Rightarrow> (n, v)))"

definition apk_paragraph :: "string \<Rightarrow> string \<Rightarrow> package list" where
  "apk_paragraph layer p = (case fold apk_line (text_lines p) (None, None) of
     (Some n, Some v) \<Rightarrow> [mk_package ''apk'' ''pkg:apk/alpine/'' layer n v] | _ \<Rightarrow> [])"

definition apk_db_parse :: "string \<Rightarrow> bytes \<Rightarrow> package list" where
  "apk_db_parse layer contents = (case from_utf8 contents of None \<Rightarrow> []
     | Some s \<Rightarrow> concat (map (apk_paragraph layer) (paragraphs s)))"

section \<open>Lock files\<close>

text \<open>\<open>go.sum\<close>: one module version per line, the first line of each.\<close>

fun go_lines :: "string \<Rightarrow> (string \<times> string) set \<Rightarrow> string list \<Rightarrow> package list" where
  "go_lines layer seen [] = []"
| "go_lines layer seen (l # ls) =
    (case split_whitespace (utf8_trim l) of
       module # raw # _ # _ \<Rightarrow>
         (let version = (case strip_suffix ''/go.mod'' raw of None \<Rightarrow> raw | Some v \<Rightarrow> v) in
          if \<not> starts_with ''v'' version then go_lines layer seen ls
          else if (module, version) \<in> seen then go_lines layer seen ls
          else mk_package ''go'' ''pkg:golang/'' layer module version # go_lines layer (insert (module, version) seen) ls)
     | _ \<Rightarrow> go_lines layer seen ls)"

definition go_sum_parse :: "string \<Rightarrow> bytes \<Rightarrow> package list" where
  "go_sum_parse layer contents = (case from_utf8 contents of None \<Rightarrow> [] | Some s \<Rightarrow> go_lines layer {} (text_lines s))"

definition is_sep :: "char \<Rightarrow> bool" where
  "is_sep c \<longleftrightarrow> c = CHR ''_'' \<or> c = CHR ''.'' \<or> c = CHR ''-''"

fun normalize_from :: "bool \<Rightarrow> string \<Rightarrow> string" where
  "normalize_from last_dash [] = []"
| "normalize_from last_dash (c0 # cs) =
    (let c = to_ascii_lowercase c0 in
     if is_sep c then (if last_dash then normalize_from True cs else CHR ''-'' # normalize_from True cs)
     else c # normalize_from False cs)"

definition trim_dashes :: "string \<Rightarrow> string" where
  "trim_dashes s = rev (dropWhile (\<lambda>c. c = CHR ''-'') (rev (dropWhile (\<lambda>c. c = CHR ''-'') s)))"

definition normalize_pypi :: "string \<Rightarrow> string" where
  "normalize_pypi name = trim_dashes (normalize_from False name)"

text \<open>The header loop of \<open>parse_metadata\<close>, which stops at a blank line and once it has both.\<close>

fun metadata_headers :: "string option \<times> string option \<Rightarrow> string list \<Rightarrow> string option \<times> string option" where
  "metadata_headers (n, v) [] = (n, v)"
| "metadata_headers (n, v) (l # ls) =
    (if l = [] then (n, v)
     else
       (let (n', v') = (case strip_prefix ''Name: '' l of Some x \<Rightarrow> (Some (utf8_trim x), v)
          | None \<Rightarrow> (case strip_prefix ''Version: '' l of Some x \<Rightarrow> (n, Some (utf8_trim x)) | None \<Rightarrow> (n, v))) in
        if n' \<noteq> None \<and> v' \<noteq> None then (n', v') else metadata_headers (n', v') ls))"

definition parse_metadata :: "string \<Rightarrow> bytes \<Rightarrow> package list" where
  "parse_metadata layer contents = (case from_utf8 contents of None \<Rightarrow> []
     | Some s \<Rightarrow> (case metadata_headers (None, None) (text_lines s) of
         (Some n, Some v) \<Rightarrow> [mk_package ''pypi'' ''pkg:pypi/'' layer (normalize_pypi n) v] | _ \<Rightarrow> []))"

definition requirement :: "string \<Rightarrow> string \<Rightarrow> package option" where
  "requirement layer raw =
    (let line = utf8_trim (hd (split_char CHR ''#'' raw)) in
     if line = [] \<or> starts_with ''-'' line then None
     else case find_str ''=='' line of None \<Rightarrow> None
     | Some (name, version0) \<Rightarrow>
        (let version1 = utf8_trim (hd (split_char CHR '';'' version0));
             version = utf8_trim (hd (split_char CHR ''['' version1)) in
         if name = [] \<or> version = [] then None
         else Some (mk_package ''pypi'' ''pkg:pypi/'' layer (normalize_pypi (utf8_trim name)) version)))"

definition parse_requirements :: "string \<Rightarrow> bytes \<Rightarrow> package list" where
  "parse_requirements layer contents = (case from_utf8 contents of None \<Rightarrow> []
     | Some s \<Rightarrow> filter_map (requirement layer) (text_lines s))"

definition pypi_parse :: "string \<Rightarrow> string \<Rightarrow> bytes \<Rightarrow> package list" where
  "pypi_parse layer p contents =
    (if ends_with ''.dist-info/METADATA'' p \<or> ends_with ''.egg-info/PKG-INFO'' p then parse_metadata layer contents
     else if ends_with ''requirements.txt'' p then parse_requirements layer contents else [])"

text \<open>\<open>Cargo.lock\<close>: what \<open>toml\<close> deserializes is a list of tables.\<close>

record lock_package =
  lp_name :: string
  lp_version :: string
  lp_source :: "string option"

record sbom_crates =
  sb_json :: "bytes \<Rightarrow> json option"
  sb_toml_lock :: "string \<Rightarrow> lock_package list option"

definition cargo_parse :: "sbom_crates \<Rightarrow> string \<Rightarrow> bytes \<Rightarrow> package list" where
  "cargo_parse C layer contents = (case from_utf8 contents of None \<Rightarrow> []
     | Some s \<Rightarrow> (case sb_toml_lock C s of None \<Rightarrow> []
        | Some ps \<Rightarrow> map (\<lambda>p. mk_package ''cargo'' ''pkg:cargo/'' layer (lp_name p) (lp_version p))
            (filter (\<lambda>p. lp_source p \<noteq> None) ps)))"

section \<open>npm\<close>

definition npm_purl :: "string \<Rightarrow> string \<Rightarrow> string" where
  "npm_purl name version = (case strip_prefix ''@'' name of
     Some rest \<Rightarrow> (case split_once CHR ''/'' rest of
        Some (scope, pkg) \<Rightarrow> ''pkg:npm/%40'' @ scope @ ''/'' @ pkg @ ''@'' @ version
      | None \<Rightarrow> ''pkg:npm/'' @ name @ ''@'' @ version)
   | None \<Rightarrow> ''pkg:npm/'' @ name @ ''@'' @ version)"

definition npm_package :: "string \<Rightarrow> string \<Rightarrow> string \<Rightarrow> package" where
  "npm_package layer name version = \<lparr>pkg_name = name, pkg_version = version, pkg_ecosystem = ''npm'',
     purl = npm_purl name version, pkg_layer_digest = Some layer\<rparr>"

definition name_from_key :: "string \<Rightarrow> string option" where
  "name_from_key key =
    (let after = (case rfind_str ''node_modules/'' key of None \<Rightarrow> key | Some (_, b) \<Rightarrow> b) in
     if after = [] then None else Some after)"

definition version_of :: "json \<Rightarrow> string option" where
  "version_of entry = Option.bind (json_get ''version'' entry) as_str"

text \<open>
  The two optional maps of \<open>Lock\<close>: a field that is repeated or is neither null nor an object
  makes the whole file unreadable.
\<close>

definition lock_map :: "string \<Rightarrow> (string \<times> json) list \<Rightarrow> (string \<times> json) list option option" where
  "lock_map k kvs = (case filter (\<lambda>kv. fst kv = k) kvs of
     [] \<Rightarrow> Some None | [(_, Null)] \<Rightarrow> Some None | [(_, Object m)] \<Rightarrow> Some (Some m) | _ \<Rightarrow> None)"

lemma size_in_object: "(k, x) \<in> set kvs \<Longrightarrow> size x < size (Object kvs)"
  by (induction kvs) auto

lemma size_json_get: "json_get k v = Some x \<Longrightarrow> size x < size v"
  by (cases v) (auto simp: json_get_def simp del: json.size dest!: map_of_SomeD intro: size_in_object)

lemma size_object_tl: "size (Object kvs) < size (Object (kv # kvs))"
  by (cases kv) simp

function (sequential) walk_v1 :: "string \<Rightarrow> (string \<times> json) list \<Rightarrow> package list" where
  "walk_v1 layer [] = []"
| "walk_v1 layer ((name, entry) # deps) =
    (case version_of entry of None \<Rightarrow> [] | Some v \<Rightarrow> [npm_package layer name v]) @
    (case json_get ''dependencies'' entry of Some (Object kids) \<Rightarrow> walk_v1 layer kids | _ \<Rightarrow> []) @ walk_v1 layer deps"
  by pat_completeness auto
termination
proof (relation "measure (\<lambda>(layer, deps). size (Object deps))", goal_cases)
  case (2 layer name entry deps x kids)
  then have "size (Object kids) < size entry"
    using size_json_get by blast
  also have "size entry < size (Object ((name, entry) # deps))"
    by (rule size_in_object [of name]) simp
  finally show ?case by simp
qed (simp_all del: json.size add: size_object_tl)

definition npm_maps :: "json \<Rightarrow> ((string \<times> json) list option \<times> (string \<times> json) list option) option" where
  "npm_maps v = (case v of
     Object kvs \<Rightarrow> (case (lock_map ''packages'' kvs, lock_map ''dependencies'' kvs) of
        (Some p, Some d) \<Rightarrow> Some (p, d) | _ \<Rightarrow> None)
   | Array vs \<Rightarrow> (case vs of
        [] \<Rightarrow> Some (None, None)
      | [p] \<Rightarrow> map_option (\<lambda>p'. (p', None)) (lock_map [] [([], p)])
      | [p, d] \<Rightarrow> (case (lock_map [] [([], p)], lock_map [] [([], d)]) of (Some p', Some d') \<Rightarrow> Some (p', d') | _ \<Rightarrow> None)
      | _ \<Rightarrow> None)
   | _ \<Rightarrow> None)"

definition npm_entry :: "string \<Rightarrow> string \<times> json \<Rightarrow> package option" where
  "npm_entry layer = (\<lambda>(key, entry). if key = [] then None
     else case name_from_key key of None \<Rightarrow> None
     | Some name \<Rightarrow> map_option (npm_package layer name) (version_of entry))"

definition npm_parse :: "sbom_crates \<Rightarrow> string \<Rightarrow> bytes \<Rightarrow> package list" where
  "npm_parse C layer contents = (case Option.bind (sb_json C contents) npm_maps of
     None \<Rightarrow> []
   | Some (Some packages, _) \<Rightarrow> filter_map (npm_entry layer) packages
   | Some (None, Some deps) \<Rightarrow> walk_v1 layer deps
   | Some (None, None) \<Rightarrow> [])"

section \<open>RPM headers\<close>

definition HEADER_MAGIC :: bytes where
  "HEADER_MAGIC = [CHR 0x8E, CHR 0xAD, CHR 0xE8, CHR 0x01, CHR 0x00, CHR 0x00, CHR 0x00, CHR 0x00]"

text \<open>\<open>&xs[i..j]\<close>; \<open>None\<close> is the panic.\<close>

definition slice :: "nat \<Rightarrow> nat \<Rightarrow> bytes \<Rightarrow> bytes option" where
  "slice i j xs = (if i \<le> j \<and> j \<le> length xs then Some (take (j - i) (drop i xs)) else None)"

definition be_val :: "bytes \<Rightarrow> nat" where
  "be_val b = foldl (\<lambda>n c. n * 256 + byte c) 0 b"

definition read_be_u32 :: "bytes \<Rightarrow> nat option" where
  "read_be_u32 b = (if length b < 4 then None else Some (be_val (take 4 b)))"

definition read_cstring :: "bytes \<Rightarrow> string option" where
  "read_cstring b = (case split_once CHR 0x00 b of None \<Rightarrow> None | Some (s, _) \<Rightarrow> from_utf8 s)"

record rpm_fields =
  rf_name :: "string option"
  rf_version :: "string option"
  rf_release :: "string option"
  rf_epoch :: "nat option"
  rf_arch :: "string option"

record parsed_header =
  ph_name :: string
  ph_version :: string
  ph_full_version :: string

definition rpm_full_version :: "nat option \<Rightarrow> string option \<Rightarrow> string \<Rightarrow> string \<Rightarrow> string" where
  "rpm_full_version ep arch v r =
    (case (ep, arch) of
       (Some e, Some a) \<Rightarrow> if e > 0 then show_nat e @ '':'' @ v @ ''-'' @ r @ ''.'' @ a else v @ ''-'' @ r @ ''.'' @ a
     | (Some e, None) \<Rightarrow> if e > 0 then show_nat e @ '':'' @ v @ ''-'' @ r else v @ ''-'' @ r
     | (None, Some a) \<Rightarrow> v @ ''-'' @ r @ ''.'' @ a
     | (None, None) \<Rightarrow> v @ ''-'' @ r)"

text \<open>
  One index entry. The outer \<open>None\<close> is a panic, the inner one the early return of \<open>parse_header\<close>;
  an entry is sixteen bytes, so its four fields can be read.
\<close>

definition rpm_entry :: "bytes \<Rightarrow> bytes \<Rightarrow> rpm_fields \<Rightarrow> rpm_fields option option" where
  "rpm_entry data chunk f =
    (case (slice 0 4 chunk, slice 4 8 chunk, slice 8 12 chunk, slice 12 16 chunk) of
       (Some b0, Some b1, Some b2, Some b3) \<Rightarrow>
         (case (read_be_u32 b0, read_be_u32 b1, read_be_u32 b2, read_be_u32 b3) of
            (Some tag, Some ty, Some off, Some n) \<Rightarrow>
              if off \<ge> length data then Some None
              else (case slice off (length data) data of None \<Rightarrow> None
                | Some d \<Rightarrow>
                   if tag = 1000 \<and> ty = 6 then Some (Some (f\<lparr>rf_name := read_cstring d\<rparr>))
                   else if tag = 1001 \<and> ty = 6 then Some (Some (f\<lparr>rf_version := read_cstring d\<rparr>))
                   else if tag = 1002 \<and> ty = 6 then Some (Some (f\<lparr>rf_release := read_cstring d\<rparr>))
                   else if tag = 1022 \<and> ty = 6 then Some (Some (f\<lparr>rf_arch := read_cstring d\<rparr>))
                   else if tag = 1003 \<and> ty = 4 \<and> n \<ge> 1 \<and> off + 4 \<le> length data
                   then (case slice off (off + 4) data of None \<Rightarrow> None
                     | Some e \<Rightarrow> (case read_be_u32 e of None \<Rightarrow> Some None
                        | Some x \<Rightarrow> Some (Some (f\<lparr>rf_epoch := Some x\<rparr>))))
                   else Some (Some f))
          | _ \<Rightarrow> Some None)
     | _ \<Rightarrow> None)"

function chunks16 :: "bytes \<Rightarrow> bytes list" where
  "chunks16 xs = (if length xs < 16 then [] else take 16 xs # chunks16 (drop 16 xs))"
  by pat_completeness auto
termination
  by (relation "measure length") auto

declare chunks16.simps [simp del]

fun rpm_entries :: "bytes \<Rightarrow> bytes list \<Rightarrow> rpm_fields \<Rightarrow> rpm_fields option option" where
  "rpm_entries data [] f = Some (Some f)"
| "rpm_entries data (c # cs) f = (case rpm_entry data c f of
     None \<Rightarrow> None | Some None \<Rightarrow> Some None | Some (Some f') \<Rightarrow> rpm_entries data cs f')"

definition header_of :: "rpm_fields \<Rightarrow> parsed_header option" where
  "header_of f = (case (rf_name f, rf_version f, rf_release f) of
     (Some n, Some v, Some r) \<Rightarrow> Some \<lparr>ph_name = n, ph_version = v @ ''-'' @ r,
        ph_full_version = rpm_full_version (rf_epoch f) (rf_arch f) v r\<rparr>
   | _ \<Rightarrow> None)"

definition parse_header :: "bytes \<Rightarrow> (nat \<times> parsed_header) option option" where
  "parse_header bs =
    (if length bs < 16 \<or> take 8 bs \<noteq> HEADER_MAGIC then Some None
     else (case (slice 8 12 bs, slice 12 16 bs) of
       (Some b0, Some b1) \<Rightarrow>
        (case (read_be_u32 b0, read_be_u32 b1) of
           (Some entry_count, Some data_len) \<Rightarrow>
            (let entries_end = 16 + entry_count * 16; total = entries_end + data_len in
             if entries_end \<ge> 2 ^ 64 \<or> total \<ge> 2 ^ 64 then Some None
             else if length bs < total \<or> entry_count = 0 \<or> entry_count > 10000 then Some None
             else (case (slice 16 entries_end bs, slice entries_end total bs) of
               (Some entries, Some data) \<Rightarrow>
                 map_option (\<lambda>r. Option.bind r (\<lambda>f. map_option (Pair total) (header_of f)))
                   (rpm_entries data (chunks16 entries)
                     \<lparr>rf_name = None, rf_version = None, rf_release = None, rf_epoch = None, rf_arch = None\<rparr>)
             | _ \<Rightarrow> None))
         | _ \<Rightarrow> Some None)
     | _ \<Rightarrow> None))"

lemma parse_header_len: "parse_header bs = Some (Some (n, h)) \<Longrightarrow> 16 \<le> n \<and> n \<le> length bs"
  by (auto simp: parse_header_def Let_def bind_eq_Some_conv split: if_splits option.splits)

definition rpm_package :: "string \<Rightarrow> parsed_header \<Rightarrow> package" where
  "rpm_package layer h = \<lparr>pkg_name = ph_name h, pkg_version = ph_version h, pkg_ecosystem = ''rpm'',
     purl = ''pkg:rpm/'' @ ph_name h @ ''@'' @ ph_full_version h, pkg_layer_digest = Some layer\<rparr>"

text \<open>The scan for headers; the argument is \<open>&contents[i..]\<close>.\<close>

function rpm_scan :: "string \<Rightarrow> (string \<times> string) set \<Rightarrow> bytes \<Rightarrow> package list option" where
  "rpm_scan layer seen rest = (case find_str HEADER_MAGIC rest of
     None \<Rightarrow> Some []
   | Some (skipped, _) \<Rightarrow>
      (let hdr = drop (length skipped) rest in
       case parse_header hdr of
         None \<Rightarrow> None
       | Some None \<Rightarrow> rpm_scan layer seen (drop 1 hdr)
       | Some (Some (n, h)) \<Rightarrow>
          (let key = (ph_name h, ph_version h) in
           if key \<in> seen then rpm_scan layer seen (drop n hdr)
           else map_option (Cons (rpm_package layer h)) (rpm_scan layer (insert key seen) (drop n hdr)))))"
  by pat_completeness auto
termination
proof (relation "measure (\<lambda>(layer, seen, rest). length rest)", goal_cases)
  have magic: "length HEADER_MAGIC = 8" by (simp add: HEADER_MAGIC_def)
  {
    case (2 layer seen rest x skipped y hdr z)
    then show ?case
      using find_str_Some [of HEADER_MAGIC rest skipped y] magic by simp
  next
    case (3 layer seen rest x skipped y hdr z v n h key)
    then show ?case
      using find_str_Some [of HEADER_MAGIC rest skipped y] parse_header_len [of hdr n h] magic by auto
  next
    case (4 layer seen rest x skipped y hdr z v n h key)
    then show ?case
      using find_str_Some [of HEADER_MAGIC rest skipped y] parse_header_len [of hdr n h] magic by auto
  }
qed simp

declare rpm_scan.simps [simp del]

definition rpm_parse :: "string \<Rightarrow> bytes \<Rightarrow> package list option" where
  "rpm_parse layer contents = rpm_scan layer {} contents"

section \<open>Go binaries\<close>

definition ELF_MAGIC :: bytes where
  "ELF_MAGIC = CHR 0x7F # ''ELF''"

definition GO_BUILDINFO_MAGIC :: bytes where
  "GO_BUILDINFO_MAGIC = CHR 0xFF # '' Go buildinf:''"

definition looks_like_binary :: "bytes \<Rightarrow> bool" where
  "looks_like_binary contents \<longleftrightarrow> length contents \<ge> 4 \<and> take 4 contents = ELF_MAGIC"

fun read_uvarint :: "64 word \<Rightarrow> nat \<Rightarrow> nat \<Rightarrow> bytes \<Rightarrow> (nat \<times> nat) option" where
  "read_uvarint acc shift i [] = None"
| "read_uvarint acc shift i (b # bs) =
    (let acc' = acc OR push_bit shift (word_of_nat (byte b mod 128)) in
     if byte b < 128 then Some (unat acc', i + 1)
     else if shift + 7 > 63 then None else read_uvarint acc' (shift + 7) (i + 1) bs)"

text \<open>\<open>n + len\<close> wraps; \<open>None\<close> is the panic of the slice.\<close>

definition read_uvarint_string :: "bytes \<Rightarrow> (string \<times> bytes) option option" where
  "read_uvarint_string b = (case read_uvarint 0 0 0 b of
     None \<Rightarrow> Some None
   | Some (len, n) \<Rightarrow>
      (let e = (n + len) mod 2 ^ 64 in
       if length b < e then Some None
       else (case slice n e b of None \<Rightarrow> None
         | Some s \<Rightarrow> Some (case from_utf8 s of None \<Rightarrow> None | Some str \<Rightarrow> Some (str, drop e b)))))"

definition modinfo_fields :: "string list \<Rightarrow> (string \<times> string) option" where
  "modinfo_fields fs = (case fs of
     kind # f1 # rest \<Rightarrow>
       (if kind = ''path'' then Some (utf8_trim f1, ''main'')
        else if kind \<in> {''mod'', ''dep''} then (case rest of [] \<Rightarrow> None | f2 # _ \<Rightarrow> Some (utf8_trim f1, utf8_trim f2))
        else None)
   | _ \<Rightarrow> None)"

fun modinfo_lines :: "string \<Rightarrow> (string \<times> string) set \<Rightarrow> string list \<Rightarrow> package list" where
  "modinfo_lines layer seen [] = []"
| "modinfo_lines layer seen (l # ls) = (case modinfo_fields (split_char CHR 0x09 l) of
     None \<Rightarrow> modinfo_lines layer seen ls
   | Some (name, version) \<Rightarrow>
      if name = [] \<or> list_ex is_white (map snd (utf8_chars name)) then modinfo_lines layer seen ls
      else if (name, version) \<in> seen then modinfo_lines layer seen ls
      else mk_package ''go'' ''pkg:golang/'' layer name version #
        modinfo_lines layer (insert (name, version) seen) ls)"

definition parse_modinfo :: "string \<Rightarrow> string \<Rightarrow> package list" where
  "parse_modinfo layer blob = modinfo_lines layer {} (split_char LF blob)"

definition binary_parse :: "string \<Rightarrow> bytes \<Rightarrow> package list option" where
  "binary_parse layer contents =
    (if \<not> looks_like_binary contents then Some []
     else (case find_str GO_BUILDINFO_MAGIC contents of
       None \<Rightarrow> Some []
     | Some (_, after_magic) \<Rightarrow>
        if length after_magic < 2 then Some []
        else if byte (after_magic ! 1) div 2 mod 2 = 0 then Some []
        else (case read_uvarint_string (drop 2 after_magic) of
          None \<Rightarrow> None
        | Some None \<Rightarrow> Some []
        | Some (Some (_, rest)) \<Rightarrow> (case read_uvarint_string rest of
            None \<Rightarrow> None
          | Some None \<Rightarrow> Some []
          | Some (Some (modinfo, _)) \<Rightarrow> Some (parse_modinfo layer modinfo)))))"

section \<open>Dispatch\<close>

definition is_likely_binary_path :: "string \<Rightarrow> bool" where
  "is_likely_binary_path p \<longleftrightarrow> starts_with ''app/'' p \<or> starts_with ''usr/local/bin/'' p \<or> starts_with ''usr/bin/'' p \<or>
     starts_with ''go/bin/'' p \<or> starts_with ''bin/'' p"

definition dispatch :: "sbom_crates \<Rightarrow> string \<Rightarrow> string \<Rightarrow> bytes \<Rightarrow> package list option" where
  "dispatch C layer p contents =
    (if p = ''var/lib/dpkg/status'' \<or> ends_with ''/dpkg/status'' p then Some (dpkg_parse layer contents)
     else if p = ''lib/apk/db/installed'' \<or> ends_with ''/apk/db/installed'' p then Some (apk_db_parse layer contents)
     else if ends_with ''var/lib/rpm/Packages'' p \<or> ends_with ''var/lib/rpm/rpmdb.sqlite'' p then rpm_parse layer contents
     else if ends_with ''package-lock.json'' p \<or> ends_with ''npm-shrinkwrap.json'' p then Some (npm_parse C layer contents)
     else if ends_with ''Cargo.lock'' p then Some (cargo_parse C layer contents)
     else if ends_with ''requirements.txt'' p \<or> ends_with ''.dist-info/METADATA'' p \<or> ends_with ''.egg-info/PKG-INFO'' p
     then Some (pypi_parse layer p contents)
     else if ends_with ''go.sum'' p then Some (go_sum_parse layer contents)
     else if is_likely_binary_path p \<and> looks_like_binary contents then binary_parse layer contents
     else Some [])"

section \<open>The RPM scan stays in range\<close>

lemma slice_eq: "i \<le> j \<Longrightarrow> j \<le> length xs \<Longrightarrow> slice i j xs = Some (take (j - i) (drop i xs))"
  by (simp add: slice_def)

lemma chunks16_length: "c \<in> set (chunks16 xs) \<Longrightarrow> length c = 16"
  by (induction xs rule: chunks16.induct) (subst (asm) (2) chunks16.simps, auto split: if_splits)

lemma rpm_entry_total: "length c = 16 \<Longrightarrow> rpm_entry data c f \<noteq> None"
  by (auto simp: rpm_entry_def slice_eq read_be_u32_def)

lemma rpm_entries_total: "\<forall>c \<in> set cs. length c = 16 \<Longrightarrow> rpm_entries data cs f \<noteq> None"
  by (induction cs arbitrary: f) (auto split: option.splits simp: rpm_entry_total)

lemma parse_header_total: "parse_header bs = None \<longleftrightarrow> False"
  using rpm_entries_total chunks16_length
  by (auto simp: parse_header_def Let_def slice_eq read_be_u32_def split: option.splits)

lemma rpm_scan_total: "\<exists>ps. rpm_scan layer seen rest = Some ps"
proof (induction layer seen rest rule: rpm_scan.induct)
  case (1 layer seen rest)
  show ?case
    by (subst rpm_scan.simps) (use 1 in \<open>auto simp: Let_def parse_header_total split: option.splits\<close>)
qed

section \<open>Reading back what a package manager wrote\<close>

subsection \<open>RPM\<close>

text \<open>
  A header as \<open>rpm\<close> stores it: an index of entries (tag, type, offset, count) in any order and
  with any other tags among them, then the data store. What the index says of the package is
  \<open>string_tag\<close> and \<open>epoch_tag\<close>; the architecture and the epoch may be missing.
\<close>

record rpm_desc =
  rd_name :: string
  rd_version :: string
  rd_release :: string
  rd_epoch :: "nat option"
  rd_arch :: "string option"
  rd_index :: "(nat \<times> nat \<times> nat \<times> nat) list"
  rd_store :: bytes

definition be4 :: "nat \<Rightarrow> bytes" where
  "be4 n = map char_of [n div 2 ^ 24 mod 256, n div 2 ^ 16 mod 256, n div 2 ^ 8 mod 256, n mod 256]"

definition index_entry :: "nat \<times> nat \<times> nat \<times> nat \<Rightarrow> bytes" where
  "index_entry = (\<lambda>(tag, ty, off, n). be4 tag @ be4 ty @ be4 off @ be4 n)"

definition c_string :: "string \<Rightarrow> bytes" where
  "c_string s = s @ [CHR 0x00]"

definition rpm_header :: "rpm_desc \<Rightarrow> bytes" where
  "rpm_header d = HEADER_MAGIC @ be4 (length (rd_index d)) @ be4 (length (rd_store d)) @
     concat (map index_entry (rd_index d)) @ rd_store d"

definition rpm_string_ok :: "string \<Rightarrow> bool" where
  "rpm_string_ok s \<longleftrightarrow> utf8_ok s \<and> CHR 0x00 \<notin> set s"

definition tag_entries :: "rpm_desc \<Rightarrow> nat \<Rightarrow> nat \<Rightarrow> (nat \<times> nat \<times> nat \<times> nat) list" where
  "tag_entries d tag ty = filter (\<lambda>(t, y, off, n). t = tag \<and> y = ty) (rd_index d)"

definition string_tag :: "rpm_desc \<Rightarrow> nat \<Rightarrow> string option \<Rightarrow> bool" where
  "string_tag d tag v = (case v of
     None \<Rightarrow> tag_entries d tag 6 = []
   | Some s \<Rightarrow> rpm_string_ok s \<and> tag_entries d tag 6 \<noteq> [] \<and>
       list_all (\<lambda>(t, y, off, n). take (length s + 1) (drop off (rd_store d)) = c_string s) (tag_entries d tag 6))"

definition epoch_tag :: "rpm_desc \<Rightarrow> bool" where
  "epoch_tag d = (case rd_epoch d of
     None \<Rightarrow> tag_entries d 1003 4 = []
   | Some e \<Rightarrow> e < 2 ^ 32 \<and> tag_entries d 1003 4 \<noteq> [] \<and>
       list_all (\<lambda>(t, y, off, n). 1 \<le> n \<and> take 4 (drop off (rd_store d)) = be4 e) (tag_entries d 1003 4))"

definition entry_ok :: "rpm_desc \<Rightarrow> nat \<times> nat \<times> nat \<times> nat \<Rightarrow> bool" where
  "entry_ok d = (\<lambda>(tag, ty, off, n). tag < 2 ^ 32 \<and> ty < 2 ^ 32 \<and> off < length (rd_store d) \<and> n < 2 ^ 32)"

definition rpm_desc_ok :: "rpm_desc \<Rightarrow> bool" where
  "rpm_desc_ok d \<longleftrightarrow> rd_index d \<noteq> [] \<and> length (rd_index d) \<le> 10000 \<and> length (rd_store d) < 2 ^ 32 \<and>
     list_all (entry_ok d) (rd_index d) \<and> string_tag d 1000 (Some (rd_name d)) \<and>
     string_tag d 1001 (Some (rd_version d)) \<and> string_tag d 1002 (Some (rd_release d)) \<and>
     string_tag d 1022 (rd_arch d) \<and> epoch_tag d"

text \<open>The package URL carries the epoch, unless it is zero, and the architecture; the version has neither.\<close>

definition rpm_expected :: "string \<Rightarrow> rpm_desc \<Rightarrow> package" where
  "rpm_expected layer d =
    (let evr = rd_version d @ ''-'' @ rd_release d;
         ep = (case rd_epoch d of None \<Rightarrow> [] | Some e \<Rightarrow> if e = 0 then [] else show_nat e @ '':'');
         ar = (case rd_arch d of None \<Rightarrow> [] | Some a \<Rightarrow> ''.'' @ a) in
     \<lparr>pkg_name = rd_name d, pkg_version = evr, pkg_ecosystem = ''rpm'',
      purl = ''pkg:rpm/'' @ rd_name d @ ''@'' @ ep @ evr @ ar, pkg_layer_digest = Some layer\<rparr>)"

definition rpm_key :: "rpm_desc \<Rightarrow> string \<times> string" where
  "rpm_key d = (rd_name d, rd_version d @ ''-'' @ rd_release d)"

definition rpm_db :: "(bytes \<times> rpm_desc) list \<Rightarrow> bytes \<Rightarrow> bytes" where
  "rpm_db items rest = concat (map (\<lambda>(g, d). g @ rpm_header d) items) @ rest"

text \<open>The elements whose key no earlier element has.\<close>

definition first_of_each :: "('a \<Rightarrow> 'k) \<Rightarrow> 'a list \<Rightarrow> 'a list" where
  "first_of_each f xs = map (nth xs) (filter (\<lambda>i. f (xs ! i) \<notin> f ` set (take i xs)) [0..<length xs])"

lemma byte_char_of [simp]: "byte (char_of n) = n mod 256"
  by (simp add: byte_def)

lemma length_be4 [simp]: "length (be4 n) = 4"
  by (simp add: be4_def)

lemma be_val_be4: "n < 2 ^ 32 \<Longrightarrow> be_val (be4 n) = n"
proof -
  assume n: "n < 2 ^ 32"
  have "n = 256 * (n div 256) + n mod 256" by simp
  moreover have "n div 256 = 256 * (n div 2 ^ 16) + n div 256 mod 256"
    using mult_div_mod_eq [of 256 "n div 256"] by (simp add: div_mult2_eq [symmetric])
  moreover have "n div 2 ^ 16 = 256 * (n div 2 ^ 24) + n div 2 ^ 16 mod 256"
    using mult_div_mod_eq [of 256 "n div 2 ^ 16"] by (simp add: div_mult2_eq [symmetric])
  moreover have "n div 2 ^ 24 mod 256 = n div 2 ^ 24"
    using n by (simp add: less_mult_imp_div_less)
  moreover have "be_val (be4 n) = 16777216 * (n div 2 ^ 24 mod 256) + 65536 * (n div 2 ^ 16 mod 256) +
      256 * (n div 256 mod 256) + n mod 256"
    by (simp add: be_val_def be4_def)
  ultimately show ?thesis
    by linarith
qed

lemma read_be4 [simp]: "n < 2 ^ 32 \<Longrightarrow> read_be_u32 (be4 n) = Some n"
  by (simp add: read_be_u32_def be_val_be4)

lemma length_index_entry [simp]: "length (index_entry x) = 16"
  by (simp add: index_entry_def split_beta)

lemma index_entry_slices:
  "slice 0 4 (index_entry (tag, ty, off, n)) = Some (be4 tag)" "slice 4 8 (index_entry (tag, ty, off, n)) = Some (be4 ty)"
  "slice 8 12 (index_entry (tag, ty, off, n)) = Some (be4 off)" "slice 12 16 (index_entry (tag, ty, off, n)) = Some (be4 n)"
  by (simp_all add: slice_def index_entry_def)

lemma chunks16_concat: "\<forall>c \<in> set cs. length c = 16 \<Longrightarrow> chunks16 (concat cs) = cs"
  by (induction cs) (simp_all add: chunks16.simps [of "_ @ _"] chunks16.simps [of "[]"])

lemma read_cstring_c_string: "rpm_string_ok s \<Longrightarrow> read_cstring (c_string s @ r) = Some s"
  by (simp add: read_cstring_def c_string_def rpm_string_ok_def split_once_append from_utf8_def)

lemma read_cstring_take:
  assumes "rpm_string_ok s" "take (length s + 1) x = c_string s"
  shows "read_cstring x = Some s"
  using read_cstring_c_string [OF assms(1), of "drop (length s + 1) x"] append_take_drop_id [of "length s + 1" x]
  by (simp only: assms(2))

text \<open>What one entry of a well-formed index contributes.\<close>

definition field_of :: "rpm_desc \<Rightarrow> nat \<times> nat \<times> nat \<times> nat \<Rightarrow> rpm_fields \<Rightarrow> rpm_fields" where
  "field_of d = (\<lambda>(tag, ty, off, n) f.
     if tag = 1000 \<and> ty = 6 then f\<lparr>rf_name := Some (rd_name d)\<rparr>
     else if tag = 1001 \<and> ty = 6 then f\<lparr>rf_version := Some (rd_version d)\<rparr>
     else if tag = 1002 \<and> ty = 6 then f\<lparr>rf_release := Some (rd_release d)\<rparr>
     else if tag = 1022 \<and> ty = 6 then f\<lparr>rf_arch := rd_arch d\<rparr>
     else if tag = 1003 \<and> ty = 4 then f\<lparr>rf_epoch := rd_epoch d\<rparr> else f)"

lemma string_tagD:
  assumes "string_tag d tag v" "(tag, 6, off, n) \<in> set (rd_index d)"
  shows "read_cstring (drop off (rd_store d)) = v"
proof -
  have e: "(tag, 6, off, n) \<in> set (tag_entries d tag 6)"
    using assms(2) by (simp add: tag_entries_def)
  then obtain s where "v = Some s"
    using assms(1) by (cases v) (auto simp: string_tag_def)
  with assms(1) e show ?thesis
    by (auto simp: string_tag_def list_all_iff intro!: read_cstring_take)
qed

lemma epoch_tagD:
  assumes "epoch_tag d" "(1003, 4, off, n) \<in> set (rd_index d)"
  shows "\<exists>e. rd_epoch d = Some e \<and> e < 2 ^ 32 \<and> 1 \<le> n \<and> take 4 (drop off (rd_store d)) = be4 e"
proof -
  have e: "(1003, 4, off, n) \<in> set (tag_entries d 1003 4)"
    using assms(2) by (simp add: tag_entries_def)
  then obtain x where "rd_epoch d = Some x"
    using assms(1) by (cases "rd_epoch d") (auto simp: epoch_tag_def)
  with assms(1) e show ?thesis
    by (auto simp: epoch_tag_def list_all_iff)
qed

lemma rpm_entry_index:
  assumes ok: "rpm_desc_ok d" and x: "x \<in> set (rd_index d)"
  shows "rpm_entry (rd_store d) (index_entry x) f = Some (Some (field_of d x f))"
proof -
  obtain tag ty off n where xe: "x = (tag, ty, off, n)"
    by (cases x)
  have bounds: "tag < 2 ^ 32" "ty < 2 ^ 32" "off < length (rd_store d)" "n < 2 ^ 32" "length (rd_store d) < 2 ^ 32"
    using ok x by (auto simp: xe rpm_desc_ok_def list_all_iff entry_ok_def)
  have reads: "read_be_u32 (be4 tag) = Some tag" "read_be_u32 (be4 ty) = Some ty" "read_be_u32 (be4 off) = Some off"
    "read_be_u32 (be4 n) = Some n"
    using bounds less_trans [OF bounds(3,5)] by simp_all
  have sl: "slice off (length (rd_store d)) (rd_store d) = Some (drop off (rd_store d))" "\<not> length (rd_store d) \<le> off"
    using bounds(3) by (simp_all add: slice_def)
  have strings: "tag = 1000 \<and> ty = 6 \<Longrightarrow> read_cstring (drop off (rd_store d)) = Some (rd_name d)"
    "tag = 1001 \<and> ty = 6 \<Longrightarrow> read_cstring (drop off (rd_store d)) = Some (rd_version d)"
    "tag = 1002 \<and> ty = 6 \<Longrightarrow> read_cstring (drop off (rd_store d)) = Some (rd_release d)"
    "tag = 1022 \<and> ty = 6 \<Longrightarrow> read_cstring (drop off (rd_store d)) = rd_arch d"
    using ok x string_tagD [of d tag _ off n] by (auto simp: rpm_desc_ok_def xe)
  have epoch: "1 \<le> n \<and> off + 4 \<le> length (rd_store d) \<and> (\<exists>e. rd_epoch d = Some e \<and>
      slice off (off + 4) (rd_store d) = Some (be4 e) \<and> read_be_u32 (be4 e) = Some e)" if t: "tag = 1003 \<and> ty = 4"
  proof -
    obtain e where e: "rd_epoch d = Some e" "e < 2 ^ 32" "1 \<le> n" "take 4 (drop off (rd_store d)) = be4 e"
      using epoch_tagD [of d off n] ok x t by (auto simp: rpm_desc_ok_def xe)
    have "min (length (rd_store d) - off) 4 = 4"
      using arg_cong [OF e(4), of length] by simp
    then have "off + 4 \<le> length (rd_store d)"
      by linarith
    with e show ?thesis by (simp add: slice_def)
  qed
  note entry = rpm_entry_def xe index_entry_slices field_of_def prod.case option.case reads sl if_False
  show ?thesis
  proof (cases "tag = 1003 \<and> ty = 4")
    case True
    then obtain e where e: "1 \<le> n" "off + 4 \<le> length (rd_store d)" "rd_epoch d = Some e"
      "slice off (off + 4) (rd_store d) = Some (be4 e)" "read_be_u32 (be4 e) = Some e"
      using epoch by blast
    then show ?thesis
      using True sl(2) unfolding entry by simp
  next
    case False
    then show ?thesis
      using strings sl(2) unfolding entry by (cases "ty = 6") auto
  qed
qed

lemma rpm_entries_index:
  "rpm_desc_ok d \<Longrightarrow> set xs \<subseteq> set (rd_index d) \<Longrightarrow>
    rpm_entries (rd_store d) (map index_entry xs) f = Some (Some (fold (field_of d) xs f))"
  by (induction xs arbitrary: f) (auto simp: rpm_entry_index)

lemma fields_fold:
  "rf_name (fold (field_of d) xs f) = (if filter (\<lambda>(t, y, off, n). t = 1000 \<and> y = 6) xs = [] then rf_name f else Some (rd_name d))"
  "rf_version (fold (field_of d) xs f) = (if filter (\<lambda>(t, y, off, n). t = 1001 \<and> y = 6) xs = [] then rf_version f else Some (rd_version d))"
  "rf_release (fold (field_of d) xs f) = (if filter (\<lambda>(t, y, off, n). t = 1002 \<and> y = 6) xs = [] then rf_release f else Some (rd_release d))"
  "rf_arch (fold (field_of d) xs f) = (if filter (\<lambda>(t, y, off, n). t = 1022 \<and> y = 6) xs = [] then rf_arch f else rd_arch d)"
  "rf_epoch (fold (field_of d) xs f) = (if filter (\<lambda>(t, y, off, n). t = 1003 \<and> y = 4) xs = [] then rf_epoch f else rd_epoch d)"
  by (induction xs arbitrary: f) (auto simp: field_of_def split_beta)

lemma rpm_index_read:
  assumes "rpm_desc_ok d"
  shows "rpm_entries (rd_store d) (map index_entry (rd_index d))
      \<lparr>rf_name = None, rf_version = None, rf_release = None, rf_epoch = None, rf_arch = None\<rparr> =
    Some (Some \<lparr>rf_name = Some (rd_name d), rf_version = Some (rd_version d), rf_release = Some (rd_release d),
      rf_epoch = rd_epoch d, rf_arch = rd_arch d\<rparr>)"
proof -
  have "tag_entries d 1000 6 \<noteq> []" "tag_entries d 1001 6 \<noteq> []" "tag_entries d 1002 6 \<noteq> []"
    "tag_entries d 1022 6 = [] \<Longrightarrow> rd_arch d = None" "tag_entries d 1003 4 = [] \<Longrightarrow> rd_epoch d = None"
    using assms by (auto simp: rpm_desc_ok_def string_tag_def epoch_tag_def split: option.splits)
  then show ?thesis
    unfolding rpm_entries_index [OF assms subset_refl] tag_entries_def
    by (intro arg_cong [where f = "\<lambda>r. Some (Some r)"] rpm_fields.equality) (simp_all add: fields_fold)
qed

lemma parse_rpm_header:
  assumes ok: "rpm_desc_ok d"
  shows "parse_header (rpm_header d @ rest) = Some (Some (length (rpm_header d),
    \<lparr>ph_name = rd_name d, ph_version = rd_version d @ ''-'' @ rd_release d,
     ph_full_version = rpm_full_version (rd_epoch d) (rd_arch d) (rd_version d) (rd_release d)\<rparr>))"
proof -
  have magic: "length HEADER_MAGIC = 8"
    by (simp add: HEADER_MAGIC_def)
  have idx: "length (concat (map index_entry xs)) = 16 * length xs" for xs
    by (induction xs) simp_all
  have bounds: "length (rd_index d) \<le> 10000" "rd_index d \<noteq> []" "length (rd_store d) < 2 ^ 32"
    using ok by (simp_all add: rpm_desc_ok_def)
  have "chunks16 (concat (map index_entry (rd_index d))) = map index_entry (rd_index d)"
    by (rule chunks16_concat) auto
  then show ?thesis
    using magic idx [of "rd_index d"] bounds rpm_index_read [OF ok]
    by (simp add: parse_header_def rpm_header_def slice_def Let_def header_of_def)
qed

lemma rpm_package_expected:
  "rpm_package layer \<lparr>ph_name = rd_name d, ph_version = rd_version d @ CHR ''-'' # rd_release d,
     ph_full_version = rpm_full_version (rd_epoch d) (rd_arch d) (rd_version d) (rd_release d)\<rparr> = rpm_expected layer d"
  by (simp add: rpm_package_def rpm_expected_def rpm_full_version_def Let_def split: option.split)

text \<open>The magic starts with a byte it does not have again, so it cannot straddle the end of a gap.\<close>

lemma magic_no_border:
  assumes "strip_prefix HEADER_MAGIC (c # g) = None"
  shows "strip_prefix HEADER_MAGIC (c # g @ HEADER_MAGIC @ y) = None"
proof (rule ccontr)
  assume "strip_prefix HEADER_MAGIC (c # g @ HEADER_MAGIC @ y) \<noteq> None"
  then obtain r where "strip_prefix HEADER_MAGIC (c # g @ HEADER_MAGIC @ y) = Some r"
    by blast
  then have "(c # g) @ HEADER_MAGIC @ y = HEADER_MAGIC @ r"
    by (simp add: strip_prefix_iff)
  then consider us where "c # g = HEADER_MAGIC @ us" | us where "HEADER_MAGIC = (c # g) @ us" "HEADER_MAGIC @ y = us @ r"
    unfolding append_eq_append_conv2 by metis
  then show False
  proof cases
    case 1
    then show ?thesis
      using assms by (simp only: strip_prefix_append option.distinct)
  next
    case 2
    have us: "set us \<subseteq> set (tl HEADER_MAGIC)"
      by (simp add: 2(1))
    show ?thesis
    proof (cases us)
      case Nil
      then show ?thesis
        using 2(1) assms strip_prefix_append [of HEADER_MAGIC "[]"] by simp
    next
      case (Cons x xs)
      then have "x = CHR 0x8E"
        using arg_cong [OF 2(2), of hd] by (simp add: HEADER_MAGIC_def)
      moreover have "x \<in> set (tl HEADER_MAGIC)"
        using us Cons by auto
      ultimately show ?thesis
        by (simp add: HEADER_MAGIC_def)
    qed
  qed
qed

lemma find_magic: "find_str HEADER_MAGIC g = None \<Longrightarrow> find_str HEADER_MAGIC (g @ HEADER_MAGIC @ y) = Some (g, y)"
proof (induction g)
  case Nil
  then show ?case by (simp add: HEADER_MAGIC_def)
next
  case (Cons c g)
  then have "strip_prefix HEADER_MAGIC (c # g) = None" "find_str HEADER_MAGIC g = None"
    by (auto split: option.splits)
  with Cons.IH show ?case
    using magic_no_border by simp
qed

lemma rpm_scan_header:
  assumes "find_str HEADER_MAGIC g = None" "rpm_desc_ok d"
  shows "rpm_scan layer seen (g @ rpm_header d @ rest) =
    (if rpm_key d \<in> seen then rpm_scan layer seen rest
     else map_option (Cons (rpm_expected layer d)) (rpm_scan layer (insert (rpm_key d) seen) rest))"
proof -
  obtain y where y: "rpm_header d @ rest = HEADER_MAGIC @ y"
    by (simp add: rpm_header_def)
  have "find_str HEADER_MAGIC (g @ rpm_header d @ rest) = Some (g, y)"
    unfolding y by (rule find_magic [OF assms(1)])
  then show ?thesis
    by (subst rpm_scan.simps) (simp add: Let_def parse_rpm_header [OF assms(2)] rpm_package_expected rpm_key_def)
qed

definition first_unseen :: "('a \<Rightarrow> 'k) \<Rightarrow> 'k set \<Rightarrow> 'a list \<Rightarrow> 'a list" where
  "first_unseen f seen xs = map (nth xs) (filter (\<lambda>i. f (xs ! i) \<notin> seen \<union> f ` set (take i xs)) [0..<length xs])"

lemma first_unseen_simps:
  "first_unseen f seen [] = []"
  "first_unseen f seen (x # xs) = (if f x \<in> seen then first_unseen f seen xs else x # first_unseen f (insert (f x) seen) xs)"
proof -
  have upt: "[0..<length (x # xs)] = 0 # map Suc [0..<length xs]"
    by (simp add: map_Suc_upt upt_conv_Cons del: upt_Suc)
  show "first_unseen f seen (x # xs) = (if f x \<in> seen then first_unseen f seen xs else x # first_unseen f (insert (f x) seen) xs)"
    unfolding first_unseen_def upt by (auto simp: filter_map comp_def insert_absorb intro!: arg_cong [where f = "map _"] filter_cong)
qed (simp add: first_unseen_def)

lemma rpm_scan_db:
  assumes "list_all (\<lambda>(g, d). find_str HEADER_MAGIC g = None \<and> rpm_desc_ok d) items" "find_str HEADER_MAGIC rest = None"
  shows "rpm_scan layer seen (rpm_db items rest) =
    Some (map (rpm_expected layer) (first_unseen rpm_key seen (map snd items)))"
  using assms(1)
proof (induction items arbitrary: seen)
  case Nil
  then show ?case
    by (subst rpm_scan.simps) (simp add: rpm_db_def assms(2) first_unseen_simps)
next
  case (Cons x items)
  obtain g d where x: "x = (g, d)" by fastforce
  have "rpm_scan layer seen (rpm_db (x # items) rest) =
     (if rpm_key d \<in> seen then rpm_scan layer seen (rpm_db items rest)
      else map_option (Cons (rpm_expected layer d)) (rpm_scan layer (insert (rpm_key d) seen) (rpm_db items rest)))"
    using rpm_scan_header [of g d layer seen "rpm_db items rest"] Cons.prems by (simp add: x rpm_db_def)
  then show ?case
    using Cons by (simp add: x first_unseen_simps)
qed

text \<open>C17. The RPM database reader finds every installed package wherever its header lies: in a file
  made of well-formed headers, with any bytes between them that do not contain the header magic,
  it reports those packages in order, of several headers with the same name and
  version-release only the first; and it never panics on any file. A well-formed header has
  at most 10000 index entries in any order and among any other tags, with strings for the name, the
  version and the release and possibly an architecture and an epoch. The version reported leaves
  out the epoch.\<close>

theorem rpm_db_roundtrip:
  "(\<exists>ps. rpm_parse layer contents = Some ps) \<and>
   (list_all (\<lambda>(g, d). find_str HEADER_MAGIC g = None \<and> rpm_desc_ok d) items \<longrightarrow> find_str HEADER_MAGIC rest = None \<longrightarrow>
    rpm_parse layer (rpm_db items rest) = Some (map (rpm_expected layer) (first_of_each rpm_key (map snd items))))"
  using rpm_scan_total [of layer "{}" contents] rpm_scan_db [of items rest layer "{}"]
  by (simp add: rpm_parse_def first_unseen_def first_of_each_def)

definition demo_rpm :: rpm_desc where
  "demo_rpm = \<lparr>rd_name = ''bind'', rd_version = ''9.11.4'', rd_release = ''16.el7'', rd_epoch = Some 1,
     rd_arch = Some ''x86_64'', rd_index = [(63, 7, 0, 16), (1003, 4, 31, 1), (1000, 6, 0, 1), (1001, 6, 5, 1),
       (1002, 6, 12, 1), (1022, 6, 19, 1), (1044, 6, 26, 1)],
     rd_store = c_string ''bind'' @ c_string ''9.11.4'' @ c_string ''16.el7'' @ c_string ''x86_64'' @
       c_string ''srpm'' @ be4 1\<rparr>"

lemma demo_rpm_ok: "rpm_desc_ok demo_rpm"
proof -
  have ok: "rpm_string_ok s" if "ascii s" "CHR 0x00 \<notin> set s" for s
    using that by (simp add: rpm_string_ok_def utf8_ok_def utf8_chars_ascii list_all_iff)
  have "ascii ''bind''" "ascii ''9.11.4''" "ascii ''16.el7''" "ascii ''x86_64''"
    by code_simp+
  then have "rpm_string_ok ''bind''" "rpm_string_ok ''9.11.4''" "rpm_string_ok ''16.el7''" "rpm_string_ok ''x86_64''"
    by (simp_all add: ok)
  then show ?thesis
    by (simp add: rpm_desc_ok_def string_tag_def epoch_tag_def entry_ok_def tag_entries_def demo_rpm_def c_string_def be4_def)
qed

theorem rpm_db_roundtrip_witness:
  "rpm_parse ''l'' (rpm_db [(''junk'', demo_rpm), ([CHR 0x8E], demo_rpm)] ''more'') =
    Some [\<lparr>pkg_name = ''bind'', pkg_version = ''9.11.4-16.el7'', pkg_ecosystem = ''rpm'',
      purl = ''pkg:rpm/bind@1:9.11.4-16.el7.x86_64'', pkg_layer_digest = Some ''l''\<rparr>]"
proof -
  have "find_str HEADER_MAGIC ''junk'' = None" "find_str HEADER_MAGIC [CHR 0x8E] = None"
    "find_str HEADER_MAGIC ''more'' = None" "show_nat 1 = ''1''"
    by code_simp+
  then show ?thesis
    using rpm_db_roundtrip [of "''l''" "[]" "[(''junk'', demo_rpm), ([CHR 0x8E], demo_rpm)]" "''more''"] demo_rpm_ok
    by (simp add: first_of_each_def rpm_expected_def demo_rpm_def)
qed

subsection \<open>Epochs\<close>

lemma digit_plain: "is_ascii_digit c \<Longrightarrow> \<not> rpm_sep c \<and> c \<noteq> CHR ''~'' \<and> c \<noteq> CHR ''^''"
  by (auto simp: rpm_sep_def is_ascii_alphanumeric_def is_ascii_digit_def less_eq_char_def)

lemma rpm_compare_first_number:
  assumes a: "list_all is_ascii_digit (c # ds)" "v = [] \<or> \<not> is_ascii_digit (hd v)"
    and b: "list_all is_ascii_digit (e # es)" "w = [] \<or> \<not> is_ascii_digit (hd w)"
    and gt: "digits_val (e # es) < digits_val (c # ds)"
  shows "rpm_compare (c # ds @ v) (e # es @ w) = Inr Greater"
proof -
  let ?a = "c # ds @ v" and ?b = "e # es @ w"
  have run: "takeWhile is_ascii_digit (x # xs @ y) = x # xs"
    if "list_all is_ascii_digit (x # xs)" "y = [] \<or> \<not> is_ascii_digit (hd y)" for x xs y
    using that by (cases y) (auto simp: takeWhile_append list_all_iff)
  have ra: "rpm_run ?a = c # ds" and rb: "rpm_run ?b = e # es"
    using a b run [OF a] run [OF b] by (simp_all add: rpm_run_def)
  have "?a \<noteq> ?b"
  proof
    assume "?a = ?b"
    then have "rpm_run ?a = rpm_run ?b" by (rule arg_cong)
    then show False using gt unfolding ra rb by simp
  qed
  have "rpm_loop ?a ?b = rpm_step (dropWhile rpm_sep ?a) (dropWhile rpm_sep ?b)"
    using a(1) b(1) digit_plain [of c] digit_plain [of e] by (intro rpm_loop_plain) (auto simp: first_byte_def)
  also have "\<dots> = rpm_step ?a ?b"
    using a(1) b(1) digit_plain [of c] digit_plain [of e] by simp
  also have "\<dots> = Greater"
    using a(1) b(1) digit_plain [of c] digit_plain [of e] gt
    by (simp add: rpm_step_def ra rb rpm_seg_cmp_numeric)
  finally show ?thesis
    using \<open>?a \<noteq> ?b\<close> by (simp add: rpm_compare_def rpmvercmp_def)
qed

lemma show_nat_digits: "show_nat n \<noteq> [] \<and> list_all is_ascii_digit (show_nat n) \<and> digits_val (show_nat n) = n"
proof (induction n rule: show_nat.induct)
  case (1 n)
  have digit: "is_ascii_digit (char_of (48 + k)) \<and> digit_val (char_of (48 + k)) = k" if "k < 10" for k :: nat
    using that by (auto simp: is_ascii_digit_def digit_val_def less_eq_char_def)
  show ?case
  proof (cases "n < 10")
    case True
    then show ?thesis
      using digit [of n] by (subst (1 2 3) show_nat.simps) (simp add: digits_val_Cons)
  next
    case False
    then show ?thesis
      using 1 digit [of "n mod 10"] by (subst (1 2 3) show_nat.simps) (simp add: digits_val_snoc)
  qed
qed

text \<open>C18. Epochs are lost between the database and the matcher: the version reported for an RPM has no
  epoch, and the comparator takes the epoch of an advisory for the first number of a
  version. When the version of a package starts with a number above its own epoch, no advisory
  fixed in a version of that epoch matches what the reader reports, however old the package.\<close>

theorem rpm_epoch_hides_finding:
  assumes "rpm_desc_ok d" "rd_epoch d = Some n"
    and "rd_version d = c # ds @ v" "list_all is_ascii_digit (c # ds)" "v = [] \<or> \<not> is_ascii_digit (hd v)"
    and "n < digits_val (c # ds)"
  shows "\<exists>p. rpm_parse layer (rpm_header d) = Some [p] \<and> pkg_name p = rd_name d \<and>
    pkg_version p = rd_version d @ ''-'' @ rd_release d \<and>
    (\<forall>row w. fixed row = Some (show_nat n @ '':'' @ w) \<longrightarrow> \<not> in_range rpm_compare (pkg_version p) row)"
proof (intro exI conjI allI impI)
  have "find_str HEADER_MAGIC [] = None"
    by code_simp
  then show "rpm_parse layer (rpm_header d) = Some [rpm_expected layer d]"
    using rpm_scan_db [of "[([], d)]" "[]" layer "{}"] assms(1)
    by (simp add: rpm_parse_def rpm_db_def first_unseen_simps)
  fix row :: "'f query_row" and w
  assume row: "fixed row = Some (show_nat n @ '':'' @ w)"
  obtain e es where e: "show_nat n = e # es"
    using show_nat_digits [of n] by (cases "show_nat n") auto
  have "rpm_compare (c # ds @ (v @ ''-'' @ rd_release d)) (e # es @ ('':'' @ w)) = Inr Greater"
    by (rule rpm_compare_first_number)
      (use assms(4-6) show_nat_digits [of n] e in \<open>auto simp: hd_append is_ascii_digit_def less_eq_char_def\<close>)
  then show "\<not> in_range rpm_compare (pkg_version (rpm_expected layer d)) row"
    using assms(3) row by (simp add: in_range_def rpm_expected_def e)
qed (simp_all add: rpm_expected_def)

theorem rpm_epoch_hides_finding_witness:
  "\<exists>p. rpm_parse ''l'' (rpm_header demo_rpm) = Some [p] \<and>
    in_range rpm_compare (pkg_version p) (demo_range\<lparr>fixed := Some ''9.16.23-1''\<rparr>) \<and>
    \<not> in_range rpm_compare (pkg_version p) (demo_range\<lparr>fixed := Some ''1:9.16.23-1''\<rparr>)"
proof -
  have show1: "show_nat 1 = ''1''"
    and facts: "is_ascii_digit (CHR ''9'')" "\<not> is_ascii_digit (CHR ''.'')" "1 < digits_val ''9''"
    by code_simp+
  have old: "in_range rpm_compare ''9.11.4-16.el7'' (demo_range\<lparr>fixed := Some ''9.16.23-1''\<rparr>)"
    by code_simp
  have d: "rd_epoch demo_rpm = Some 1" "rd_version demo_rpm = CHR ''9'' # [] @ ''.11.4''"
    "rd_version demo_rpm @ ''-'' @ rd_release demo_rpm = ''9.11.4-16.el7''"
    by (simp_all add: demo_rpm_def)
  obtain p where p: "rpm_parse ''l'' (rpm_header demo_rpm) = Some [p]" "pkg_version p = ''9.11.4-16.el7''"
    "\<forall>(row :: nat query_row) w. fixed row = Some (show_nat 1 @ '':'' @ w) \<longrightarrow> \<not> in_range rpm_compare (pkg_version p) row"
    using rpm_epoch_hides_finding [OF demo_rpm_ok d(1,2), of "''l''"] facts d(3) by auto
  then show ?thesis
    using old show1 by (intro exI [of _ p]) simp
qed

subsection \<open>dpkg\<close>

text \<open>
  The status file as \<open>dpkg\<close> writes it: per package a paragraph of lines, then a blank line.
  The lines come in any order; any number of other fields and continuation lines may stand
  among the three the reader looks at.
\<close>

datatype dpkg_item = PackageLine string | VersionLine string | StatusLine "string list" | OtherLine string

fun join_with :: "char \<Rightarrow> string list \<Rightarrow> string" where
  "join_with c [] = []"
| "join_with c [l] = l"
| "join_with c (l # m # ls) = l @ c # join_with c (m # ls)"

fun item_line :: "dpkg_item \<Rightarrow> string" where
  "item_line (PackageLine n) = ''Package: '' @ n"
| "item_line (VersionLine v) = ''Version: '' @ v"
| "item_line (StatusLine ws) = ''Status: '' @ join_with CHR '' '' ws"
| "item_line (OtherLine l) = l"

definition dpkg_lines :: "dpkg_item list \<Rightarrow> string list" where
  "dpkg_lines e = map item_line e"

definition dpkg_file :: "dpkg_item list list \<Rightarrow> bytes" where
  "dpkg_file es = concat (map (\<lambda>e. join_with LF (dpkg_lines e) @ [LF, LF]) es)"

definition entry_names :: "dpkg_item list \<Rightarrow> string list" where
  "entry_names e = filter_map (\<lambda>i. case i of PackageLine n \<Rightarrow> Some n | _ \<Rightarrow> None) e"

definition entry_versions :: "dpkg_item list \<Rightarrow> string list" where
  "entry_versions e = filter_map (\<lambda>i. case i of VersionLine v \<Rightarrow> Some v | _ \<Rightarrow> None) e"

definition entry_statuses :: "dpkg_item list \<Rightarrow> string list list" where
  "entry_statuses e = filter_map (\<lambda>i. case i of StatusLine ws \<Rightarrow> Some ws | _ \<Rightarrow> None) e"

definition token :: "string \<Rightarrow> bool" where
  "token s \<longleftrightarrow> s \<noteq> [] \<and> ascii s \<and> list_all (\<lambda>c. \<not> is_whitespace c) s"

definition extra_line :: "string \<Rightarrow> bool" where
  "extra_line l \<longleftrightarrow> l \<noteq> [] \<and> LF \<notin> set l \<and> CHR 0x0D \<notin> set l \<and> \<not> starts_with ''Package: '' l \<and>
     \<not> starts_with ''Version: '' l \<and> \<not> starts_with ''Status: '' l"

fun item_ok :: "dpkg_item \<Rightarrow> bool" where
  "item_ok (PackageLine n) = token n"
| "item_ok (VersionLine v) = token v"
| "item_ok (StatusLine ws) = list_all token ws"
| "item_ok (OtherLine l) = extra_line l"

definition dpkg_entry_ok :: "dpkg_item list \<Rightarrow> bool" where
  "dpkg_entry_ok e \<longleftrightarrow> e \<noteq> [] \<and> list_all item_ok e \<and> length (entry_names e) \<le> 1 \<and>
     length (entry_versions e) \<le> 1 \<and> length (entry_statuses e) \<le> 1"

text \<open>What the paragraph says is installed: nothing unless it has all three fields.\<close>

definition installed_as :: "dpkg_item list \<Rightarrow> (string \<times> string) option" where
  "installed_as e = (case (entry_names e, entry_versions e, entry_statuses e) of
     ([n], [v], [ws]) \<Rightarrow> if ''installed'' \<in> set ws then Some (n, v) else None
   | _ \<Rightarrow> None)"

definition line_ok :: "string \<Rightarrow> bool" where
  "line_ok l \<longleftrightarrow> l \<noteq> [] \<and> LF \<notin> set l \<and> CHR 0x0D \<notin> set l"

lemma strip_cr_id: "CHR 0x0D \<notin> set l \<Longrightarrow> strip_cr l = l"
  by (auto simp: strip_cr_def strip_suffix_iff split: option.splits)

lemma text_lines_join: "list_all line_ok ls \<Longrightarrow> text_lines (join_with LF ls) = ls"
proof (induction ls rule: induct_list012)
  case 1
  then show ?case by (simp add: text_lines.simps split_once_def)
next
  case (2 l)
  then have "split_once LF l = None"
    using split_once_Some [of LF l] by (cases "split_once LF l") (fastforce simp: line_ok_def)+
  with 2 show ?case by (subst text_lines.simps) (simp add: line_ok_def)
next
  case (3 l m ls)
  then have "split_once LF (join_with LF (l # m # ls)) = Some (l, join_with LF (m # ls))"
    by (simp add: line_ok_def split_once_append)
  with 3 show ?case by (subst text_lines.simps) (simp add: line_ok_def strip_cr_id)
qed

lemma find_blank_skip:
  "LF \<notin> set l \<Longrightarrow> find_str [LF, LF] (l @ s) = map_option (\<lambda>(a, b). (l @ a, b)) (find_str [LF, LF] s)"
  by (induction l) (auto simp: option.map_comp comp_def split_beta map_option_case split: option.splits)

lemma join_hd: "list_all line_ok (l # ls) \<Longrightarrow> \<exists>c cs. join_with LF (l # ls) = c # cs \<and> c \<noteq> LF"
  by (cases l; cases ls) (auto simp: line_ok_def)

lemma find_blank_join:
  "ls \<noteq> [] \<Longrightarrow> list_all line_ok ls \<Longrightarrow>
    find_str [LF, LF] (join_with LF ls @ LF # LF # rest) = Some (join_with LF ls, rest)"
proof (induction ls rule: induct_list012)
  case (2 l)
  then show ?case by (simp add: line_ok_def find_blank_skip)
next
  case (3 l m ls)
  obtain c cs where c: "join_with LF (m # ls) = c # cs" "c \<noteq> LF"
    using join_hd [of m ls] 3 by auto
  have "find_str [LF, LF] (join_with LF (m # ls) @ LF # LF # rest) = Some (join_with LF (m # ls), rest)"
    using 3 by simp
  then have "find_str [LF, LF] (LF # join_with LF (m # ls) @ LF # LF # rest) = Some (LF # join_with LF (m # ls), rest)"
    using c by simp
  then show ?case
    using 3 find_blank_skip [of l "LF # join_with LF (m # ls) @ LF # LF # rest"] by (simp add: line_ok_def)
qed simp

lemma token_line: "token s \<Longrightarrow> LF \<notin> set s \<and> CHR 0x0D \<notin> set s \<and> CHR '' '' \<notin> set s"
proof -
  assume "token s"
  moreover have "is_whitespace LF" "is_whitespace (CHR 0x0D)" "is_whitespace (CHR '' '')"
    by code_simp+
  ultimately show ?thesis
    unfolding token_def list_all_iff by blast
qed

lemma token_trim: "token s \<Longrightarrow> utf8_trim s = s"
  by (simp add: token_def utf8_trim_ascii list_all_iff trim_id)

lemma words_token:
  "list_all (\<lambda>c. \<not> is_whitespace c) w \<Longrightarrow> words_from acc (map (\<lambda>c. [c]) w @ cs) = words_from (acc @ w) cs"
  by (induction w arbitrary: acc) auto

lemma ascii_append [simp]: "ascii (a @ b) \<longleftrightarrow> ascii a \<and> ascii b"
  by (auto simp: ascii_def)

lemma ascii_join: "ascii [c] \<Longrightarrow> list_all token ws \<Longrightarrow> ascii (join_with c ws)"
  by (induction ws rule: induct_list012) (auto simp: token_def ascii_def)

lemma words_join: "list_all token ws \<Longrightarrow> words_from [] (map (\<lambda>c. [c]) (join_with CHR '' '' ws)) = ws"
proof (induction ws rule: induct_list012)
  case (2 w)
  then show ?case
    using words_token [of w "[]" "[]"] by (simp add: token_def)
next
  case (3 w v ws)
  have "is_whitespace (CHR '' '')" by code_simp
  with 3 show ?case
    using words_token [of w "[]" "[CHR '' ''] # map (\<lambda>c. [c]) (join_with CHR '' '' (v # ws))"] by (simp add: token_def)
qed simp

lemma split_whitespace_join: "list_all token ws \<Longrightarrow> split_whitespace (join_with CHR '' '' ws) = ws"
proof -
  assume ws: "list_all token ws"
  have "ascii '' ''" by code_simp
  then have "map snd (utf8_chars (join_with CHR '' '' ws)) = map (\<lambda>c. [c]) (join_with CHR '' '' ws)"
    using ascii_join [OF _ ws] by (simp add: utf8_chars_ascii comp_def)
  then show ?thesis
    using words_join [OF ws] by (simp add: split_whitespace_def)
qed

lemma join_chars: "x \<in> set (join_with c ws) \<Longrightarrow> x = c \<or> (\<exists>w \<in> set ws. x \<in> set w)"
  by (induction ws rule: induct_list012) auto

lemma item_line_ok: "item_ok i \<Longrightarrow> line_ok (item_line i)"
proof (cases i)
  case (StatusLine ws)
  assume "item_ok i"
  then have "LF \<notin> set (join_with CHR '' '' ws)" "CHR 0x0D \<notin> set (join_with CHR '' '' ws)"
    using join_chars [of _ "CHR '' ''" ws] token_line by (fastforce simp: StatusLine list_all_iff)+
  then show ?thesis
    by (simp add: StatusLine line_ok_def)
qed (auto simp: line_ok_def extra_line_def dest: token_line)

lemma dpkg_lines_ok: "dpkg_entry_ok e \<Longrightarrow> list_all line_ok (dpkg_lines e)"
  by (auto simp: dpkg_entry_ok_def dpkg_lines_def list_all_iff item_line_ok)

lemma dpkg_line_item:
  assumes "item_ok i"
  shows "dpkg_line (item_line i) f = (case i of PackageLine n \<Rightarrow> f\<lparr>dp_name := Some n\<rparr>
    | VersionLine v \<Rightarrow> f\<lparr>dp_version := Some v\<rparr> | StatusLine ws \<Rightarrow> f\<lparr>dp_installed := (''installed'' \<in> set ws)\<rparr>
    | OtherLine l \<Rightarrow> f)"
  using assms by (cases i) (simp_all add: dpkg_line_def token_trim split_whitespace_join extra_line_def flip: strip_prefix_None_iff)

lemma dpkg_fold:
  "list_all item_ok e \<Longrightarrow> fold dpkg_line (dpkg_lines e) f =
    \<lparr>dp_name = last (dp_name f # map Some (entry_names e)), dp_version = last (dp_version f # map Some (entry_versions e)),
     dp_installed = last (dp_installed f # map (\<lambda>ws. ''installed'' \<in> set ws) (entry_statuses e))\<rparr>"
proof (induction e arbitrary: f)
  case Nil
  then show ?case
    by (simp add: dpkg_lines_def entry_names_def entry_versions_def entry_statuses_def)
next
  case (Cons i e)
  then have "fold dpkg_line (dpkg_lines (i # e)) f = fold dpkg_line (dpkg_lines e) (dpkg_line (item_line i) f)"
    by (simp add: dpkg_lines_def)
  then show ?case
    using Cons by (cases i) (simp_all add: dpkg_line_item entry_names_def entry_versions_def entry_statuses_def del: item_line.simps)
qed

lemma at_most_one: "length xs \<le> 1 \<Longrightarrow> xs = [] \<or> (\<exists>x. xs = [x])"
  by (cases xs) auto

lemma dpkg_paragraph_entry:
  assumes "dpkg_entry_ok e"
  shows "dpkg_paragraph layer (join_with LF (dpkg_lines e)) = (case installed_as e of None \<Rightarrow> []
    | Some (n, v) \<Rightarrow> [mk_package ''deb'' ''pkg:deb/debian/'' layer n v])"
proof -
  have "list_all item_ok e"
    using assms by (simp add: dpkg_entry_ok_def)
  moreover have "entry_names e = [] \<or> (\<exists>n. entry_names e = [n])" "entry_versions e = [] \<or> (\<exists>v. entry_versions e = [v])"
    "entry_statuses e = [] \<or> (\<exists>ws. entry_statuses e = [ws])"
    using assms by (simp_all add: dpkg_entry_ok_def at_most_one)
  ultimately show ?thesis
    by (auto simp: dpkg_paragraph_def text_lines_join [OF dpkg_lines_ok [OF assms]] dpkg_fold Let_def installed_as_def)
qed

lemma dpkg_file_paragraphs:
  "list_all dpkg_entry_ok es \<Longrightarrow> paragraphs (dpkg_file es) = map (\<lambda>e. join_with LF (dpkg_lines e)) es @ [[]]"
proof (induction es)
  case Nil
  then show ?case by (simp add: dpkg_file_def paragraphs.simps)
next
  case (Cons e es)
  have "find_str [LF, LF] (dpkg_file (e # es)) = Some (join_with LF (dpkg_lines e), dpkg_file es)"
    using find_blank_join [of "dpkg_lines e" "dpkg_file es"] dpkg_lines_ok [of e] Cons.prems
    by (simp add: dpkg_file_def dpkg_lines_def dpkg_entry_ok_def)
  with Cons show ?case
    by (subst paragraphs.simps) simp
qed

text \<open>C19. The Debian database reader is exact: from a status file in the format \<open>dpkg\<close> writes it
  reports, in the order of the file, the name and the version of each package whose status says
  installed, wherever in their paragraph the three lines stand and whatever other lines
  the paragraph has; a paragraph without one of the three is left out. Names, versions and status
  words are ASCII without blanks, no field is repeated and the file is UTF-8.\<close>

theorem dpkg_roundtrip:
  assumes "list_all dpkg_entry_ok es" "utf8_ok (dpkg_file es)"
  shows "dpkg_parse layer (dpkg_file es) =
    map (\<lambda>(n, v). mk_package ''deb'' ''pkg:deb/debian/'' layer n v) (filter_map installed_as es)"
proof -
  have "dpkg_paragraph layer [] = []"
    by (simp add: dpkg_paragraph_def text_lines.simps split_once_def)
  moreover have "concat (map (dpkg_paragraph layer) (map (\<lambda>e. join_with LF (dpkg_lines e)) es)) =
      map (\<lambda>(n, v). mk_package ''deb'' ''pkg:deb/debian/'' layer n v) (filter_map installed_as es)"
    using assms(1) by (induction es) (simp_all add: dpkg_paragraph_entry split: option.split)
  ultimately show ?thesis
    by (simp add: dpkg_parse_def from_utf8_def assms(2) dpkg_file_paragraphs [OF assms(1)])
qed

definition demo_dpkg :: "dpkg_item list list" where
  "demo_dpkg = [[PackageLine ''openssl'', OtherLine ''Essential: no'', StatusLine [''install'', ''ok'', ''installed''],
      OtherLine ''Priority: optional'', OtherLine ''Conffiles:'', OtherLine '' /etc/ssl/openssl.cnf 1a2b'',
      VersionLine ''1.1.1k-1'', OtherLine ''Architecture: amd64''],
    [PackageLine ''stale'', StatusLine [''deinstall'', ''ok'', ''config-files''], VersionLine ''0.0.1'']]"

theorem dpkg_roundtrip_witness:
  "map (\<lambda>p. (pkg_name p, pkg_version p)) (dpkg_parse ''l'' (dpkg_file demo_dpkg)) = [(''openssl'', ''1.1.1k-1'')]"
proof -
  have "list_all dpkg_entry_ok demo_dpkg"
    by code_simp
  moreover have "ascii (dpkg_file demo_dpkg)"
    by code_simp
  then have "utf8_ok (dpkg_file demo_dpkg)"
    by (simp add: utf8_ok_def utf8_chars_ascii list_all_iff)
  moreover have "filter_map installed_as demo_dpkg = [(''openssl'', ''1.1.1k-1'')]"
    by code_simp
  ultimately show ?thesis
    using dpkg_roundtrip [of demo_dpkg "''l''"] by (simp add: mk_package_def)
qed

end
