(* ===== verification/Object_Store.thy ===== *)
theory Object_Store
  imports Prelude
begin

text \<open>
  The interface of the crate \<open>object_store\<close> as the registry uses it. The crate is
  not part of the sources, so its operations are the fields of a record over an
  abstract world \<open>'w\<close> (the bucket, the network, the clock), and what the code
  relies on is the locale \<open>object_store\<close>: \<open>view\<close> is the set of objects visible in a
  world. A failed write or delete may or may not have taken effect, as with a
  request that times out; reads never change the objects; a multipart upload
  becomes visible only when it is completed, its parts in the order of their numbers.
\<close>

type_synonym path = string

datatype os_error = NotFound | Generic | PreconditionFailed

type_synonym ('w, 'a) io = "'w \<Rightarrow> 'w \<times> (os_error, 'a) result"

text \<open>
  Keys made of non-empty segments of letters, digits and \<open>._-:\<close>, joined by slashes;
  \<open>Path::from\<close> leaves them as they are. Other keys it rewrites, segment by segment
  (escaping characters and the segments \<open>.\<close> and \<open>..\<close>, dropping empty segments), so
  a key below a plain one stays below it.
\<close>

definition seg_char :: "char \<Rightarrow> bool" where
  "seg_char c \<longleftrightarrow> is_ascii_alphanumeric c \<or> c \<in> set ''._-:''"

definition plain_seg :: "string \<Rightarrow> bool" where
  "plain_seg s \<longleftrightarrow> s \<noteq> [] \<and> list_all seg_char s \<and> s \<noteq> ''.'' \<and> s \<noteq> ''..''"

fun join_path :: "string list \<Rightarrow> string" where
  "join_path [] = []"
| "join_path [s] = s"
| "join_path (s # t # ss) = s @ CHR ''/'' # join_path (t # ss)"

definition plain_key :: "string \<Rightarrow> bool" where
  "plain_key k \<longleftrightarrow> (\<exists>segs. segs \<noteq> [] \<and> list_all plain_seg segs \<and> k = join_path segs)"

record ('w, 'h, 'u) store_ops =
  os_path :: "string \<Rightarrow> path"
  os_get :: "path \<Rightarrow> ('w, 'h) io"
  os_bytes :: "'h \<Rightarrow> ('w, bytes) io"
  os_head :: "path \<Rightarrow> ('w, nat) io"
  os_put :: "path \<Rightarrow> bytes \<Rightarrow> ('w, unit) io"
  os_delete :: "path \<Rightarrow> ('w, unit) io"
  os_list :: "path \<Rightarrow> ('w, path list) io"
  os_list_dir :: "path \<Rightarrow> ('w, path list \<times> path list) io"
  os_copy :: "path \<Rightarrow> path \<Rightarrow> ('w, unit) io"
  os_multipart :: "path \<Rightarrow> ('w, 'u) io"
  os_put_part :: "'u \<Rightarrow> nat \<Rightarrow> bytes \<Rightarrow> ('w, unit) io"
  os_complete :: "'u \<Rightarrow> ('w, unit) io"
  os_abort :: "'u \<Rightarrow> ('w, unit) io"

type_synonym 'w view = "'w \<Rightarrow> path \<Rightarrow> bytes option"

text \<open>
  What listings return: every object under a directory prefix, and with a
  delimiter the directories directly below it and the objects directly in it. The
  empty path stands for no prefix.
\<close>

definition dir_prefix :: "path \<Rightarrow> string" where
  "dir_prefix p = (if p = [] then [] else p @ ''/'')"

definition under :: "path \<Rightarrow> (path \<rightharpoonup> bytes) \<Rightarrow> path set" where
  "under p m = {q \<in> dom m. starts_with (dir_prefix p) q}"

definition direct_objects :: "path \<Rightarrow> (path \<rightharpoonup> bytes) \<Rightarrow> path set" where
  "direct_objects p m = {q \<in> under p m. CHR ''/'' \<notin> set (drop (length (dir_prefix p)) q)}"

definition sub_dirs :: "path \<Rightarrow> (path \<rightharpoonup> bytes) \<Rightarrow> path set" where
  "sub_dirs p m = {dir_prefix p @ seg | seg rest.
     dir_prefix p @ seg @ CHR ''/'' # rest \<in> dom m \<and> CHR ''/'' \<notin> set seg}"

lemma seg_char_no_slash: "seg_char c \<Longrightarrow> c \<noteq> CHR ''/''"
  by (auto simp: seg_char_def is_ascii_alphanumeric_def is_ascii_alphabetic_def is_ascii_lowercase_def
      is_ascii_uppercase_def is_ascii_digit_def less_eq_char_def)

lemma plain_seg_no_slash: "plain_seg s \<Longrightarrow> CHR ''/'' \<notin> set s"
  by (auto simp: plain_seg_def list_all_iff dest: seg_char_no_slash)

text \<open>Distinct lists of segments give distinct keys.\<close>

lemma append_sep_inj:
  fixes c :: char
  assumes "c \<notin> set a" "c \<notin> set b" "a @ c # x = b @ c # y"
  shows "a = b \<and> x = y"
  using split_once_append [OF assms(1), of x] split_once_append [OF assms(2), of y]
  unfolding assms(3) by simp

lemma no_slash_join_Cons: "CHR ''/'' \<in> set (join_path (s # t # ss))"
  by simp

lemma join_path_inj:
  assumes "\<forall>s \<in> set as. CHR ''/'' \<notin> set s" "\<forall>s \<in> set bs. CHR ''/'' \<notin> set s"
    and "as \<noteq> []" "bs \<noteq> []" "join_path as = join_path bs"
  shows "as = bs"
  using assms
proof (induction as arbitrary: bs rule: join_path.induct)
  case (2 s)
  then show ?case
    using no_slash_join_Cons by (cases bs rule: join_path.cases) auto
next
  case (3 s t ss)
  show ?case
  proof (cases bs rule: join_path.cases)
    case (2 b)
    then show ?thesis
      using 3 no_slash_join_Cons [of s t ss] by auto
  next
    case bs: (3 b u us)
    have "s = b \<and> join_path (t # ss) = join_path (u # us)"
      by (rule append_sep_inj [of "CHR ''/''"]) (use 3 bs in auto)
    moreover have "t # ss = u # us"
      by (rule 3(1)) (use 3 bs calculation in auto)
    ultimately show ?thesis
      using bs by simp
  qed (use 3 in simp)
qed simp

text \<open>A write to \<open>p\<close> that may have been lost.\<close>

definition maybe_put :: "path \<Rightarrow> bytes \<Rightarrow> (path \<rightharpoonup> bytes) \<Rightarrow> (path \<rightharpoonup> bytes) \<Rightarrow> bool" where
  "maybe_put p d m m' \<longleftrightarrow> m' = m \<or> m' = m(p \<mapsto> d)"

definition maybe_delete :: "path \<Rightarrow> (path \<rightharpoonup> bytes) \<Rightarrow> (path \<rightharpoonup> bytes) \<Rightarrow> bool" where
  "maybe_delete p m m' \<longleftrightarrow> m' = m \<or> m' = m(p := None)"

text \<open>
  \<open>content\<close> is what a get handle reads; \<open>target\<close> and \<open>parts\<close> are the state of an
  open multipart upload.
\<close>

locale object_store =
  fixes S :: "('w, 'h, 'u) store_ops"
    and view :: "'w view"
    and content :: "'h \<Rightarrow> bytes"
    and target :: "'u \<Rightarrow> path"
    and parts :: "'w \<Rightarrow> 'u \<Rightarrow> nat \<Rightarrow> bytes option"
  assumes path_plain: "plain_key k \<Longrightarrow> os_path S k = k"
    and get_view: "os_get S p w = (w', r) \<Longrightarrow> view w' = view w"
    and get_ok: "os_get S p w = (w', Inr h) \<Longrightarrow> view w p = Some (content h)"
    and get_absent: "os_get S p w = (w', Inl NotFound) \<Longrightarrow> view w p = None"
    and bytes_view: "os_bytes S h w = (w', rb) \<Longrightarrow> view w' = view w"
    and bytes_ok: "os_bytes S h w = (w', Inr d) \<Longrightarrow> d = content h"
    and head_view: "os_head S p w = (w', n) \<Longrightarrow> view w' = view w"
    and head_ok: "os_head S p w = (w', Inr len) \<Longrightarrow> \<exists>d. view w p = Some d \<and> len = length d"
    and head_absent: "os_head S p w = (w', Inl NotFound) \<Longrightarrow> view w p = None"
    and put_ok: "os_put S p d w = (w', Inr u) \<Longrightarrow> view w' = (view w)(p \<mapsto> d)"
    and put_err: "os_put S p d w = (w', Inl e) \<Longrightarrow> maybe_put p d (view w) (view w')"
    and delete_ok: "os_delete S p w = (w', Inr u) \<Longrightarrow> view w' = (view w)(p := None)"
    and delete_absent: "os_delete S p w = (w', Inl NotFound) \<Longrightarrow> view w' = (view w)(p := None)"
    and delete_err: "os_delete S p w = (w', Inl e) \<Longrightarrow> maybe_delete p (view w) (view w')"
    and list_view: "os_list S p w = (w', l) \<Longrightarrow> view w' = view w"
    and list_ok: "os_list S p w = (w', Inr ps) \<Longrightarrow> set ps = under p (view w) \<and> distinct ps"
    and list_dir_view: "os_list_dir S p w = (w', ll) \<Longrightarrow> view w' = view w"
    and list_dir_ok: "os_list_dir S p w = (w', Inr (ds, ps)) \<Longrightarrow>
      set ds = sub_dirs p (view w) \<and> set ps = direct_objects p (view w)"
    and copy_ok: "os_copy S p q w = (w', Inr u) \<Longrightarrow>
      \<exists>d. view w p = Some d \<and> view w' = (view w)(q \<mapsto> d)"
    and copy_err: "os_copy S p q w = (w', Inl e) \<Longrightarrow>
      view w' = view w \<or> (\<exists>d. view w p = Some d \<and> view w' = (view w)(q \<mapsto> d))"
    and multipart_view: "os_multipart S p w = (w', m) \<Longrightarrow> view w' = view w"
    and multipart_ok: "os_multipart S p w = (w', Inr up) \<Longrightarrow>
      target up = p \<and> parts w' up = Map.empty"
    and part_view: "os_put_part S up i d w = (w', x) \<Longrightarrow> view w' = view w"
    and part_ok: "os_put_part S up i d w = (w', Inr u) \<Longrightarrow> parts w' up = (parts w up)(i \<mapsto> d)"
    and complete_ok: "os_complete S up w = (w', Inr u) \<Longrightarrow>
      parts w up = (\<lambda>i. if i < length ds then Some (ds ! i) else None) \<Longrightarrow>
      view w' = (view w)(target up \<mapsto> concat ds)"
    and complete_err: "os_complete S up w = (w', Inl e) \<Longrightarrow>
      parts w up = (\<lambda>i. if i < length ds then Some (ds ! i) else None) \<Longrightarrow>
      maybe_put (target up) (concat ds) (view w) (view w')"
    and abort_view: "os_abort S up w = (w', x) \<Longrightarrow> view w' = view w"
    and path_under: "plain_key k \<Longrightarrow> k = os_path S (k @ ''/'' @ y) \<or>
      starts_with (k @ ''/'') (os_path S (k @ ''/'' @ y))"
begin

lemmas reads_keep = get_view bytes_view head_view list_view list_dir_view

lemma read_after_put:
  assumes "os_put S p d w = (w1, Inr u)" "os_get S q w1 = (w2, Inr h)" "os_bytes S h w2 = (w3, Inr b)"
  shows "b = (if q = p then d else the (view w q))"
  using put_ok [OF assms(1)] get_ok [OF assms(2)] bytes_ok [OF assms(3)] by auto

end

section \<open>An in-memory store\<close>

text \<open>
  A store whose objects are a map and whose faults follow a script: each operation
  consumes one entry and fails with that error, if there is one. It serves the
  concrete instances in the witnesses.
\<close>

record mem_world =
  objects :: "(path \<times> bytes) list"
  faults :: "os_error option list"
  uploads :: "nat \<Rightarrow> (nat \<times> bytes) list"
  next_upload :: nat
  op_count :: nat

definition next_fault :: "mem_world \<Rightarrow> os_error option \<times> mem_world" where
  "next_fault w = (case faults w of [] \<Rightarrow> (None, w\<lparr>op_count := Suc (op_count w)\<rparr>)
     | f # fs \<Rightarrow> (f, w\<lparr>faults := fs, op_count := Suc (op_count w)\<rparr>))"

definition mem_io :: "(mem_world \<Rightarrow> mem_world \<times> (os_error, 'a) result) \<Rightarrow> (mem_world, 'a) io" where
  "mem_io f w = (case next_fault w of (None, w') \<Rightarrow> f w'
     | (Some e, w') \<Rightarrow> (w', Inl (if e = NotFound then Generic else e)))"

definition mem_get :: "path \<Rightarrow> mem_world \<Rightarrow> mem_world \<times> (os_error, bytes) result" where
  "mem_get p w = (w, case map_of (objects w) p of None \<Rightarrow> Inl NotFound | Some d \<Rightarrow> Inr d)"

definition mem_keys :: "mem_world \<Rightarrow> path \<Rightarrow> path list" where
  "mem_keys w p = filter (starts_with (dir_prefix p)) (remdups (map fst (objects w)))"

definition mem_dirs :: "mem_world \<Rightarrow> path \<Rightarrow> path list" where
  "mem_dirs w p = remdups (List.map_filter
     (\<lambda>q. map_option (\<lambda>(seg, rest). dir_prefix p @ seg)
        (split_once CHR ''/'' (drop (length (dir_prefix p)) q)))
     (mem_keys w p))"

definition mem_copy :: "path \<Rightarrow> path \<Rightarrow> mem_world \<Rightarrow> mem_world \<times> (os_error, unit) result" where
  "mem_copy p q w = (case map_of (objects w) p of
       None \<Rightarrow> (w, Inl NotFound)
     | Some d \<Rightarrow> (w\<lparr>objects := (q, d) # objects w\<rparr>, Inr ()))"

definition mem_complete :: "nat \<times> path \<Rightarrow> mem_world \<Rightarrow> mem_world" where
  "mem_complete up w =
    (let ps = uploads w (fst up); n = length (remdups (map fst ps)) in
     w\<lparr>objects := (snd up, concat (map (\<lambda>i. the (map_of ps i)) [0..<n])) # objects w\<rparr>)"

definition mem_store :: "(mem_world, bytes, nat \<times> path) store_ops" where
  "mem_store =
    \<lparr>os_path = (\<lambda>k. k),
     os_get = (\<lambda>p. mem_io (mem_get p)),
     os_bytes = (\<lambda>h. mem_io (\<lambda>w. (w, Inr h))),
     os_head = (\<lambda>p. mem_io (\<lambda>w. map_prod id (map_sum id length) (mem_get p w))),
     os_put = (\<lambda>p d. mem_io (\<lambda>w. (w\<lparr>objects := (p, d) # objects w\<rparr>, Inr ()))),
     os_delete = (\<lambda>p. mem_io (\<lambda>w.
        (w\<lparr>objects := filter (\<lambda>kv. fst kv \<noteq> p) (objects w)\<rparr>,
         if p \<in> fst ` set (objects w) then Inr () else Inl NotFound))),
     os_list = (\<lambda>p. mem_io (\<lambda>w. (w, Inr (mem_keys w p)))),
     os_list_dir = (\<lambda>p. mem_io (\<lambda>w.
        (w, Inr (mem_dirs w p,
           filter (\<lambda>q. CHR ''/'' \<notin> set (drop (length (dir_prefix p)) q)) (mem_keys w p))))),
     os_copy = (\<lambda>p q. mem_io (mem_copy p q)),
     os_multipart = (\<lambda>p. mem_io (\<lambda>w.
        (w\<lparr>uploads := (uploads w)(next_upload w := []), next_upload := Suc (next_upload w)\<rparr>,
         Inr (next_upload w, p)))),
     os_put_part = (\<lambda>up i d. mem_io (\<lambda>w.
        (w\<lparr>uploads := (uploads w)(fst up := (i, d) # uploads w (fst up))\<rparr>, Inr ()))),
     os_complete = (\<lambda>up. mem_io (\<lambda>w. (mem_complete up w, Inr ()))),
     os_abort = (\<lambda>up. mem_io (\<lambda>w. (w\<lparr>uploads := (uploads w)(fst up := [])\<rparr>, Inr ())))\<rparr>"

definition mem_view :: "mem_world view" where
  "mem_view w = map_of (objects w)"

definition mem_parts :: "mem_world \<Rightarrow> nat \<times> path \<Rightarrow> nat \<Rightarrow> bytes option" where
  "mem_parts w up = map_of (uploads w (fst up))"

definition mem_init :: "(path \<times> bytes) list \<Rightarrow> os_error option list \<Rightarrow> mem_world" where
  "mem_init kvs fs = \<lparr>objects = kvs, faults = fs, uploads = (\<lambda>_. []), next_upload = 0, op_count = 0\<rparr>"

lemma next_fault_keeps [simp]:
  "next_fault w = (f, w') \<Longrightarrow> objects w' = objects w"
  "next_fault w = (f, w') \<Longrightarrow> uploads w' = uploads w"
  by (auto simp: next_fault_def split: list.splits)

lemma map_of_filter_key: "map_of (filter (\<lambda>kv. fst kv \<noteq> p) xs) = (map_of xs)(p := None)"
  by (induction xs) auto

lemma mem_complete_view:
  assumes "mem_parts w up = (\<lambda>i. if i < length ds then Some (ds ! i) else None)"
  shows "mem_view (mem_complete up w) = (mem_view w)(snd up \<mapsto> concat ds)"
proof -
  let ?ps = "uploads w (fst up)"
  have m: "map_of ?ps = (\<lambda>i. if i < length ds then Some (ds ! i) else None)"
    using assms by (simp add: mem_parts_def)
  then have "dom (map_of ?ps) = {0..<length ds}"
    by (auto simp: dom_def)
  then have "card (fst ` set ?ps) = length ds"
    by (simp add: dom_map_of_conv_image_fst)
  then have "length (remdups (map fst ?ps)) = length ds"
    by (simp add: length_remdups_card_conv)
  moreover have "map (\<lambda>i. the (map_of ?ps i)) [0..<length ds] = ds"
    by (rule nth_equalityI) (simp_all add: m)
  ultimately show ?thesis
    by (simp add: mem_view_def mem_complete_def Let_def)
qed

lemma mem_complete_after_fault:
  assumes "next_fault w = (f, w1)"
    and "mem_parts w up = (\<lambda>i. if i < length ds then Some (ds ! i) else None)"
  shows "mem_view (mem_complete up w1) = (mem_view w)(snd up \<mapsto> concat ds)"
proof -
  have "mem_parts w1 up = mem_parts w up" "mem_view w1 = mem_view w"
    using assms(1) by (simp_all add: mem_parts_def mem_view_def)
  with mem_complete_view [of w1 up ds] assms(2) show ?thesis by simp
qed

lemma set_mem_keys: "set (mem_keys w p) = under p (map_of (objects w))"
  by (auto simp: mem_keys_def under_def dom_map_of_conv_image_fst)

lemma set_mem_dirs: "set (mem_dirs w p) = sub_dirs p (map_of (objects w))"
proof -
  let ?pre = "dir_prefix p" and ?m = "map_of (objects w)"
  have "d \<in> set (mem_dirs w p) \<longleftrightarrow>
      (\<exists>tl seg rest. ?pre @ tl \<in> dom ?m \<and> split_once CHR ''/'' tl = Some (seg, rest) \<and> d = ?pre @ seg)" for d
    by (auto simp: mem_dirs_def map_filter_def set_mem_keys under_def starts_with_iff image_iff)
  then show ?thesis
    unfolding sub_dirs_def split_once_iff by blast
qed

lemma mem_dirs_cong: "next_fault w = (f, w') \<Longrightarrow> mem_dirs w' p = mem_dirs w p"
  by (simp add: mem_dirs_def mem_keys_def)

lemma distinct_mem_keys: "distinct (mem_keys w p)"
  by (simp add: mem_keys_def)

lemma under_cong: "next_fault w = (f, w') \<Longrightarrow> mem_keys w' p = mem_keys w p"
  by (simp add: mem_keys_def)

lemmas mem_defs = mem_store_def mem_view_def mem_io_def mem_get_def mem_parts_def
  mem_copy_def direct_objects_def

interpretation mem: object_store mem_store mem_view "\<lambda>h. h" snd mem_parts
proof (unfold_locales, goal_cases)
  case (25 up w w' u ds)
  then show ?case
    by (auto simp: mem_store_def mem_io_def mem_complete_after_fault
        split: prod.splits option.splits)
next
  case (28 k y)
  show ?case
    using starts_with_append [of "k @ ''/''" y] by (simp add: mem_store_def)
qed (auto simp: mem_defs maybe_put_def maybe_delete_def map_of_filter_key set_mem_keys
    set_mem_dirs distinct_mem_keys under_cong mem_dirs_cong split: prod.splits option.splits if_splits)

end
