(* ===== verification/Common.thy ===== *)
theory Common
  imports Object_Store
begin

text \<open>
  \<open>specton-common\<close>: the object-store layout of \<open>storage.rs\<close>, the roles of
  \<open>models.rs\<close> and the errors of \<open>errors.rs\<close> with their OCI codes and HTTP responses.
  SHA-256 in hexadecimal is a parameter; the layout lemmas show that the kinds of
  object a repository holds never share a key.
\<close>

section \<open>Storage layout\<close>

definition sha256_digest :: "(bytes \<Rightarrow> string) \<Rightarrow> bytes \<Rightarrow> string" where
  "sha256_digest sha256_hex data = ''sha256:'' @ sha256_hex data"

definition blob_path :: "string \<Rightarrow> string \<Rightarrow> string \<Rightarrow> string \<Rightarrow> string" where
  "blob_path tenant project repo digest =
    tenant @ ''/'' @ project @ ''/'' @ repo @ ''/blobs/sha256/'' @ strip_prefix_or ''sha256:'' digest"

definition manifest_path :: "string \<Rightarrow> string \<Rightarrow> string \<Rightarrow> string \<Rightarrow> string" where
  "manifest_path tenant project repo reference =
    tenant @ ''/'' @ project @ ''/'' @ repo @ ''/manifests/'' @ reference"

definition tag_link_path :: "string \<Rightarrow> string \<Rightarrow> string \<Rightarrow> string \<Rightarrow> string" where
  "tag_link_path tenant project repo tag =
    tenant @ ''/'' @ project @ ''/'' @ repo @ ''/tags/'' @ tag"

definition tags_prefix :: "string \<Rightarrow> string \<Rightarrow> string \<Rightarrow> string" where
  "tags_prefix tenant project repo = tenant @ ''/'' @ project @ ''/'' @ repo @ ''/tags/''"

definition upload_path :: "string \<Rightarrow> string \<Rightarrow> string \<Rightarrow> string \<Rightarrow> string" where
  "upload_path tenant project repo upload_id =
    tenant @ ''/'' @ project @ ''/'' @ repo @ ''/uploads/'' @ upload_id"

section \<open>Roles\<close>

datatype role = Admin | Maintainer | Reader

datatype action = Pull | Push | Delete | Tag | Manage

fun allowed_actions :: "role \<Rightarrow> action list" where
  "allowed_actions Admin = [Pull, Push, Delete, Tag, Manage]"
| "allowed_actions Maintainer = [Pull, Push, Delete, Tag]"
| "allowed_actions Reader = [Pull]"

definition can :: "role \<Rightarrow> action \<Rightarrow> bool" where
  "can r a \<longleftrightarrow> a \<in> set (allowed_actions r)"

section \<open>Errors\<close>

datatype registry_error =
    BlobUnknown string
  | BlobUploadInvalid
  | DigestInvalid string string
  | ManifestUnknown string
  | ManifestInvalid string
  | NameUnknown string
  | TagUnknown string
  | Unauthorized
  | Forbidden string
  | TenantNotFound string
  | ProjectNotFound string
  | RateLimitExceeded
  | TokenExpired
  | TokenInvalid string
  | Internal string
  | Storage string
  | CircuitBreakerOpen string
  | UpstreamError string
  | RetriesExhausted string
  | FailoverError string
  | AuditUnavailable string
  | ManifestUnverified string

fun error_message :: "registry_error \<Rightarrow> string" where
  "error_message (BlobUnknown d) = ''blob unknown: '' @ d"
| "error_message BlobUploadInvalid = ''blob upload invalid''"
| "error_message (DigestInvalid e a) = ''digest mismatch: expected '' @ e @ '', got '' @ a"
| "error_message (ManifestUnknown r) = ''manifest unknown: '' @ r"
| "error_message (ManifestInvalid r) = ''manifest invalid: '' @ r"
| "error_message (NameUnknown n) = ''repository not found: '' @ n"
| "error_message (TagUnknown t) = ''tag unknown: '' @ t"
| "error_message Unauthorized = ''unauthorized''"
| "error_message (Forbidden r) = ''forbidden: '' @ r"
| "error_message (TenantNotFound t) = ''tenant not found: '' @ t"
| "error_message (ProjectNotFound p) = ''project not found: '' @ p"
| "error_message RateLimitExceeded = ''rate limit exceeded''"
| "error_message TokenExpired = ''token expired''"
| "error_message (TokenInvalid r) = ''token invalid: '' @ r"
| "error_message (Internal m) = ''internal error: '' @ m"
| "error_message (Storage m) = ''storage error: '' @ m"
| "error_message (CircuitBreakerOpen t) = ''circuit breaker open for '' @ t"
| "error_message (UpstreamError m) = ''upstream registry error: '' @ m"
| "error_message (RetriesExhausted m) = ''all retries exhausted: '' @ m"
| "error_message (FailoverError m) = ''region failover: '' @ m"
| "error_message (AuditUnavailable m) = ''audit unavailable: '' @ m"
| "error_message (ManifestUnverified r) = ''manifest unverified: '' @ r"

fun oci_code :: "registry_error \<Rightarrow> string" where
  "oci_code (BlobUnknown _) = ''BLOB_UNKNOWN''"
| "oci_code BlobUploadInvalid = ''BLOB_UPLOAD_INVALID''"
| "oci_code (DigestInvalid _ _) = ''DIGEST_INVALID''"
| "oci_code (ManifestUnknown _) = ''MANIFEST_UNKNOWN''"
| "oci_code (ManifestInvalid _) = ''MANIFEST_INVALID''"
| "oci_code (NameUnknown _) = ''NAME_UNKNOWN''"
| "oci_code (TagUnknown _) = ''TAG_UNKNOWN''"
| "oci_code Unauthorized = ''UNAUTHORIZED''"
| "oci_code (Forbidden _) = ''DENIED''"
| "oci_code (TenantNotFound _) = ''NAME_UNKNOWN''"
| "oci_code (ProjectNotFound _) = ''NAME_UNKNOWN''"
| "oci_code RateLimitExceeded = ''TOOMANYREQUESTS''"
| "oci_code TokenExpired = ''UNAUTHORIZED''"
| "oci_code (TokenInvalid _) = ''UNAUTHORIZED''"
| "oci_code (Internal _) = ''UNKNOWN''"
| "oci_code (Storage _) = ''UNKNOWN''"
| "oci_code (CircuitBreakerOpen _) = ''UNAVAILABLE''"
| "oci_code (AuditUnavailable _) = ''UNAVAILABLE''"
| "oci_code (UpstreamError _) = ''UPSTREAM_ERROR''"
| "oci_code (RetriesExhausted _) = ''RETRIES_EXHAUSTED''"
| "oci_code (FailoverError _) = ''FAILOVER_ERROR''"
| "oci_code (ManifestUnverified _) = ''MANIFEST_UNVERIFIED''"

fun status_code :: "registry_error \<Rightarrow> nat" where
  "status_code (BlobUnknown _) = 404"
| "status_code (ManifestUnknown _) = 404"
| "status_code (NameUnknown _) = 404"
| "status_code (TagUnknown _) = 404"
| "status_code (TenantNotFound _) = 404"
| "status_code (ProjectNotFound _) = 404"
| "status_code BlobUploadInvalid = 400"
| "status_code (DigestInvalid _ _) = 400"
| "status_code (ManifestInvalid _) = 400"
| "status_code Unauthorized = 401"
| "status_code TokenExpired = 401"
| "status_code (TokenInvalid _) = 401"
| "status_code (Forbidden _) = 403"
| "status_code (ManifestUnverified _) = 403"
| "status_code RateLimitExceeded = 429"
| "status_code (Internal _) = 500"
| "status_code (Storage _) = 500"
| "status_code (CircuitBreakerOpen _) = 503"
| "status_code (AuditUnavailable _) = 503"
| "status_code (UpstreamError _) = 502"
| "status_code (RetriesExhausted _) = 502"
| "status_code (FailoverError _) = 503"

record error_response =
  resp_status :: nat
  resp_code :: string
  resp_message :: string
  resp_headers :: "(string \<times> string) list"

text \<open>\<open>HeaderValue::from_str\<close> refuses control characters other than tabs.\<close>

definition header_ok :: "string \<Rightarrow> bool" where
  "header_ok v \<longleftrightarrow> list_all (\<lambda>c. c = CHR 0x09 \<or> (CHR 0x20 \<le> c \<and> c \<noteq> CHR 0x7F)) v"

definition quoted :: "string \<Rightarrow> string" where
  "quoted s = CHR 0x22 # s @ [CHR 0x22]"

definition error_into_response :: "string option \<Rightarrow> registry_error \<Rightarrow> error_response" where
  "error_into_response service_env e =
    (let service = (case service_env of None \<Rightarrow> ''spectoncr-registry'' | Some s \<Rightarrow> s);
         realm = ''Bearer realm='' @ quoted ''/auth/token'' @ '',service='' @ quoted service;
         h1 = (if status_code e = 401 \<and> header_ok realm then [(''www-authenticate'', realm)] else []);
         h2 = (case e of ManifestUnverified reason \<Rightarrow>
             if header_ok reason then [(''www-spectoncr-reason'', reason)] else [] | _ \<Rightarrow> []) in
     \<lparr>resp_status = status_code e, resp_code = oci_code e, resp_message = error_message e,
      resp_headers = h1 @ h2\<rparr>)"

section \<open>Keys never clash\<close>

lemma blob_path_join:
  "blob_path t p r d = join_path [t, p, r, ''blobs'', ''sha256'', strip_prefix_or ''sha256:'' d]"
  by (simp add: blob_path_def)

lemma manifest_path_join: "manifest_path t p r ref = join_path [t, p, r, ''manifests'', ref]"
  by (simp add: manifest_path_def)

lemma tag_link_path_join: "tag_link_path t p r tag = join_path [t, p, r, ''tags'', tag]"
  by (simp add: tag_link_path_def)

lemma upload_path_join: "upload_path t p r u = join_path [t, p, r, ''uploads'', u]"
  by (simp add: upload_path_def)

lemmas path_joins = blob_path_join manifest_path_join tag_link_path_join upload_path_join

lemma plain_seg_consts [simp]:
  "plain_seg ''blobs''" "plain_seg ''sha256''" "plain_seg ''manifests''" "plain_seg ''tags''"
  "plain_seg ''uploads''"
  by code_simp+

lemma plain_key_join: "segs \<noteq> [] \<Longrightarrow> list_all plain_seg segs \<Longrightarrow> plain_key (join_path segs)"
  by (auto simp: plain_key_def)

lemma plain_join_inj:
  "list_all plain_seg as \<Longrightarrow> list_all plain_seg bs \<Longrightarrow> as \<noteq> [] \<Longrightarrow> bs \<noteq> [] \<Longrightarrow>
    join_path as = join_path bs \<longleftrightarrow> as = bs"
  using join_path_inj [of as bs] by (auto simp: list_all_iff dest: plain_seg_no_slash)

section \<open>Staying inside a repository\<close>

text \<open>
  \<open>confined k m m'\<close>: from \<open>m\<close> to \<open>m'\<close> only objects at or below the key \<open>k\<close> changed. What the
  handlers write for a repository is below its key, whatever tag, digest or upload id
  they are given.
\<close>

definition inside :: "path \<Rightarrow> path \<Rightarrow> bool" where
  "inside k q \<longleftrightarrow> k = q \<or> starts_with (k @ ''/'') q"

definition confined :: "path \<Rightarrow> (path \<rightharpoonup> bytes) \<Rightarrow> (path \<rightharpoonup> bytes) \<Rightarrow> bool" where
  "confined k m m' \<longleftrightarrow> (\<forall>q. \<not> inside k q \<longrightarrow> m' q = m q)"

definition repo_key :: "string \<Rightarrow> string \<Rightarrow> string \<Rightarrow> string" where
  "repo_key t p r = t @ ''/'' @ p @ ''/'' @ r"

lemma confined_refl [simp, intro]: "confined k m m"
  by (simp add: confined_def)

lemma confined_trans [trans]: "confined k m m' \<Longrightarrow> confined k m' m'' \<Longrightarrow> confined k m m''"
  by (simp add: confined_def)

lemma confined_upd: "inside k p \<Longrightarrow> confined k m (m(p := x))"
  by (auto simp: confined_def)

lemma confined_maybe:
  "inside k p \<Longrightarrow> maybe_put p d m m' \<Longrightarrow> confined k m m'"
  "inside k p \<Longrightarrow> maybe_delete p m m' \<Longrightarrow> confined k m m'"
  by (auto simp: maybe_put_def maybe_delete_def confined_upd)

lemma repo_paths:
  "blob_path t p r d = repo_key t p r @ ''/'' @ ''blobs/sha256/'' @ strip_prefix_or ''sha256:'' d"
  "manifest_path t p r ref = repo_key t p r @ ''/'' @ ''manifests/'' @ ref"
  "tag_link_path t p r tag = repo_key t p r @ ''/'' @ ''tags/'' @ tag"
  "upload_path t p r u = repo_key t p r @ ''/'' @ ''uploads/'' @ u"
  "tags_prefix t p r = repo_key t p r @ ''/'' @ ''tags/''"
  by (simp_all add: blob_path_def manifest_path_def tag_link_path_def upload_path_def tags_prefix_def repo_key_def)

lemma repo_key_plain: "plain_seg t \<Longrightarrow> plain_seg p \<Longrightarrow> plain_seg r \<Longrightarrow> plain_key (repo_key t p r)"
  using plain_key_join [of "[t, p, r]"] by (simp add: repo_key_def)

context object_store
begin

lemma path_inside: "plain_key k \<Longrightarrow> inside k (os_path S (k @ ''/'' @ y))"
  using path_under [of k y] by (simp add: inside_def)

lemma put_confined: "os_put S p d w = (w', r) \<Longrightarrow> inside k p \<Longrightarrow> confined k (view w) (view w')"
  using put_ok [of p d w w'] put_err [of p d w w'] by (cases r) (auto intro: confined_upd confined_maybe)

lemma delete_confined: "os_delete S p w = (w', r) \<Longrightarrow> inside k p \<Longrightarrow> confined k (view w) (view w')"
  using delete_ok [of p w w'] delete_err [of p w w'] by (cases r) (auto intro: confined_upd confined_maybe)

lemma repo_paths_inside:
  assumes "plain_key (repo_key t p r)"
  shows "inside (repo_key t p r) (os_path S (blob_path t p r d))"
    "inside (repo_key t p r) (os_path S (manifest_path t p r ref))"
    "inside (repo_key t p r) (os_path S (tag_link_path t p r tag))"
    "inside (repo_key t p r) (os_path S (upload_path t p r u))"
    "inside (repo_key t p r) (os_path S (tags_prefix t p r))"
  unfolding repo_paths by (rule path_inside [OF assms])+

end

end
