(* ===== verification/Scan_Worker.thy ===== *)
theory Scan_Worker
  imports Scan_Policy Sbom Common
begin

text \<open>
  The scan worker (\<open>specton-scanner/src/worker.rs\<close>) and the image reader (\<open>image.rs\<close>): from a
  job to the layers of the image, the packages in them, the findings, the suppressions
  and the verdict, with the two Redis caches and the table \<open>scans\<close>. Decompression, the tar
  reader, YAML and the vulnerability database (a trait object; \<open>vuln_query\<close> is one) are
  parameters. Which statements and commands succeed is the argument \<open>ok\<close>, by operation and
  key; an outer \<open>None\<close> is a panic.
\<close>

section \<open>Images\<close>

record image_locator =
  il_tenant :: string
  il_project :: string
  il_repository :: string
  il_digest :: string

record layer_descriptor =
  ly_digest :: string
  ly_media_type :: string

record manifest_descriptor =
  md_digest :: string
  md_platform :: "(string \<times> string) option"

record image_manifest =
  im_media_type :: "string option"
  im_manifests :: "manifest_descriptor list"
  im_layers :: "layer_descriptor list"

text \<open>The other variants of \<open>ScanError\<close> the pipeline raises.\<close>

datatype pipeline_error =
    Image string
  | Scan scan_error
  | ObjectStore os_error
  | Serde
  | OtherScan string

text \<open>
  A derived struct from an object (no field twice, unknown fields ignored) or from an
  array in field order.
\<close>

definition struct_fields :: "string list \<Rightarrow> json \<Rightarrow> json option list option" where
  "struct_fields names v = (case v of
     Object kvs \<Rightarrow> if \<forall>k \<in> set names. length (filter (\<lambda>kv. fst kv = k) kvs) \<le> 1
       then Some (map (map_of kvs) names) else None
   | Array vs \<Rightarrow> if length vs \<le> length names
       then Some (map Some vs @ replicate (length names - length vs) None) else None
   | _ \<Rightarrow> None)"

fun de_list :: "(json \<Rightarrow> 'a option) \<Rightarrow> json list \<Rightarrow> 'a list option" where
  "de_list de [] = Some []"
| "de_list de (v # vs) = (case (de v, de_list de vs) of (Some x, Some xs) \<Rightarrow> Some (x # xs) | _ \<Rightarrow> None)"

definition de_default_vec :: "(json \<Rightarrow> 'a option) \<Rightarrow> json option \<Rightarrow> 'a list option" where
  "de_default_vec de v = (case v of None \<Rightarrow> Some [] | Some (Array vs) \<Rightarrow> de_list de vs | Some _ \<Rightarrow> None)"

definition de_string :: "json option \<Rightarrow> string option" where
  "de_string v = Option.bind v as_str"

definition de_layer :: "json \<Rightarrow> layer_descriptor option" where
  "de_layer v = (case struct_fields [''digest'', ''mediaType''] v of
     Some [d, m] \<Rightarrow> (case (de_string d, de_string m) of
        (Some d', Some m') \<Rightarrow> Some \<lparr>ly_digest = d', ly_media_type = m'\<rparr> | _ \<Rightarrow> None)
   | _ \<Rightarrow> None)"

definition de_platform :: "json \<Rightarrow> (string \<times> string) option" where
  "de_platform v = (case struct_fields [''architecture'', ''os''] v of
     Some [a, p] \<Rightarrow> (case (de_string a, de_string p) of (Some a', Some p') \<Rightarrow> Some (a', p') | _ \<Rightarrow> None)
   | _ \<Rightarrow> None)"

definition de_manifest_descriptor :: "json \<Rightarrow> manifest_descriptor option" where
  "de_manifest_descriptor v = (case struct_fields [''digest'', ''platform''] v of
     Some [d, p] \<Rightarrow> (case (de_string d, p) of
        (Some d', None) \<Rightarrow> Some \<lparr>md_digest = d', md_platform = None\<rparr>
      | (Some d', Some Null) \<Rightarrow> Some \<lparr>md_digest = d', md_platform = None\<rparr>
      | (Some d', Some j) \<Rightarrow> map_option (\<lambda>x. \<lparr>md_digest = d', md_platform = Some x\<rparr>) (de_platform j)
      | _ \<Rightarrow> None)
   | _ \<Rightarrow> None)"

text \<open>\<open>mediaType\<close> has no default, so the array form must have it.\<close>

definition de_manifest :: "json \<Rightarrow> image_manifest option" where
  "de_manifest v = (if v = Array [] then None else case struct_fields [''mediaType'', ''manifests'', ''layers''] v of
     Some [m, ms, ls] \<Rightarrow>
       (case (de_default_vec de_manifest_descriptor ms, de_default_vec de_layer ls) of
          (Some ms', Some ls') \<Rightarrow>
            (case m of None \<Rightarrow> Some \<lparr>im_media_type = None, im_manifests = ms', im_layers = ls'\<rparr>
             | Some Null \<Rightarrow> Some \<lparr>im_media_type = None, im_manifests = ms', im_layers = ls'\<rparr>
             | Some (String s) \<Rightarrow> Some \<lparr>im_media_type = Some s, im_manifests = ms', im_layers = ls'\<rparr>
             | Some _ \<Rightarrow> None)
        | _ \<Rightarrow> None)
   | _ \<Rightarrow> None)"

datatype layer_codec = Gzip | Zstd | Plain

datatype tar_entry = TarError | Entry bool "string option" "bytes option"

record ('w, 'h, 'u, 'f) scan_env =
  se_store :: "('w, 'h, 'u) store_ops"
  se_crates :: sbom_crates
  se_tar :: "layer_codec \<Rightarrow> bytes \<Rightarrow> (string, tar_entry list) result"
  se_zstd_ok :: "bytes \<Rightarrow> bool"
  se_query :: "package list \<Rightarrow> (scan_error, 'f vulnerability list) result"
  se_yaml :: "string \<Rightarrow> policy option"
  se_error_text :: "pipeline_error \<Rightarrow> string"
  se_default_policy :: policy
  se_dedup :: bool
  se_notify :: bool

definition fetch_object :: "('w, 'h, 'u, 'f) scan_env \<Rightarrow> string \<Rightarrow> 'w \<Rightarrow> 'w \<times> (pipeline_error, bytes) result" where
  "fetch_object E key w = (case os_get (se_store E) (os_path (se_store E) key) w of
     (w1, Inl e) \<Rightarrow> (w1, Inl (ObjectStore e))
   | (w1, Inr h) \<Rightarrow> (case os_bytes (se_store E) h w1 of
       (w2, Inl e) \<Rightarrow> (w2, Inl (ObjectStore e)) | (w2, Inr d) \<Rightarrow> (w2, Inr d)))"

definition fetch_layer_blob :: "('w, 'h, 'u, 'f) scan_env \<Rightarrow> image_locator \<Rightarrow> string \<Rightarrow> 'w \<Rightarrow>
    'w \<times> (pipeline_error, bytes) result" where
  "fetch_layer_blob E loc digest = fetch_object E (blob_path (il_tenant loc) (il_project loc) (il_repository loc) digest)"

definition fetch_manifest_bytes :: "('w, 'h, 'u, 'f) scan_env \<Rightarrow> image_locator \<Rightarrow> string \<Rightarrow> 'w \<Rightarrow>
    'w \<times> (pipeline_error, bytes) result" where
  "fetch_manifest_bytes E loc reference =
    fetch_object E (manifest_path (il_tenant loc) (il_project loc) (il_repository loc) reference)"

definition contains_str :: "string \<Rightarrow> string \<Rightarrow> bool" where
  "contains_str p s \<longleftrightarrow> find_str p s \<noteq> None"

definition is_index :: "image_manifest \<Rightarrow> bool" where
  "is_index m \<longleftrightarrow> (case im_media_type m of None \<Rightarrow> False
     | Some mt \<Rightarrow> contains_str ''image.index'' mt \<or> contains_str ''manifest.list'' mt) \<or> im_manifests m \<noteq> []"

definition resolve_layers :: "('w, 'h, 'u, 'f) scan_env \<Rightarrow> image_locator \<Rightarrow> 'w \<Rightarrow>
    'w \<times> (pipeline_error, layer_descriptor list) result" where
  "resolve_layers E loc w = (case fetch_manifest_bytes E loc (il_digest loc) w of
     (w1, Inl e) \<Rightarrow> (w1, Inl e)
   | (w1, Inr bs) \<Rightarrow> (case Option.bind (sb_json (se_crates E) bs) de_manifest of
       None \<Rightarrow> (w1, Inl Serde)
     | Some m \<Rightarrow>
        if \<not> is_index m then (w1, Inr (im_layers m))
        else (case find (\<lambda>x. md_platform x = Some (''amd64'', ''linux'')) (im_manifests m) of
          None \<Rightarrow> (w1, Inl (Image ''index has no linux/amd64 manifest''))
        | Some pick \<Rightarrow> (case fetch_manifest_bytes E loc (md_digest pick) w1 of
            (w2, Inl e) \<Rightarrow> (w2, Inl e)
          | (w2, Inr sub) \<Rightarrow> (w2, case Option.bind (sb_json (se_crates E) sub) de_manifest of
              None \<Rightarrow> Inl Serde | Some sm \<Rightarrow> Inr (im_layers sm))))))"

definition MAX_LAYER_BYTES :: nat where
  "MAX_LAYER_BYTES = 1024 * 1024 * 512"

definition is_interesting :: "string \<Rightarrow> bool" where
  "is_interesting p \<longleftrightarrow> p = ''var/lib/dpkg/status'' \<or> ends_with ''/dpkg/status'' p \<or> p = ''lib/apk/db/installed'' \<or>
     ends_with ''/apk/db/installed'' p \<or> ends_with ''var/lib/rpm/Packages'' p \<or> ends_with ''var/lib/rpm/rpmdb.sqlite'' p \<or>
     ends_with ''package-lock.json'' p \<or> ends_with ''npm-shrinkwrap.json'' p \<or> ends_with ''Cargo.lock'' p \<or>
     ends_with ''requirements.txt'' p \<or> ends_with ''.dist-info/METADATA'' p \<or> ends_with ''.egg-info/PKG-INFO'' p \<or>
     ends_with ''go.sum'' p"

function trim_dot_slash :: "string \<Rightarrow> string" where
  "trim_dot_slash p = (case strip_prefix ''./'' p of None \<Rightarrow> p | Some r \<Rightarrow> trim_dot_slash r)"
  by pat_completeness auto
termination
  by (relation "measure length") (auto simp: strip_prefix_iff)

declare trim_dot_slash.simps [simp del]

text \<open>The visitor appends what \<open>dispatch\<close> finds.\<close>

fun walk_entries :: "sbom_crates \<Rightarrow> string \<Rightarrow> tar_entry list \<Rightarrow> package list option" where
  "walk_entries C layer [] = Some []"
| "walk_entries C layer (TarError # es) = walk_entries C layer es"
| "walk_entries C layer (Entry regular p contents # es) =
    (case (regular, p) of
       (True, Some raw) \<Rightarrow>
         (let path = trim_dot_slash raw in
          if \<not> is_interesting path then walk_entries C layer es
          else (case contents of None \<Rightarrow> walk_entries C layer es
            | Some buf \<Rightarrow> (case dispatch C layer path buf of None \<Rightarrow> None
                | Some ps \<Rightarrow> map_option (append ps) (walk_entries C layer es))))
     | _ \<Rightarrow> walk_entries C layer es)"

definition walk_layer :: "('w, 'h, 'u, 'f) scan_env \<Rightarrow> layer_descriptor \<Rightarrow> bytes \<Rightarrow>
    (pipeline_error, package list) result option" where
  "walk_layer E layer data =
    (let mt = ly_media_type layer;
         entries = (\<lambda>codec. case se_tar E codec data of
             Inl e \<Rightarrow> Some (Inl (Image (''tar entries: '' @ e)))
           | Inr es \<Rightarrow> map_option Inr (walk_entries (se_crates E) (ly_digest layer) es)) in
     if contains_str ''gzip'' mt \<or> contains_str ''tar+gzip'' mt then entries Gzip
     else if contains_str ''zstd'' mt then (if se_zstd_ok E data then entries Zstd else Some (Inr []))
     else if contains_str ''tar'' mt then entries Plain
     else Some (Inr []))"

fun walk_selected_layers :: "('w, 'h, 'u, 'f) scan_env \<Rightarrow> image_locator \<Rightarrow> layer_descriptor list \<Rightarrow> 'w \<Rightarrow>
    'w \<times> (pipeline_error, package list) result option" where
  "walk_selected_layers E loc [] w = (w, Some (Inr []))"
| "walk_selected_layers E loc (l # ls) w = (case fetch_layer_blob E loc (ly_digest l) w of
     (w1, Inl e) \<Rightarrow> (w1, Some (Inl e))
   | (w1, Inr data) \<Rightarrow>
      if length data > MAX_LAYER_BYTES then walk_selected_layers E loc ls w1
      else (case walk_layer E l data of
          None \<Rightarrow> (w1, None)
        | Some (Inl e) \<Rightarrow> (w1, Some (Inl e))
        | Some (Inr ps) \<Rightarrow> (case walk_selected_layers E loc ls w1 of
            (w2, Some (Inr qs)) \<Rightarrow> (w2, Some (Inr (ps @ qs)))
          | other \<Rightarrow> other)))"

section \<open>Jobs, results and tables\<close>

datatype scan_status = Queued | InProgress | Completed | Failed

record scan_job =
  jb_id :: string
  jb_digest :: string
  jb_tenant :: string
  jb_project :: string
  jb_repository :: string
  jb_reference :: string

record 'f scan_result =
  sr_job :: scan_job
  sr_status :: scan_status
  sr_error :: "string option"
  sr_started :: int
  sr_completed :: "int option"
  sr_summary :: scan_summary
  sr_vulnerabilities :: "'f vulnerability list"
  sr_policy :: "policy_evaluation option"
  sr_packages :: "package list"

record image_settings =
  is_scan_enabled :: bool
  is_policy_yaml :: "string option"

definition default_settings :: image_settings where
  "default_settings = \<lparr>is_scan_enabled = True, is_policy_yaml = None\<rparr>"

type_synonym settings_table = "string \<times> string \<times> string \<rightharpoonup> image_settings"

definition settings_get :: "bool \<Rightarrow> string \<Rightarrow> string \<Rightarrow> string \<Rightarrow> settings_table \<Rightarrow> (scan_error, image_settings) result" where
  "settings_get stmt tenant project repo t = (if \<not> stmt then Inl DbError
     else Inr (case t (tenant, project, repo) of None \<Rightarrow> default_settings | Some s \<Rightarrow> s))"

text \<open>Two statements without a transaction: the row can be written without its audit entry.\<close>

definition settings_upsert :: "(string \<Rightarrow> policy option) \<Rightarrow> bool \<Rightarrow> bool \<Rightarrow> string \<Rightarrow> string \<Rightarrow> string \<Rightarrow> string \<Rightarrow> bool \<Rightarrow>
    string option \<Rightarrow> settings_table \<times> (string \<times> string) list \<Rightarrow>
    (settings_table \<times> (string \<times> string) list) \<times> (pipeline_error, image_settings) result" where
  "settings_upsert yaml row_ok audit_ok actor tenant project repo enabled policy_yaml = (\<lambda>(t, audit).
    (let s = \<lparr>is_scan_enabled = enabled, is_policy_yaml = policy_yaml\<rparr>; t' = t((tenant, project, repo) \<mapsto> s) in
     if (case policy_yaml of None \<Rightarrow> False | Some y \<Rightarrow> yaml y = None) then ((t, audit), Inl (OtherScan ''invalid policy yaml''))
     else if \<not> row_ok then ((t, audit), Inl (Scan DbError))
     else if \<not> audit_ok then ((t', audit), Inl (Scan DbError))
     else ((t', audit @ [(actor, tenant @ ''/'' @ project @ ''/'' @ repo)]), Inr s)))"

record scan_row =
  sn_job :: scan_job
  sn_status :: scan_status
  sn_error :: "string option"
  sn_completed_at :: "int option"
  sn_counts :: "int \<times> int \<times> int \<times> int"

record 'f scan_state =
  sc_results :: "string \<rightharpoonup> 'f scan_result"
  sc_layers :: "string \<rightharpoonup> package list"
  sc_scans :: "scan_row list"
  sc_alerts :: "'f scan_result list"

definition status_row :: "int \<Rightarrow> scan_status \<Rightarrow> string option \<Rightarrow> scan_row \<Rightarrow> scan_row" where
  "status_row now st err r = r\<lparr>sn_status := st, sn_error := (case err of None \<Rightarrow> sn_error r | Some e \<Rightarrow> Some e),
     sn_completed_at := (if st \<in> {Completed, Failed} then Some now else sn_completed_at r)\<rparr>"

definition record_status :: "bool \<Rightarrow> int \<Rightarrow> scan_job \<Rightarrow> scan_status \<Rightarrow> string option \<Rightarrow> 'f scan_state \<Rightarrow>
    'f scan_state \<times> (pipeline_error, unit) result" where
  "record_status stmt now job st err s =
    (if \<not> stmt then (s, Inl (Scan DbError))
     else if jb_id job \<in> jb_id ` sn_job ` set (sc_scans s)
     then (s\<lparr>sc_scans := map (\<lambda>r. if jb_id (sn_job r) = jb_id job then status_row now st err r else r) (sc_scans s)\<rparr>, Inr ())
     else (s\<lparr>sc_scans := sc_scans s @ [\<lparr>sn_job = job, sn_status = st, sn_error = err, sn_completed_at = None,
        sn_counts = (0, 0, 0, 0)\<rparr>]\<rparr>, Inr ()))"

definition as_i32 :: "nat \<Rightarrow> int" where
  "as_i32 n = (if n < 2 ^ 31 then int n else int n - 2 ^ 32)"

definition update_counts :: "bool \<Rightarrow> scan_job \<Rightarrow> scan_summary \<Rightarrow> 'f scan_state \<Rightarrow>
    'f scan_state \<times> (pipeline_error, unit) result" where
  "update_counts stmt job m s =
    (if \<not> stmt then (s, Inl (Scan DbError))
     else (s\<lparr>sc_scans := map (\<lambda>r. if jb_id (sn_job r) = jb_id job
        then r\<lparr>sn_counts := (as_i32 (critical m), as_i32 (high m), as_i32 (medium m), as_i32 (low m))\<rparr> else r) (sc_scans s)\<rparr>,
      Inr ()))"

definition put_result :: "bool \<Rightarrow> 'f scan_result \<Rightarrow> 'f scan_state \<Rightarrow> 'f scan_state" where
  "put_result stored r s = (if stored then s\<lparr>sc_results := (sc_results s)(jb_digest (sr_job r) \<mapsto> r)\<rparr> else s)"

text \<open>The notifier posts only when the verdict is Fail.\<close>

definition on_scan_complete :: "bool \<Rightarrow> 'f scan_result \<Rightarrow> 'f scan_state \<Rightarrow> 'f scan_state" where
  "on_scan_complete configured r s =
    (if configured \<and> (case sr_policy r of None \<Rightarrow> False | Some pe \<Rightarrow> status pe = Fail)
     then s\<lparr>sc_alerts := sc_alerts s @ [r]\<rparr> else s)"

section \<open>The layer cache\<close>

definition normalise_cached :: "string \<Rightarrow> package \<Rightarrow> package" where
  "normalise_cached d p = (if pkg_layer_digest p = None then p\<lparr>pkg_layer_digest := Some d\<rparr> else p)"

fun split_cached :: "(string \<Rightarrow> string \<Rightarrow> bool) \<Rightarrow> (string \<rightharpoonup> package list) \<Rightarrow> layer_descriptor list \<Rightarrow>
    package list \<times> layer_descriptor list" where
  "split_cached ok cache [] = ([], [])"
| "split_cached ok cache (l # ls) =
    (let (ps, rest) = split_cached ok cache ls in
     case (if ok ''layer-get'' (ly_digest l) then cache (ly_digest l) else None) of
       Some cached \<Rightarrow> (map (normalise_cached (ly_digest l)) cached @ ps, rest)
     | None \<Rightarrow> (ps, l # rest))"

definition layer_key :: "package \<Rightarrow> string" where
  "layer_key p = (case pkg_layer_digest p of None \<Rightarrow> [] | Some d \<Rightarrow> d)"

definition by_layer :: "package list \<Rightarrow> string \<Rightarrow> package list" where
  "by_layer ps k = filter (\<lambda>p. layer_key p = k) ps"

text \<open>\<open>remove\<close> takes the group out of the map: a layer met again finds nothing.\<close>

fun cache_layers :: "(string \<Rightarrow> string \<Rightarrow> bool) \<Rightarrow> layer_descriptor list \<Rightarrow> (string \<Rightarrow> package list) \<Rightarrow> (string \<rightharpoonup> package list) \<Rightarrow>
    (string \<rightharpoonup> package list) \<times> package list" where
  "cache_layers ok [] groups cache = (cache, [])"
| "cache_layers ok (l # ls) groups cache =
    (let d = ly_digest l; ps = groups d;
         (cache', rest) = cache_layers ok ls (groups(d := [])) (if ok ''layer-put'' d then cache(d \<mapsto> ps) else cache) in
     (cache', ps @ rest))"

section \<open>The pipeline\<close>

definition locator :: "scan_job \<Rightarrow> image_locator" where
  "locator job = \<lparr>il_tenant = jb_tenant job, il_project = jb_project job, il_repository = jb_repository job,
     il_digest = jb_digest job\<rparr>"

definition extract_sbom :: "('w, 'h, 'u, 'f) scan_env \<Rightarrow> (string \<Rightarrow> string \<Rightarrow> bool) \<Rightarrow> image_locator \<Rightarrow>
    (string \<rightharpoonup> package list) \<times> 'w \<Rightarrow> ((string \<rightharpoonup> package list) \<times> 'w) \<times> (pipeline_error, package list) result option" where
  "extract_sbom E ok loc = (\<lambda>(cache, w). case resolve_layers E loc w of
     (w1, Inl e) \<Rightarrow> ((cache, w1), Some (Inl e))
   | (w1, Inr layers) \<Rightarrow>
      (let (cached, to_walk) = split_cached ok cache layers in
       if to_walk = [] then ((cache, w1), Some (Inr cached))
       else (case walk_selected_layers E loc to_walk w1 of
           (w2, None) \<Rightarrow> ((cache, w2), None)
         | (w2, Some (Inl e)) \<Rightarrow> ((cache, w2), Some (Inl e))
         | (w2, Some (Inr collected)) \<Rightarrow>
            (let (cache', walked) = cache_layers ok to_walk (by_layer collected) cache in
             ((cache', w2), Some (Inr (cached @ walked)))))))"

definition effective_policy :: "('w, 'h, 'u, 'f) scan_env \<Rightarrow> image_settings \<Rightarrow> policy" where
  "effective_policy E settings = (case is_policy_yaml settings of None \<Rightarrow> se_default_policy E
     | Some y \<Rightarrow> (case se_yaml E y of None \<Rightarrow> se_default_policy E | Some p \<Rightarrow> p))"

definition run_pipeline :: "('w, 'h, 'u, 'f) scan_env \<Rightarrow> (string \<Rightarrow> string \<Rightarrow> bool) \<Rightarrow> nat \<Rightarrow> suppression_db \<Rightarrow>
    scan_job \<Rightarrow> int \<Rightarrow> int \<Rightarrow> image_settings \<Rightarrow> (string \<rightharpoonup> package list) \<times> 'w \<Rightarrow>
    ((string \<rightharpoonup> package list) \<times> 'w) \<times> (pipeline_error, 'f scan_result) result option" where
  "run_pipeline E ok now sdb job started finished settings cw = (case extract_sbom E ok (locator job) cw of
     (cw', None) \<Rightarrow> (cw', None)
   | (cw', Some (Inl e)) \<Rightarrow> (cw', Some (Inl e))
   | (cw', Some (Inr packages)) \<Rightarrow>
      (cw', Some
        (let found = (case se_query E packages of Inl _ \<Rightarrow> [] | Inr vs \<Rightarrow> vs) in
         if found \<noteq> [] \<and> \<not> ok ''suppress'' [] then Inl (OtherScan ''suppress'')
         else
           (let vulns = suppression_apply now (jb_tenant job) (jb_project job) (jb_repository job) sdb found in
            Inr \<lparr>sr_job = job, sr_status = Completed, sr_error = None, sr_started = started, sr_completed = Some finished,
              sr_summary = summarize vulns, sr_vulnerabilities = vulns,
              sr_policy = Some (evaluate (effective_policy E settings) vulns), sr_packages = packages\<rparr>))))"

definition in_progress :: "scan_job \<Rightarrow> int \<Rightarrow> 'f scan_result" where
  "in_progress job started = \<lparr>sr_job = job, sr_status = InProgress, sr_error = None, sr_started = started,
     sr_completed = None, sr_summary = empty_summary, sr_vulnerabilities = [], sr_policy = None, sr_packages = []\<rparr>"

definition try_dedup_hit :: "bool \<Rightarrow> scan_job \<Rightarrow> 'f scan_state \<Rightarrow> 'f scan_result option" where
  "try_dedup_hit read job s = (if \<not> read then None else case sc_results s (jb_digest job) of
     Some r \<Rightarrow> if sr_status r = Completed then Some r else None | None \<Rightarrow> None)"

definition deduped :: "scan_job \<Rightarrow> int \<Rightarrow> 'f scan_result \<Rightarrow> 'f scan_result" where
  "deduped job now cached = cached\<lparr>sr_job := job, sr_status := Completed, sr_error := None, sr_started := now,
     sr_completed := Some now\<rparr>"

text \<open>The statements after a result is stored; the first that fails ends the job with its error.\<close>

definition finish_counts :: "('w, 'h, 'u, 'f) scan_env \<Rightarrow> (string \<Rightarrow> string \<Rightarrow> bool) \<Rightarrow> int \<Rightarrow> 'f scan_result \<Rightarrow> 'f scan_state \<Rightarrow>
    'f scan_state \<times> (pipeline_error, unit) result" where
  "finish_counts E ok now r s =
    (case update_counts (ok ''counts'' []) (sr_job r) (sr_summary r) s of
       (s1, Inl e) \<Rightarrow> (s1, Inl e)
     | (s1, Inr _) \<Rightarrow> (case record_status (ok ''status-completed'' []) now (sr_job r) Completed None s1 of
         (s2, Inl e) \<Rightarrow> (s2, Inl e)
       | (s2, Inr _) \<Rightarrow> (on_scan_complete (se_notify E) r s2, Inr ())))"

definition persist_deduped :: "('w, 'h, 'u, 'f) scan_env \<Rightarrow> (string \<Rightarrow> string \<Rightarrow> bool) \<Rightarrow> int \<Rightarrow> scan_job \<Rightarrow> 'f scan_result \<Rightarrow>
    'f scan_state \<Rightarrow> 'f scan_state \<times> (pipeline_error, unit) result" where
  "persist_deduped E ok now job cached s =
    (let r = deduped job now cached; s1 = put_result (ok ''put-final'' []) r s in
     case record_status (ok ''status-progress'' []) now job InProgress None s1 of
       (s2, Inl e) \<Rightarrow> (s2, Inl e)
     | (s2, Inr _) \<Rightarrow> finish_counts E ok now r s2)"

definition process_job :: "('w, 'h, 'u, 'f) scan_env \<Rightarrow> (string \<Rightarrow> string \<Rightarrow> bool) \<Rightarrow> nat \<Rightarrow> int \<Rightarrow> int \<Rightarrow> settings_table \<Rightarrow>
    suppression_db \<Rightarrow> scan_job \<Rightarrow> 'f scan_state \<times> 'w \<Rightarrow> ('f scan_state \<times> 'w) \<times> (pipeline_error, unit) result option" where
  "process_job E ok now started finished table sdb job = (\<lambda>(s, w).
    (let settings = (case settings_get (ok ''settings'' []) (jb_tenant job) (jb_project job) (jb_repository job) table of
         Inl _ \<Rightarrow> default_settings | Inr x \<Rightarrow> x) in
     if \<not> is_scan_enabled settings then ((s, w), Some (Inr ()))
     else (case (if se_dedup E then try_dedup_hit (ok ''dedup-get'' []) job s else None) of
       Some cached \<Rightarrow> (case persist_deduped E ok started job cached s of (s', r) \<Rightarrow> ((s', w), Some r))
     | None \<Rightarrow>
        (case record_status (ok ''status-progress'' []) started job InProgress None s of
           (s1, Inl e) \<Rightarrow> ((s1, w), Some (Inl e))
         | (s1, Inr _) \<Rightarrow>
            (let s2 = put_result (ok ''put-progress'' []) (in_progress job started) s1 in
             case run_pipeline E ok now sdb job started finished settings (sc_layers s2, w) of
               ((cache, w'), None) \<Rightarrow> ((s2\<lparr>sc_layers := cache\<rparr>, w'), None)
             | ((cache, w'), Some (Inl e)) \<Rightarrow>
                 (let s3 = fst (record_status (ok ''status-failed'' []) finished job Failed (Some (se_error_text E e))
                       (s2\<lparr>sc_layers := cache\<rparr>));
                      r = (in_progress job started)\<lparr>sr_status := Failed, sr_error := Some (se_error_text E e),
                        sr_completed := Some finished\<rparr> in
                  ((put_result (ok ''put-final'' []) r s3, w'), Some (Inr ())))
             | ((cache, w'), Some (Inr r)) \<Rightarrow>
                 (case finish_counts E ok finished r (put_result (ok ''put-final'' []) r (s2\<lparr>sc_layers := cache\<rparr>)) of
                    (s3, x) \<Rightarrow> ((s3, w'), Some x)))))))"

text \<open>\<open>Worker::run\<close> over the jobs the queue hands out: the result of a job is only logged.\<close>

fun worker_run :: "('w, 'h, 'u, 'f) scan_env \<Rightarrow> (scan_job \<times> (string \<Rightarrow> string \<Rightarrow> bool) \<times> nat \<times> int \<times> int) list \<Rightarrow> settings_table \<Rightarrow>
    suppression_db \<Rightarrow> 'f scan_state \<times> 'w \<Rightarrow> ('f scan_state \<times> 'w) option" where
  "worker_run E [] table sdb sw = Some sw"
| "worker_run E ((job, ok, now, started, finished) # jobs) table sdb sw =
    (case process_job E ok now started finished table sdb job sw of
       (sw', None) \<Rightarrow> None | (sw', Some _) \<Rightarrow> worker_run E jobs table sdb sw')"

section \<open>The scan never panics\<close>

text \<open>
  The filter of the image reader lets through exactly the files that \<open>dispatch\<close> knows by
  name, so the parser of Go binaries is never called.
\<close>

lemma dispatch_interesting:
  assumes "is_interesting p"
  shows "\<exists>ps. dispatch C layer p buf = Some ps"
proof -
  obtain qs where "rpm_parse layer buf = Some qs"
    using rpm_scan_total [of layer "{}" buf] by (auto simp: rpm_parse_def)
  then show ?thesis
    using assms unfolding dispatch_def is_interesting_def by (simp split: if_splits) blast
qed

lemma walk_entries_total: "\<exists>ps. walk_entries C layer es = Some ps"
proof (induction es)
  case (Cons e es)
  show ?case
  proof (cases e)
    case TarError
    with Cons show ?thesis by simp
  next
    case (Entry regular p contents)
    show ?thesis
  proof (cases "regular \<and> (\<exists>raw buf. p = Some raw \<and> contents = Some buf \<and> is_interesting (trim_dot_slash raw))")
    case True
    then obtain raw buf where e: "regular" "p = Some raw" "contents = Some buf" "is_interesting (trim_dot_slash raw)"
      by blast
    obtain ps where "dispatch C layer (trim_dot_slash raw) buf = Some ps"
      using dispatch_interesting [OF e(4)] by blast
    with e Cons Entry show ?thesis by (auto simp: Let_def)
  next
    case False
    then have "walk_entries C layer (e # es) = walk_entries C layer es"
      by (cases regular; cases p; cases contents) (auto simp: Let_def Entry)
    with Cons show ?thesis by simp
  qed
  qed
qed simp

lemma walk_layer_total: "walk_layer E l data = None \<longleftrightarrow> False"
proof -
  have "(case se_tar E codec data of
      Inl e \<Rightarrow> Some (Inl (Image (''tar entries: '' @ e)))
    | Inr es \<Rightarrow> map_option Inr (walk_entries (se_crates E) (ly_digest l) es)) \<noteq> None" for codec
    using walk_entries_total [of "se_crates E" "ly_digest l"] by (auto split: sum.splits)
  then show ?thesis
    by (simp add: walk_layer_def Let_def)
qed

lemma walk_selected_layers_total: "walk_selected_layers E loc ls w = (w', None) \<longleftrightarrow> False"
proof (induction ls arbitrary: w w')
  case (Cons l ls)
  then show ?case
    by (auto simp: walk_layer_total split: prod.splits sum.splits option.splits if_splits)
qed simp

lemma extract_sbom_total: "extract_sbom E ok loc cw = (cw', None) \<longleftrightarrow> False"
  by (auto simp: extract_sbom_def Let_def walk_selected_layers_total split: prod.splits sum.splits option.splits if_splits)

lemma run_pipeline_total: "run_pipeline E ok now sdb job st fin settings cw = (cw', None) \<longleftrightarrow> False"
  by (auto simp: run_pipeline_def extract_sbom_total split: prod.splits sum.splits option.splits)

text \<open>C20. The scan worker survives every image: whatever the manifest, the layers and the files in
  them hold, and whichever statements fail, processing a job ends with a result or an
  error, never with a panic.\<close>

theorem scan_job_never_panics:
  "snd (process_job E ok now started finished table sdb job sw) \<noteq> None"
  by (cases sw) (auto simp: process_job_def Let_def run_pipeline_total split: prod.splits sum.splits option.splits)

section \<open>The layer cache\<close>

lemma split_cached_rest:
  "snd (split_cached ok cache ls) = filter (\<lambda>l. \<not> ok ''layer-get'' (ly_digest l) \<or> cache (ly_digest l) = None) ls"
  by (induction ls) (auto simp: Let_def split: prod.splits option.splits if_splits)

lemma cache_layers_spent:
  assumes "cache_layers ok ls groups cache = (cache', out)" "ok ''layer-put'' d" "groups d = []"
    and "d \<in> ly_digest ` set ls \<or> cache d = Some []"
  shows "cache' d = Some []"
  using assms
proof (induction ls arbitrary: groups cache out)
  case (Cons l ls)
  obtain rest where rec: "cache_layers ok ls (groups(ly_digest l := [])) (if ok ''layer-put'' (ly_digest l) then cache(ly_digest l \<mapsto> groups (ly_digest l)) else cache) = (cache', rest)"
    using Cons.prems(1) by (auto simp: Let_def split: prod.splits)
  show ?case
    using Cons.IH [OF rec Cons.prems(2)] Cons.prems(2-4) by (cases "d = ly_digest l") auto
qed simp

lemma cache_layers_twice:
  assumes "cache_layers ok ls groups cache = (cache', out)" "ok ''layer-put'' d"
    and "2 \<le> length (filter (\<lambda>l. ly_digest l = d) ls)"
  shows "cache' d = Some []"
  using assms
proof (induction ls arbitrary: groups cache out)
  case (Cons l ls)
  obtain rest where rec: "cache_layers ok ls (groups(ly_digest l := [])) (if ok ''layer-put'' (ly_digest l) then cache(ly_digest l \<mapsto> groups (ly_digest l)) else cache) = (cache', rest)"
    using Cons.prems(1) by (auto simp: Let_def split: prod.splits)
  show ?case
  proof (cases "ly_digest l = d")
    case True
    then have "filter (\<lambda>l. ly_digest l = d) ls \<noteq> []"
      using Cons.prems(3) by (cases "filter (\<lambda>l. ly_digest l = d) ls") auto
    then have "d \<in> ly_digest ` set ls"
      by (auto simp: filter_empty_conv)
    then show ?thesis
      by (intro cache_layers_spent [OF rec Cons.prems(2)]) (simp_all add: True)
  next
    case False
    then show ?thesis
      by (intro Cons.IH [OF rec Cons.prems(2)]) (use Cons.prems(3) in simp)
  qed
qed simp

text \<open>Every package carries the layer it was found in.\<close>

definition from_layer :: "string \<Rightarrow> package list \<Rightarrow> bool" where
  "from_layer layer ps \<longleftrightarrow> (\<forall>p \<in> set ps. pkg_layer_digest p = Some layer)"

lemma from_layer_simps [simp]:
  "from_layer layer []" "from_layer layer (ps @ qs) \<longleftrightarrow> from_layer layer ps \<and> from_layer layer qs"
  "from_layer layer (p # ps) \<longleftrightarrow> pkg_layer_digest p = Some layer \<and> from_layer layer ps"
  by (auto simp: from_layer_def)

lemma mk_package_layer [simp]: "pkg_layer_digest (mk_package eco pfx layer n v) = Some layer"
  by (simp add: mk_package_def)

lemma from_layer_text:
  "from_layer layer (dpkg_parse layer b)" "from_layer layer (apk_db_parse layer b)" "from_layer layer (cargo_parse C layer b)"
  by (auto simp: from_layer_def dpkg_parse_def dpkg_paragraph_def apk_db_parse_def apk_paragraph_def cargo_parse_def Let_def
      split: option.splits prod.splits if_splits)

lemma from_layer_go: "from_layer layer (go_sum_parse layer b)"
proof -
  have "from_layer layer (go_lines layer seen ls)" for seen ls
    by (induction layer seen ls rule: go_lines.induct) (auto simp: Let_def split: list.splits)
  then show ?thesis by (simp add: go_sum_parse_def split: option.splits)
qed

lemma from_layer_filter_map: "(\<And>x p. f x = Some p \<Longrightarrow> pkg_layer_digest p = Some layer) \<Longrightarrow> from_layer layer (filter_map f xs)"
  by (induction xs) (auto simp: map_filter_def from_layer_def split: option.splits)

lemma from_layer_pypi: "from_layer layer (pypi_parse layer p b)"
proof -
  have "requirement layer raw = Some q \<Longrightarrow> pkg_layer_digest q = Some layer" for raw q
    by (auto simp: requirement_def Let_def split: option.splits prod.splits if_splits)
  then have "from_layer layer (filter_map (requirement layer) ls)" for ls
    by (rule from_layer_filter_map)
  then show ?thesis
    by (auto simp: pypi_parse_def parse_metadata_def parse_requirements_def split: option.splits prod.splits)
qed

lemma from_layer_npm: "from_layer layer (npm_parse C layer b)"
proof -
  have v1: "from_layer layer (walk_v1 layer deps)" for deps
    by (induction layer deps rule: walk_v1.induct)
      (auto simp: npm_package_def split: option.splits json.splits)
  have "npm_entry layer kv = Some q \<Longrightarrow> pkg_layer_digest q = Some layer" for kv q
    by (auto simp: npm_entry_def npm_package_def split: option.splits prod.splits if_splits)
  then have "from_layer layer (filter_map (npm_entry layer) kvs)" for kvs
    by (rule from_layer_filter_map)
  with v1 show ?thesis
    by (auto simp: npm_parse_def split: option.splits prod.splits)
qed

lemma from_layer_rpm: "rpm_parse layer b = Some ps \<Longrightarrow> from_layer layer ps"
proof -
  have "rpm_scan layer seen rest = Some ps \<Longrightarrow> from_layer layer ps" for seen rest ps
  proof (induction layer seen rest arbitrary: ps rule: rpm_scan.induct)
    case (1 layer seen rest)
    show ?case
      using 1 by (subst (asm) (4) rpm_scan.simps)
        (auto simp: Let_def rpm_package_def split: option.splits if_splits)
  qed
  then show "rpm_parse layer b = Some ps \<Longrightarrow> from_layer layer ps"
    by (simp add: rpm_parse_def)
qed

lemma from_layer_binary: "binary_parse layer b = Some ps \<Longrightarrow> from_layer layer ps"
proof -
  have "from_layer layer (modinfo_lines layer seen ls)" for seen ls
    by (induction layer seen ls rule: modinfo_lines.induct) (auto split: option.splits prod.splits)
  then show "binary_parse layer b = Some ps \<Longrightarrow> from_layer layer ps"
    by (auto simp: binary_parse_def parse_modinfo_def split: option.splits if_splits)
qed

lemma from_layer_dispatch: "dispatch C layer p b = Some ps \<Longrightarrow> from_layer layer ps"
  using from_layer_rpm [of layer b ps] from_layer_binary [of layer b ps]
  by (auto simp: dispatch_def from_layer_text from_layer_go from_layer_pypi from_layer_npm split: if_splits)

lemma walk_entries_Cons:
  assumes "walk_entries C layer (e # es) = Some ps"
  shows "\<exists>qs rs. ps = qs @ rs \<and> from_layer layer qs \<and> walk_entries C layer es = Some rs"
proof (cases "walk_entries C layer (e # es) = walk_entries C layer es")
  case True
  then show ?thesis
    using assms from_layer_simps(1) by (metis append_Nil)
next
  case False
  then obtain qs rs p buf where "dispatch C layer p buf = Some qs" "walk_entries C layer es = Some rs" "ps = qs @ rs"
    using assms by (cases e) (auto simp: Let_def split: option.splits if_splits bool.splits)
  then show ?thesis
    using from_layer_dispatch by blast
qed

lemma from_layer_entries: "walk_entries C layer es = Some ps \<Longrightarrow> from_layer layer ps"
  by (induction es arbitrary: ps) (auto dest!: walk_entries_Cons)

lemma from_layer_walk: "walk_layer E l data = Some (Inr ps) \<Longrightarrow> from_layer (ly_digest l) ps"
  by (auto simp: walk_layer_def Let_def split: if_splits sum.splits dest!: from_layer_entries)

definition unreadable :: "string \<Rightarrow> bool" where
  "unreadable mt \<longleftrightarrow> \<not> contains_str ''gzip'' mt \<and> \<not> contains_str ''tar+gzip'' mt \<and> \<not> contains_str ''zstd'' mt \<and>
     \<not> contains_str ''tar'' mt"

lemma walk_unreadable: "unreadable (ly_media_type l) \<Longrightarrow> walk_layer E l data = Some (Inr [])"
  by (simp add: unreadable_def walk_layer_def)

lemma walk_selected_collected:
  assumes "walk_selected_layers E loc ls w = (w', Some (Inr ps))" "p \<in> set ps"
  shows "\<exists>l data qs. l \<in> set ls \<and> walk_layer E l data = Some (Inr qs) \<and> p \<in> set qs"
  using assms
proof (induction ls arbitrary: w ps)
  case (Cons l ls)
  obtain w1 data where fetch: "fetch_layer_blob E loc (ly_digest l) w = (w1, Inr data)"
    using Cons.prems(1) by (auto split: prod.splits sum.splits)
  show ?case
  proof (cases "length data > MAX_LAYER_BYTES")
    case True
    then show ?thesis
      using Cons.IH [of w1 ps] Cons.prems fetch by fastforce
  next
    case False
    then obtain qs rs w2 where "walk_layer E l data = Some (Inr qs)" "walk_selected_layers E loc ls w1 = (w2, Some (Inr rs))"
      "w2 = w'" "ps = qs @ rs"
      using Cons.prems(1) fetch by (auto split: prod.splits sum.splits option.splits)
    then show ?thesis
      using Cons.IH [of w1 rs] Cons.prems(2) by (cases "p \<in> set qs") fastforce+
  qed
qed simp

lemma extract_sbomE:
  assumes "extract_sbom E ok loc (cache, w) = ((cache', w'), Some (Inr ps))" "resolve_layers E loc w = (w1, Inr layers)"
    and "snd (split_cached ok cache layers) \<noteq> []"
  obtains collected walked where
    "walk_selected_layers E loc (snd (split_cached ok cache layers)) w1 = (w', Some (Inr collected))"
    "cache_layers ok (snd (split_cached ok cache layers)) (by_layer collected) cache = (cache', walked)"
    "ps = fst (split_cached ok cache layers) @ walked"
proof -
  obtain hits to_walk where split: "split_cached ok cache layers = (hits, to_walk)"
    by fastforce
  show ?thesis
    using assms that unfolding split
    by (auto simp: extract_sbom_def split Let_def split: prod.splits option.splits sum.splits)
qed

text \<open>C21. One image can blind the scanner for others. A manifest that lists a layer twice, or declares
  a media type the reader does not know for it, makes the worker cache an empty package
  list under the digest of that layer. Until the entry expires, an image of any tenant
  that consists of the same layer is found to contain no packages.\<close>

theorem layer_cache_poisoned:
  assumes "resolve_layers E loc w = (w1, Inr layers)" "extract_sbom E ok loc (cache, w) = ((cache', w'), Some (Inr ps))"
    and "cache d = None" "ok ''layer-put'' d" "d \<in> ly_digest ` set layers"
    and "2 \<le> length (filter (\<lambda>l. ly_digest l = d) layers) \<or>
      (\<forall>l \<in> set layers. ly_digest l = d \<longrightarrow> unreadable (ly_media_type l))"
    and "resolve_layers E loc2 w2 = (w3, Inr [l2])" "ly_digest l2 = d" "ok2 ''layer-get'' d"
  shows "cache' d = Some [] \<and> extract_sbom E ok2 loc2 (cache', w2) = ((cache', w3), Some (Inr []))"
proof -
  let ?walk = "snd (split_cached ok cache layers)"
  have here: "filter (\<lambda>l. ly_digest l = d) ?walk = filter (\<lambda>l. ly_digest l = d) layers"
    unfolding split_cached_rest filter_filter using assms(3) by (intro filter_cong) auto
  obtain l where l: "l \<in> set layers" "ly_digest l = d"
    using assms(5) by blast
  then have "l \<in> set ?walk"
    using assms(3) by (simp add: split_cached_rest)
  then have walk: "?walk \<noteq> []" "d \<in> ly_digest ` set ?walk"
    using l by auto
  obtain collected walked where col: "walk_selected_layers E loc ?walk w1 = (w', Some (Inr collected))"
    and put: "cache_layers ok ?walk (by_layer collected) cache = (cache', walked)"
    using extract_sbomE [OF assms(2,1) walk(1)] by blast
  have empty: "cache' d = Some []"
    using assms(6)
  proof
    assume "2 \<le> length (filter (\<lambda>l. ly_digest l = d) layers)"
    then show ?thesis
      by (intro cache_layers_twice [OF put assms(4)]) (simp add: here)
  next
    assume unread: "\<forall>l \<in> set layers. ly_digest l = d \<longrightarrow> unreadable (ly_media_type l)"
    have "layer_key p \<noteq> d" if p: "p \<in> set collected" for p
    proof -
      obtain l data qs where l: "l \<in> set ?walk" "walk_layer E l data = Some (Inr qs)" "p \<in> set qs"
        using walk_selected_collected [OF col p] by blast
      then have "layer_key p = ly_digest l"
        using from_layer_walk [OF l(2)] by (simp add: from_layer_def layer_key_def)
      moreover have "ly_digest l \<noteq> d"
        using unread l walk_unreadable [of l E data] by (auto simp: split_cached_rest)
      ultimately show ?thesis by simp
    qed
    then have "by_layer collected d = []"
      by (simp add: by_layer_def filter_empty_conv)
    then show ?thesis
      using cache_layers_spent [OF put assms(4)] walk(2) by blast
  qed
  then show ?thesis
    using assms(7-9) by (simp add: extract_sbom_def)
qed

definition demo_layer :: json where
  "demo_layer = Object [(''digest'', String ''sha256:l''), (''mediaType'', String ''tar'')]"

text \<open>An image that lists a layer with an RPM database twice, and one that lists it once.\<close>

definition demo_scan :: "(mem_world, bytes, nat \<times> path, unit) scan_env" where
  "demo_scan = \<lparr>se_store = mem_store,
     se_crates = \<lparr>sb_json = (\<lambda>b. Some (Object [(''layers'', Array (if b = ''twice'' then [demo_layer, demo_layer] else [demo_layer]))])),
       sb_toml_lock = (\<lambda>_. Some [\<lparr>lp_name = ''left'', lp_version = ''1'', lp_source = Some ''registry+x''\<rparr>])\<rparr>,
     se_tar = (\<lambda>_ b. Inr [Entry True (Some ''Cargo.lock'') (Some b)]),
     se_zstd_ok = (\<lambda>_. True), se_query = (\<lambda>_. Inr []), se_yaml = (\<lambda>_. None), se_error_text = (\<lambda>_. []),
     se_default_policy = \<lparr>block_if = \<lparr>rule_critical = None, rule_high = None, rule_medium = None, rule_low = None\<rparr>\<rparr>, se_dedup = True, se_notify = False\<rparr>"

definition demo_image :: "string \<Rightarrow> string \<Rightarrow> image_locator" where
  "demo_image t d = \<lparr>il_tenant = t, il_project = ''p'', il_repository = ''r'', il_digest = d\<rparr>"

definition demo_bucket :: mem_world where
  "demo_bucket = mem_init [(''t/p/r/manifests/m1'', ''twice''), (''t/p/r/blobs/sha256/l'', ''x''),
     (''u/p/r/manifests/m2'', ''once''), (''u/p/r/blobs/sha256/l'', ''x'')] []"

lemma fetch_demo:
  assumes "faults w = []" "map_of (objects w) k = Some d"
  shows "fetch_object demo_scan k w = (w\<lparr>op_count := Suc (Suc (op_count w))\<rparr>, Inr d)"
  using assms by (simp add: fetch_object_def demo_scan_def mem_store_def mem_io_def mem_get_def next_fault_def)

abbreviation demo_descriptor :: layer_descriptor where
  "demo_descriptor \<equiv> \<lparr>ly_digest = ''sha256:l'', ly_media_type = ''tar''\<rparr>"

abbreviation demo_crate :: package where
  "demo_crate \<equiv> mk_package ''cargo'' ''pkg:cargo/'' ''sha256:l'' ''left'' ''1''"

lemma demo_layers:
  "Option.bind (sb_json (se_crates demo_scan) ''twice'') de_manifest =
    Some \<lparr>im_media_type = None, im_manifests = [], im_layers = [demo_descriptor, demo_descriptor]\<rparr>"
  "Option.bind (sb_json (se_crates demo_scan) ''once'') de_manifest =
    Some \<lparr>im_media_type = None, im_manifests = [], im_layers = [demo_descriptor]\<rparr>"
  by code_simp+

lemma demo_image_layers:
  assumes "faults w = []" "map_of (objects w) (t @ ''/p/r/manifests/'' @ d) = Some b" "b = ''twice'' \<or> b = ''once''"
  shows "resolve_layers demo_scan (demo_image t d) w =
    (w\<lparr>op_count := Suc (Suc (op_count w))\<rparr>, Inr (if b = ''twice'' then [demo_descriptor, demo_descriptor] else [demo_descriptor]))"
proof -
  have "fetch_manifest_bytes demo_scan (demo_image t d) d w = (w\<lparr>op_count := Suc (Suc (op_count w))\<rparr>, Inr b)"
    using fetch_demo [OF assms(1,2)] by (simp add: fetch_manifest_bytes_def manifest_path_def demo_image_def)
  then show ?thesis
    using assms(3) by (auto simp: resolve_layers_def demo_layers is_index_def demo_image_def)
qed

lemma demo_layer_packages: "walk_layer demo_scan demo_descriptor ''x'' = Some (Inr [demo_crate])"
  by code_simp

lemma demo_extracted:
  "extract_sbom demo_scan (\<lambda>_ _. True) (demo_image ''t'' ''m1'') (Map.empty, demo_bucket) =
    ((Map.empty(''sha256:l'' \<mapsto> []), demo_bucket\<lparr>op_count := 6\<rparr>), Some (Inr [demo_crate, demo_crate]))"
proof -
  have first: "resolve_layers demo_scan (demo_image ''t'' ''m1'') demo_bucket =
      (demo_bucket\<lparr>op_count := 2\<rparr>, Inr [demo_descriptor, demo_descriptor])"
    by (subst demo_image_layers [where b = "''twice''"]) (simp_all add: demo_bucket_def mem_init_def)
  have blob: "fetch_layer_blob demo_scan (demo_image ''t'' ''m1'') ''sha256:l'' (demo_bucket\<lparr>op_count := n\<rparr>) =
      (demo_bucket\<lparr>op_count := Suc (Suc n)\<rparr>, Inr ''x'')" for n
    unfolding fetch_layer_blob_def
    by (subst fetch_demo [where d = "''x''"]) (simp_all add: demo_bucket_def mem_init_def blob_path_def demo_image_def
      strip_prefix_or_def)
  have "walk_selected_layers demo_scan (demo_image ''t'' ''m1'') [demo_descriptor, demo_descriptor] (demo_bucket\<lparr>op_count := 2\<rparr>) =
      (demo_bucket\<lparr>op_count := 6\<rparr>, Some (Inr [demo_crate, demo_crate]))"
    by (simp add: blob demo_layer_packages MAX_LAYER_BYTES_def)
  then show ?thesis
    by (simp add: extract_sbom_def first by_layer_def layer_key_def Let_def)
qed

theorem layer_cache_poisoned_witness:
  "\<exists>cache w. extract_sbom demo_scan (\<lambda>_ _. True) (demo_image ''t'' ''m1'') (Map.empty, demo_bucket) =
      ((cache, w), Some (Inr [demo_crate, demo_crate])) \<and>
    cache ''sha256:l'' = Some [] \<and>
    snd (extract_sbom demo_scan (\<lambda>_ _. True) (demo_image ''u'' ''m2'') (cache, w)) = Some (Inr [])"
proof -
  have first: "resolve_layers demo_scan (demo_image ''t'' ''m1'') demo_bucket =
      (demo_bucket\<lparr>op_count := 2\<rparr>, Inr [demo_descriptor, demo_descriptor])"
    by (subst demo_image_layers [where b = "''twice''"]) (simp_all add: demo_bucket_def mem_init_def)
  have second: "resolve_layers demo_scan (demo_image ''u'' ''m2'') (demo_bucket\<lparr>op_count := 6\<rparr>) =
      (demo_bucket\<lparr>op_count := 8\<rparr>, Inr [demo_descriptor])"
    by (subst demo_image_layers [where b = "''once''"]) (simp_all add: demo_bucket_def mem_init_def)
  show ?thesis
    using layer_cache_poisoned [OF first demo_extracted _ _ _ _ second] demo_extracted by auto
qed

end
