(* ===== verification/Admission.thy ===== *)
theory Admission
  imports Scan_Worker "HOL-Library.AList"
begin

text \<open>
  The pull-time admission gate (\<open>specton-registry/src/admission.rs\<close>): policies with their
  scope, the verdict of one policy on a scan result and a signature check, the worst
  verdict over the applicable policies, the in-process decision cache, and the two
  Postgres tables. The monotonic clock is an argument, \<open>clk i\<close> being its i-th reading.
\<close>

section \<open>Policies\<close>

datatype on_unknown = UnknownBlock | UnknownScan | UnknownAllow

datatype on_timeout = TimeoutBlock | TimeoutWarn | TimeoutAllow

record severity_threshold =
  st_block :: block_rules
  st_warn :: block_rules

definition no_rules :: block_rules where
  "no_rules = \<lparr>rule_critical = None, rule_high = None, rule_medium = None, rule_low = None\<rparr>"

record admission_scope =
  as_projects :: "string list"
  as_repositories :: "string list"

record admission_spec =
  ap_scope :: admission_scope
  ap_signature_required :: bool
  ap_threshold :: severity_threshold
  ap_on_unknown :: on_unknown
  ap_on_timeout :: on_timeout
  ap_scan_wait :: nat

definition default_spec :: admission_spec where
  "default_spec = \<lparr>ap_scope = \<lparr>as_projects = [], as_repositories = []\<rparr>, ap_signature_required = False,
     ap_threshold = \<lparr>st_block = no_rules, st_warn = no_rules\<rparr>, ap_on_unknown = UnknownBlock,
     ap_on_timeout = TimeoutBlock, ap_scan_wait = 5\<rparr>"

record admission_policy =
  pl_id :: string
  pl_name :: string
  pl_tenant :: string
  pl_spec :: admission_spec
  pl_enabled :: bool
  pl_updated :: int

definition glob_match :: "string \<Rightarrow> string \<Rightarrow> bool" where
  "glob_match pattern value = (case strip_suffix ''*'' pattern of
     Some prefix \<Rightarrow> starts_with prefix value | None \<Rightarrow> pattern = value)"

definition matches_scope :: "admission_policy \<Rightarrow> string \<Rightarrow> string \<Rightarrow> bool" where
  "matches_scope p project repository \<longleftrightarrow>
    (let sc = ap_scope (pl_spec p) in
     (as_projects sc = [] \<or> list_ex (\<lambda>x. x = ''*'' \<or> x = project) (as_projects sc)) \<and>
     (as_repositories sc = [] \<or>
       list_ex (\<lambda>x. x = ''*'' \<or> x = repository \<or> glob_match x repository) (as_repositories sc)))"

section \<open>Verdicts\<close>

datatype verdict = Allow | WarnOf string | BlockOf string string

definition is_block :: "verdict \<Rightarrow> bool" where
  "is_block v \<longleftrightarrow> (case v of BlockOf _ _ \<Rightarrow> True | _ \<Rightarrow> False)"

fun merge_verdict :: "verdict \<Rightarrow> verdict \<Rightarrow> verdict" where
  "merge_verdict (BlockOf r c) b = BlockOf r c"
| "merge_verdict a (BlockOf r c) = BlockOf r c"
| "merge_verdict (WarnOf r) Allow = WarnOf r"
| "merge_verdict Allow (WarnOf r) = WarnOf r"
| "merge_verdict a b = a"

definition eval_text :: "policy_evaluation \<Rightarrow> string \<Rightarrow> string" where
  "eval_text ev dflt = (case eval_reason ev of None \<Rightarrow> dflt | Some n \<Rightarrow> show_nat n @ '' policy violation(s)'')"

definition evaluate_one :: "admission_policy \<Rightarrow> 'f scan_result option \<Rightarrow> bool option \<Rightarrow> verdict" where
  "evaluate_one p scan signature_ok =
    (let who = ''policy '' @ pl_name p @ '': ''; code = ''MANIFEST_UNVERIFIED''; spec = pl_spec p in
     if ap_signature_required spec \<and> signature_ok = Some False
     then BlockOf (who @ ''signature required but missing/invalid'') code
     else if ap_signature_required spec \<and> signature_ok = None then BlockOf (who @ ''signature required'') code
     else case scan of
       None \<Rightarrow> (case ap_on_unknown spec of
           UnknownAllow \<Rightarrow> Allow
         | UnknownScan \<Rightarrow> WarnOf (who @ ''no scan result; scan-on-pull deferred'')
         | UnknownBlock \<Rightarrow> BlockOf (who @ ''no scan result for digest'') code)
     | Some result \<Rightarrow>
        (let block_eval = evaluate \<lparr>block_if = st_block (ap_threshold spec)\<rparr> (sr_vulnerabilities result);
             warn_eval = evaluate \<lparr>block_if = st_warn (ap_threshold spec)\<rparr> (sr_vulnerabilities result) in
         if status block_eval = Fail then BlockOf (who @ eval_text block_eval ''severity threshold exceeded'') code
         else if status warn_eval = Fail then WarnOf (who @ eval_text warn_eval ''warn threshold exceeded'')
         else Allow))"

section \<open>The decision cache\<close>

type_synonym instant = nat

record cached_verdict =
  cv_verdict :: verdict
  cv_expires :: instant

record decision_cache =
  dc_entries :: "(string \<times> cached_verdict) list"
  dc_ttl :: nat

definition NANOS :: nat where
  "NANOS = 1000000000"

definition cache_new :: "nat \<Rightarrow> decision_cache" where
  "cache_new ttl_secs = \<lparr>dc_entries = [], dc_ttl = max ttl_secs 1 * NANOS\<rparr>"

definition cache_get :: "instant \<Rightarrow> string \<Rightarrow> decision_cache \<Rightarrow> verdict option" where
  "cache_get now k c = (case map_of (dc_entries c) k of
     None \<Rightarrow> None | Some e \<Rightarrow> if now \<ge> cv_expires e then None else Some (cv_verdict e))"

definition cache_put :: "instant \<Rightarrow> instant \<Rightarrow> string \<Rightarrow> verdict \<Rightarrow> decision_cache \<Rightarrow> decision_cache" where
  "cache_put now now' k v c =
    (let es = AList.update k \<lparr>cv_verdict = v, cv_expires = now + dc_ttl c\<rparr> (dc_entries c) in
     c\<lparr>dc_entries := (if length es > 10000 then filter (\<lambda>(_, e). cv_expires e > now') es else es)\<rparr>)"

record admission_input =
  ai_tenant :: string
  ai_project :: string
  ai_repository :: string
  ai_digest :: string
  ai_subject :: string
  ai_bypass :: bool
  ai_signature_ok :: "bool option"

definition cache_key :: "string \<Rightarrow> admission_policy \<Rightarrow> string" where
  "cache_key digest p = ''admit:'' @ digest @ '':'' @ pl_id p"

definition applicable :: "admission_policy list \<Rightarrow> admission_input \<Rightarrow> admission_policy list" where
  "applicable ps i = filter (\<lambda>p. pl_enabled p \<and> pl_tenant p = ai_tenant i \<and>
     matches_scope p (ai_project i) (ai_repository i)) ps"

text \<open>Each policy reads the clock at most three times: for the lookup, the entry and the prune.\<close>

fun evaluate_loop :: "(nat \<Rightarrow> instant) \<Rightarrow> nat \<Rightarrow> 'f scan_result option \<Rightarrow> admission_input \<Rightarrow> admission_policy list \<Rightarrow>
    verdict \<Rightarrow> decision_cache \<Rightarrow> decision_cache \<times> verdict" where
  "evaluate_loop clk n scan i [] worst c = (c, worst)"
| "evaluate_loop clk n scan i (p # ps) worst c =
    (let k = cache_key (ai_digest i) p in
     case cache_get (clk n) k c of
       Some v \<Rightarrow> evaluate_loop clk (n + 1) scan i ps (merge_verdict worst v) c
     | None \<Rightarrow>
        (let v = evaluate_one p scan (ai_signature_ok i) in
         evaluate_loop clk (n + 3) scan i ps (merge_verdict worst v) (cache_put (clk (n + 1)) (clk (n + 2)) k v c)))"

definition admission_evaluate :: "(nat \<Rightarrow> instant) \<Rightarrow> admission_policy list \<Rightarrow> 'f scan_result option \<Rightarrow> admission_input \<Rightarrow>
    decision_cache \<Rightarrow> decision_cache \<times> verdict" where
  "admission_evaluate clk ps scan i c =
    (if ai_bypass i then (c, Allow) else evaluate_loop clk 0 scan i (applicable ps i) Allow c)"

section \<open>The tables\<close>

text \<open>
  A row of \<open>admission_policies\<close>; the column \<open>spec\<close> is JSON, and what the decoder makes of it
  (\<open>None\<close> where it fails) is a parameter. A row of \<open>admission_decisions\<close>: digest, policy,
  verdict, reason, subject.
\<close>

record admission_row =
  aw_id :: string
  aw_name :: string
  aw_tenant :: string
  aw_spec :: json
  aw_enabled :: bool
  aw_updated :: int

type_synonym admission_decision = "string \<times> string option \<times> string \<times> string option \<times> string"

definition admission_upsert :: "(admission_spec \<Rightarrow> json) \<Rightarrow> bool \<Rightarrow> int \<Rightarrow> admission_policy \<Rightarrow> admission_row list \<Rightarrow>
    admission_row list \<times> (registry_error, unit) result" where
  "admission_upsert print stmt now p rows =
    (if \<not> stmt then (rows, Inl (Internal []))
     else if list_ex (\<lambda>r. aw_tenant r = pl_tenant p \<and> aw_name r = pl_name p) rows
     then (map (\<lambda>r. if aw_tenant r = pl_tenant p \<and> aw_name r = pl_name p
         then r\<lparr>aw_id := pl_id p, aw_spec := print (pl_spec p), aw_enabled := pl_enabled p, aw_updated := now\<rparr> else r) rows, Inr ())
     else (rows @ [\<lparr>aw_id = pl_id p, aw_name = pl_name p, aw_tenant = pl_tenant p, aw_spec = print (pl_spec p),
         aw_enabled = pl_enabled p, aw_updated = now\<rparr>], Inr ()))"

definition policy_of_row :: "admission_row \<Rightarrow> admission_spec \<Rightarrow> admission_policy" where
  "policy_of_row r spec = \<lparr>pl_id = aw_id r, pl_name = aw_name r, pl_tenant = aw_tenant r, pl_spec = spec,
     pl_enabled = aw_enabled r, pl_updated = aw_updated r\<rparr>"

fun decode_policies :: "(json \<Rightarrow> admission_spec option) \<Rightarrow> admission_row list \<Rightarrow> (registry_error, admission_policy list) result" where
  "decode_policies de [] = Inr []"
| "decode_policies de (r # rs) = (case de (aw_spec r) of
     None \<Rightarrow> Inl (Internal ''admission policy spec'')
   | Some spec \<Rightarrow> (case decode_policies de rs of Inl e \<Rightarrow> Inl e | Inr ps \<Rightarrow> Inr (policy_of_row r spec # ps)))"

definition list_tenant :: "(json \<Rightarrow> admission_spec option) \<Rightarrow> bool \<Rightarrow> string \<Rightarrow> admission_row list \<Rightarrow>
    (registry_error, admission_policy list) result" where
  "list_tenant de stmt tenant rows = (if \<not> stmt then Inl (Internal [])
     else decode_policies de (filter (\<lambda>r. aw_tenant r = tenant \<and> aw_enabled r) rows))"

definition list_all_enabled :: "(json \<Rightarrow> admission_spec option) \<Rightarrow> bool \<Rightarrow> admission_row list \<Rightarrow>
    (registry_error, admission_policy list) result" where
  "list_all_enabled de stmt rows = (if \<not> stmt then Inl (Internal [])
     else Inr (map (\<lambda>r. policy_of_row r (case de (aw_spec r) of None \<Rightarrow> default_spec | Some s \<Rightarrow> s))
       (filter aw_enabled rows)))"

definition verdict_row :: "verdict \<Rightarrow> string \<times> string option" where
  "verdict_row v = (case v of Allow \<Rightarrow> (''allow'', None) | WarnOf r \<Rightarrow> (''warn'', Some r) | BlockOf r _ \<Rightarrow> (''block'', Some r))"

definition record_decision :: "bool \<Rightarrow> string \<Rightarrow> string option \<Rightarrow> verdict \<Rightarrow> string \<Rightarrow> admission_decision list \<Rightarrow>
    admission_decision list \<times> (registry_error, unit) result" where
  "record_decision stmt digest policy v subject rows =
    (if \<not> stmt then (rows, Inl (Internal []))
     else (rows @ [(digest, policy, fst (verdict_row v), snd (verdict_row v), subject)], Inr ()))"

definition fetch_scan :: "bool \<Rightarrow> bool \<Rightarrow> string \<Rightarrow> (string \<rightharpoonup> 'f scan_result) \<Rightarrow> 'f scan_result option" where
  "fetch_scan configured readable digest results = (if configured \<and> readable then results digest else None)"

section \<open>The worst verdict\<close>

lemma merge_Allow [simp]: "merge_verdict a Allow = a" "merge_verdict Allow a = a"
  by (cases a; simp)+

lemma merge_Allow_iff [simp]: "merge_verdict a b = Allow \<longleftrightarrow> a = Allow \<and> b = Allow"
  by (cases a; cases b) simp_all

lemma is_block_merge [simp]: "is_block (merge_verdict a b) \<longleftrightarrow> is_block a \<or> is_block b"
  by (cases a; cases b) (simp_all add: is_block_def)

lemma foldl_merge:
  "is_block (foldl merge_verdict w vs) \<longleftrightarrow> is_block w \<or> (\<exists>v \<in> set vs. is_block v)"
  "foldl merge_verdict w vs = Allow \<longleftrightarrow> w = Allow \<and> (\<forall>v \<in> set vs. v = Allow)"
  by (induction vs arbitrary: w) auto

lemma set_update_other: "(k', e) \<in> set (AList.update k v al) \<Longrightarrow> k' \<noteq> k \<Longrightarrow> (k', e) \<in> set al"
  by (induction al) (auto split: if_splits)

text \<open>No entry for the key is live at any reading of the clock.\<close>

definition stale :: "(nat \<Rightarrow> instant) \<Rightarrow> string \<Rightarrow> decision_cache \<Rightarrow> bool" where
  "stale clk k c \<longleftrightarrow> (\<forall>(k', e) \<in> set (dc_entries c). k' = k \<longrightarrow> (\<forall>n. clk n \<ge> cv_expires e))"

lemma stale_get: "stale clk k c \<Longrightarrow> cache_get (clk n) k c = None"
  by (fastforce simp: stale_def cache_get_def split: option.splits dest: map_of_SomeD)

lemma stale_put: "stale clk k c \<Longrightarrow> k \<noteq> k' \<Longrightarrow> stale clk k (cache_put t t' k' v c)"
  by (fastforce simp: stale_def cache_put_def Let_def dest: set_update_other)

lemma cache_key_inj [simp]: "cache_key d p = cache_key d q \<longleftrightarrow> pl_id p = pl_id q"
  by (simp add: cache_key_def)

lemma evaluate_loop_stale:
  assumes "distinct (map pl_id ps)" "\<forall>p \<in> set ps. stale clk (cache_key (ai_digest i) p) c"
  shows "snd (evaluate_loop clk n scan i ps worst c) =
    foldl merge_verdict worst (map (\<lambda>p. evaluate_one p scan (ai_signature_ok i)) ps)"
  using assms
proof (induction ps arbitrary: n worst c)
  case (Cons p ps)
  let ?k = "cache_key (ai_digest i) p" and ?v = "evaluate_one p scan (ai_signature_ok i)"
  have "stale clk (cache_key (ai_digest i) q) (cache_put (clk (n + 1)) (clk (n + 2)) ?k ?v c)" if "q \<in> set ps" for q
    using Cons.prems that by (intro stale_put) (auto simp: image_iff)
  then show ?case
    using Cons.IH [of "cache_put (clk (n + 1)) (clk (n + 2)) ?k ?v c"] Cons.prems
    by (simp add: Let_def stale_get)
qed simp

text \<open>What blocks a pull under one policy.\<close>

definition blocking :: "admission_policy \<Rightarrow> 'f scan_result option \<Rightarrow> bool option \<Rightarrow> bool" where
  "blocking p scan sig \<longleftrightarrow>
    ap_signature_required (pl_spec p) \<and> sig \<noteq> Some True \<or>
    (case scan of None \<Rightarrow> ap_on_unknown (pl_spec p) = UnknownBlock
     | Some r \<Rightarrow> \<exists>sev rule. rule_for \<lparr>block_if = st_block (ap_threshold (pl_spec p))\<rparr> sev = Some rule \<and>
         rule_holds (count_open sev (sr_vulnerabilities r) mod 2 ^ 32) rule)"

lemma is_block_simps [simp]: "is_block (BlockOf r k)" "\<not> is_block (WarnOf r)" "\<not> is_block Allow"
  by (simp_all add: is_block_def)

lemma evaluate_one_block: "is_block (evaluate_one p scan sig) \<longleftrightarrow> blocking p scan sig"
proof (cases scan)
  case None
  then show ?thesis
    by (cases "ap_on_unknown (pl_spec p)"; cases sig) (auto simp: evaluate_one_def blocking_def Let_def)
next
  case (Some r)
  have rules: "(\<exists>sev rule. rule_for \<lparr>block_if = b\<rparr> sev = Some rule \<and> rule_holds (count_open sev vs mod 2 ^ 32) rule) \<longleftrightarrow>
      status (evaluate \<lparr>block_if = b\<rparr> vs) = Fail" for b and vs :: "'a vulnerability list"
    by (simp add: evaluate_status summarize_count)
  show ?thesis
    unfolding blocking_def Some option.case rules
    by (cases sig) (auto simp: evaluate_one_def Let_def)
qed

text \<open>What makes one policy warn, and which pulls it covers, a pattern ending in a star covering the
  repositories that start with the rest of it.\<close>

definition warning :: "admission_policy \<Rightarrow> 'f scan_result option \<Rightarrow> bool" where
  "warning p scan \<longleftrightarrow>
    (case scan of None \<Rightarrow> ap_on_unknown (pl_spec p) = UnknownScan
     | Some r \<Rightarrow> \<exists>sev rule. rule_for \<lparr>block_if = st_warn (ap_threshold (pl_spec p))\<rparr> sev = Some rule \<and>
         rule_holds (count_open sev (sr_vulnerabilities r) mod 2 ^ 32) rule)"

definition covers :: "admission_policy \<Rightarrow> admission_input \<Rightarrow> bool" where
  "covers p i \<longleftrightarrow> pl_enabled p \<and> pl_tenant p = ai_tenant i \<and>
    (let projects = set (as_projects (ap_scope (pl_spec p))); repos = set (as_repositories (ap_scope (pl_spec p))) in
     (projects = {} \<or> ''*'' \<in> projects \<or> ai_project i \<in> projects) \<and>
     (repos = {} \<or> ''*'' \<in> repos \<or> ai_repository i \<in> repos \<or> (\<exists>prefix rest. prefix @ ''*'' \<in> repos \<and> ai_repository i = prefix @ rest)))"

lemma evaluate_one_Allow: "evaluate_one p scan sig = Allow \<longleftrightarrow> \<not> blocking p scan sig \<and> \<not> warning p scan"
proof -
  have rules: "(\<exists>sev rule. rule_for \<lparr>block_if = b\<rparr> sev = Some rule \<and> rule_holds (count_open sev vs mod 2 ^ 32) rule) \<longleftrightarrow>
      status (evaluate \<lparr>block_if = b\<rparr> vs) = Fail" for b and vs :: "'a vulnerability list"
    by (simp add: evaluate_status summarize_count)
  show ?thesis
  proof (cases scan)
    case None
    then show ?thesis
      by (cases "ap_on_unknown (pl_spec p)"; cases sig) (auto simp: evaluate_one_def blocking_def warning_def Let_def)
  next
    case (Some r)
    then show ?thesis
      unfolding blocking_def warning_def Some option.case rules
      by (cases sig) (auto simp: evaluate_one_def Let_def)
  qed
qed

lemma applicable_covers: "p \<in> set (applicable ps i) \<longleftrightarrow> p \<in> set ps \<and> covers p i"
proof -
  have glob: "glob_match x repo \<longleftrightarrow> x = repo \<and> \<not> (\<exists>prefix. x = prefix @ ''*'') \<or> (\<exists>prefix rest. x = prefix @ ''*'' \<and> repo = prefix @ rest)" for x repo
    using strip_suffix_iff [of "''*''" x]
    by (cases "strip_suffix ''*'' x") (auto simp: glob_match_def starts_with_iff)
  show ?thesis
    by (auto simp: applicable_def covers_def matches_scope_def Let_def list_ex_iff glob)
qed

text \<open>C22. The gate blocks a pull exactly when one of the tenant's enabled policies in scope of the
  repository has a reason to: a required signature that was not verified, no scan result
  where the policy blocks the unknown, or a severity whose blocking rule holds of the number of
  findings that are not suppressed. It lets the pull through without a warning exactly
  when no such policy blocks or warns, a policy warning when it defers the scan of an unknown image or
  one of its warning rules holds. A caller with the bypass permission is always let through. The ids
  of the policies are distinct and no cached verdict is live.\<close>

theorem admission_exact:
  assumes "distinct (map pl_id ps)" "\<forall>p \<in> set ps. stale clk (cache_key (ai_digest i) p) c"
  shows "(is_block (snd (admission_evaluate clk ps scan i c)) \<longleftrightarrow>
      \<not> ai_bypass i \<and> (\<exists>p \<in> set ps. covers p i \<and> blocking p scan (ai_signature_ok i))) \<and>
    (snd (admission_evaluate clk ps scan i c) = Allow \<longleftrightarrow>
      ai_bypass i \<or> (\<forall>p \<in> set ps. covers p i \<longrightarrow> \<not> blocking p scan (ai_signature_ok i) \<and> \<not> warning p scan))"
proof (cases "ai_bypass i")
  case True
  then show ?thesis
    by (simp add: admission_evaluate_def)
next
  case False
  have "distinct (map pl_id (applicable ps i))"
    using assms(1) by (simp add: applicable_def distinct_map_filter)
  moreover have "\<forall>p \<in> set (applicable ps i). stale clk (cache_key (ai_digest i) p) c"
    using assms(2) by (simp add: applicable_def)
  ultimately have "snd (admission_evaluate clk ps scan i c) =
      foldl merge_verdict Allow (map (\<lambda>p. evaluate_one p scan (ai_signature_ok i)) (applicable ps i))"
    using False by (simp add: admission_evaluate_def evaluate_loop_stale)
  then show ?thesis
    using False by (auto simp: foldl_merge evaluate_one_block evaluate_one_Allow applicable_covers)
qed

definition demo_admission :: admission_policy where
  "demo_admission = \<lparr>pl_id = ''1'', pl_name = ''n'', pl_tenant = ''t'', pl_spec = default_spec\<lparr>ap_signature_required := True\<rparr>,
     pl_enabled = True, pl_updated = 0\<rparr>"

definition demo_pull :: "string \<Rightarrow> bool \<Rightarrow> admission_input" where
  "demo_pull repo sgd = \<lparr>ai_tenant = ''t'', ai_project = ''p'', ai_repository = repo, ai_digest = ''d'', ai_subject = ''s'',
     ai_bypass = False, ai_signature_ok = Some sgd\<rparr>"

lemma demo_applicable: "applicable [demo_admission] (demo_pull repo sgd) = [demo_admission]"
  by (simp add: applicable_def demo_admission_def demo_pull_def matches_scope_def default_spec_def)

theorem admission_exact_witness:
  "is_block (snd (admission_evaluate (\<lambda>n. n) [demo_admission] (None :: unit scan_result option) (demo_pull ''r'' False) (cache_new 60)))"
proof -
  have "distinct (map pl_id [demo_admission])"
    "\<forall>p \<in> set [demo_admission]. stale (\<lambda>n. n) (cache_key (ai_digest (demo_pull ''r'' False)) p) (cache_new 60)"
    by (simp_all add: demo_pull_def stale_def cache_new_def)
  from admission_exact [OF this, of "None :: unit scan_result option"] show ?thesis
    by (simp add: covers_def blocking_def) (simp add: demo_admission_def demo_pull_def default_spec_def)
qed

section \<open>What the gate does not see\<close>

text \<open>A rule that no scan without findings triggers.\<close>

definition quiet_rules :: "block_rules \<Rightarrow> bool" where
  "quiet_rules b \<longleftrightarrow> (\<forall>sev r. rule_for \<lparr>block_if = b\<rparr> sev = Some r \<longrightarrow> \<not> rule_holds 0 r)"

lemma quiet_evaluate: "quiet_rules b \<Longrightarrow> status (evaluate \<lparr>block_if = b\<rparr> []) = Pass"
  using evaluate_status [of "\<lparr>block_if = b\<rparr>" "[]"] summarize_count [of _ "[] :: 'a vulnerability list"]
  by (cases "status (evaluate \<lparr>block_if = b\<rparr> ([] :: 'a vulnerability list))")
    (auto simp: quiet_rules_def count_open_def)

lemma empty_result_allowed:
  assumes "sr_vulnerabilities r = []" "quiet_rules (st_block (ap_threshold (pl_spec p)))"
    and "quiet_rules (st_warn (ap_threshold (pl_spec p)))" "ap_signature_required (pl_spec p) \<longrightarrow> sig = Some True"
  shows "evaluate_one p (Some r) sig = Allow"
  using assms by (auto simp: evaluate_one_def Let_def quiet_evaluate)

lemma put_result_same: "sr_job x = job \<Longrightarrow> sc_results (put_result True x s) (jb_digest job) = Some x"
  by (simp add: put_result_def)

text \<open>The result a job stores when the pipeline fails.\<close>

lemma failed_job_result:
  assumes "sc_results s (jb_digest job) = None"
    and "settings = (case settings_get (ok ''settings'' []) (jb_tenant job) (jb_project job) (jb_repository job) table of
        Inl _ \<Rightarrow> default_settings | Inr x \<Rightarrow> x)" "is_scan_enabled settings"
    and "ok ''status-progress'' []" "ok ''put-final'' []"
    and "run_pipeline E ok now sdb job started finished settings (sc_layers s, w) = (cw, Some (Inl e))"
    and "process_job E ok now started finished table sdb job (s, w) = ((s', w'), r)"
  shows "\<exists>r. sc_results s' (jb_digest job) = Some r \<and> sr_status r = Failed \<and> sr_vulnerabilities r = []"
proof -
  have none: "(if c then try_dedup_hit b job s else None) = None" for b c
    using assms(1) by (simp add: try_dedup_hit_def)
  have "snd (record_status True started job InProgress None s) = Inr ()"
    by (simp add: record_status_def)
  then obtain s1 where s1: "record_status True started job InProgress None s = (s1, Inr ())"
    by (cases "record_status True started job InProgress None s") simp
  then have "sc_layers s1 = sc_layers s"
    using record_status_def [of True started job InProgress None s] by (auto split: if_splits)
  then have layers: "sc_layers (put_result b x s1) = sc_layers s" for b x
    by (simp add: put_result_def)
  obtain cache wc where cw: "cw = (cache, wc)" by fastforce
  show ?thesis
    using assms(3-7) by (auto simp: process_job_def Let_def assms(2) [symmetric] none s1 layers cw in_progress_def put_result_same)
qed

text \<open>C23. The gate takes a failed scan for a clean one. Before a scan, a policy that blocks unknown
  images blocks the digest; once the worker has stored the failed result of a scan
  that could not read the image, the same policy admits it, because the status of the result is
  never looked at.\<close>

theorem failed_scan_admitted:
  assumes "sc_results s (jb_digest job) = None"
    and "settings = (case settings_get (ok ''settings'' []) (jb_tenant job) (jb_project job) (jb_repository job) table of
        Inl _ \<Rightarrow> default_settings | Inr x \<Rightarrow> x)" "is_scan_enabled settings"
    and "ok ''status-progress'' []" "ok ''put-final'' []"
    and "run_pipeline E ok now sdb job started finished settings (sc_layers s, w) = (cw, Some (Inl e))"
    and "process_job E ok now started finished table sdb job (s, w) = ((s', w'), r)"
    and "ap_on_unknown (pl_spec p) = UnknownBlock" "\<not> ap_signature_required (pl_spec p)"
    and "quiet_rules (st_block (ap_threshold (pl_spec p)))" "quiet_rules (st_warn (ap_threshold (pl_spec p)))"
  shows "is_block (evaluate_one p (fetch_scan True True (jb_digest job) (sc_results s)) sig) \<and>
    (\<exists>x. sc_results s' (jb_digest job) = Some x \<and> sr_status x = Failed \<and>
      evaluate_one p (fetch_scan True True (jb_digest job) (sc_results s')) sig = Allow)"
proof -
  obtain x where "sc_results s' (jb_digest job) = Some x" "sr_status x = Failed" "sr_vulnerabilities x = []"
    using failed_job_result [OF assms(1-7)] by blast
  then show ?thesis
    using assms(1,8-) empty_result_allowed [of x p sig]
    by (simp add: evaluate_one_block blocking_def fetch_scan_def)
qed

definition demo_job :: scan_job where
  "demo_job = \<lparr>jb_id = ''1'', jb_digest = ''gone'', jb_tenant = ''t'', jb_project = ''p'', jb_repository = ''r'', jb_reference = ''v1''\<rparr>"

definition demo_scans :: "unit scan_state" where
  "demo_scans = \<lparr>sc_results = Map.empty, sc_layers = Map.empty, sc_scans = [], sc_alerts = []\<rparr>"

definition strict_policy :: admission_policy where
  "strict_policy = demo_admission\<lparr>pl_spec := default_spec\<rparr>"

lemma demo_pipeline_fails:
  "run_pipeline demo_scan (\<lambda>_ _. True) 0 \<lparr>suppressions = [], audit_log = []\<rparr> demo_job 0 1 default_settings (Map.empty, demo_bucket) =
    ((Map.empty, demo_bucket\<lparr>op_count := 1\<rparr>), Some (Inl (ObjectStore NotFound)))"
  by (simp add: run_pipeline_def extract_sbom_def resolve_layers_def fetch_manifest_bytes_def fetch_object_def demo_scan_def
      mem_store_def mem_io_def mem_get_def next_fault_def demo_bucket_def mem_init_def locator_def demo_job_def manifest_path_def)

theorem failed_scan_admitted_witness:
  "case process_job demo_scan (\<lambda>_ _. True) 0 0 1 Map.empty \<lparr>suppressions = [], audit_log = []\<rparr> demo_job (demo_scans, demo_bucket) of
     ((s', w'), r) \<Rightarrow> is_block (evaluate_one strict_policy (fetch_scan True True ''gone'' (sc_results demo_scans)) (Some True)) \<and>
       evaluate_one strict_policy (fetch_scan True True ''gone'' (sc_results s')) (Some True) = Allow"
proof -
  obtain s' w' r where run: "process_job demo_scan (\<lambda>_ _. True) 0 0 1 Map.empty \<lparr>suppressions = [], audit_log = []\<rparr> demo_job
      (demo_scans, demo_bucket) = ((s', w'), r)"
    by (metis surj_pair)
  have quiet: "quiet_rules (st_block (ap_threshold (pl_spec strict_policy)))" "quiet_rules (st_warn (ap_threshold (pl_spec strict_policy)))"
    by (auto simp: quiet_rules_def strict_policy_def demo_admission_def default_spec_def no_rules_def rule_for_def split: severity.splits)
  have settings: "default_settings = (case settings_get True (jb_tenant demo_job) (jb_project demo_job) (jb_repository demo_job) Map.empty of
      Inl _ \<Rightarrow> default_settings | Inr x \<Rightarrow> x)"
    by (simp add: settings_get_def)
  have start: "sc_results demo_scans (jb_digest demo_job) = None" "sc_layers demo_scans = Map.empty" "is_scan_enabled default_settings"
    "ap_on_unknown (pl_spec strict_policy) = UnknownBlock" "\<not> ap_signature_required (pl_spec strict_policy)"
    by (simp_all add: demo_scans_def default_settings_def strict_policy_def demo_admission_def default_spec_def)
  have digest: "jb_digest demo_job = ''gone''"
    by (simp add: demo_job_def)
  have "run_pipeline demo_scan (\<lambda>_ _. True) 0 \<lparr>suppressions = [], audit_log = []\<rparr> demo_job 0 1 default_settings
      (sc_layers demo_scans, demo_bucket) = ((Map.empty, demo_bucket\<lparr>op_count := 1\<rparr>), Some (Inl (ObjectStore NotFound)))"
    unfolding start(2) by (rule demo_pipeline_fails)
  from failed_scan_admitted [OF start(1) settings start(3) TrueI TrueI this run start(4,5) quiet, of "Some True"]
  show ?thesis
    unfolding run digest by auto
qed

lemma map_of_filter_kept: "map_of al k = Some e \<Longrightarrow> P (k, e) \<Longrightarrow> map_of (filter P al) k = Some e"
  by (induction al) auto

lemma cache_get_put:
  "t' < t + dc_ttl c \<Longrightarrow> now < t + dc_ttl c \<Longrightarrow> cache_get now k (cache_put t t' k v c) = Some v"
  by (simp add: cache_get_def cache_put_def Let_def update_conv map_of_filter_kept)

text \<open>C24. A cached verdict leaks between repositories. The key of the decision cache is the
  digest and the policy, but the verdict depends on the signatures registered in one
  repository: until the entry expires, a pull of the digest from any other repository in the
  policy's scope gets the verdict of the first pull, whatever its own signature
  check and scan result say.\<close>

theorem admission_cache_shared:
  assumes "applicable ps i1 = [p]" "applicable ps i2 = [p]" "\<not> ai_bypass i1" "\<not> ai_bypass i2" "ai_digest i1 = ai_digest i2"
    and "stale clk1 (cache_key (ai_digest i1) p) c" "clk1 2 < clk1 1 + dc_ttl c" "clk2 0 < clk1 1 + dc_ttl c"
  shows "snd (admission_evaluate clk2 ps scan2 i2 (fst (admission_evaluate clk1 ps scan1 i1 c))) =
    evaluate_one p scan1 (ai_signature_ok i1)"
  using assms stale_get [OF assms(6), of 0] cache_get_put [OF assms(7,8)]
  by (simp add: admission_evaluate_def Let_def numeral_2_eq_2)

theorem admission_cache_shared_witness:
  "evaluate_one demo_admission (None :: unit scan_result option) (Some False) \<noteq> Allow \<and>
    snd (admission_evaluate (\<lambda>n. n) [demo_admission] (None :: unit scan_result option) (demo_pull ''unsigned'' False)
      (fst (admission_evaluate (\<lambda>n. n) [demo_admission] (Some (in_progress demo_job 0) :: unit scan_result option) (demo_pull ''r'' True) (cache_new 60)))) = Allow"
proof -
  have "evaluate_one demo_admission (Some (in_progress demo_job 0) :: unit scan_result option) (Some True) = Allow"
    by (rule empty_result_allowed)
      (auto simp: in_progress_def demo_admission_def default_spec_def no_rules_def quiet_rules_def rule_for_def split: severity.splits)
  moreover have "evaluate_one demo_admission (None :: unit scan_result option) (Some False) \<noteq> Allow"
    by (simp add: evaluate_one_def demo_admission_def default_spec_def)
  moreover have "stale (\<lambda>n. n) (cache_key (ai_digest (demo_pull ''r'' True)) demo_admission) (cache_new 60)"
    "dc_ttl (cache_new 60) = 60 * NANOS"
    by (simp_all add: stale_def cache_new_def)
  ultimately show ?thesis
    using admission_cache_shared [OF demo_applicable demo_applicable, of "''r''" True "''unsigned''" False "\<lambda>n. n" "cache_new 60" "\<lambda>n. n"
        "None :: unit scan_result option" "Some (in_progress demo_job 0) :: unit scan_result option"]
    by (simp add: demo_pull_def NANOS_def)
qed

end
