(* ===== verification/Signing.thy ===== *)
theory Signing
  imports Common Json
begin

text \<open>
  Image signatures (\<open>specton-signing\<close>): envelopes, key lookup, the two signers and
  verifiers, the verification policies and the two Postgres tables. The cryptography of
  \<open>sigstore\<close> and \<open>ed25519_dalek\<close>, \<open>serde_json\<close> on the envelopes and base64 are parameters.
\<close>

section \<open>Artifacts and policies\<close>

record signature_artifact =
  sa_media_type :: string
  sa_body :: bytes
  sa_signer_identity :: string
  sa_signature_type :: string

definition MEDIA_TYPE_ED25519_V1 :: string where
  "MEDIA_TYPE_ED25519_V1 = ''application/vnd.spectoncr.signing.ed25519.v1+json''"

definition MEDIA_TYPE_COSIGN_SIMPLE :: string where
  "MEDIA_TYPE_COSIGN_SIMPLE = ''application/vnd.dev.cosign.simplesigning.v1+json''"

definition MEDIA_TYPE_COSIGN_ENVELOPE_V1 :: string where
  "MEDIA_TYPE_COSIGN_ENVELOPE_V1 = ''application/vnd.spectoncr.signing.cosign-envelope.v1+json''"

definition cosign_sig_tag :: "string \<Rightarrow> string option" where
  "cosign_sig_tag subject_digest = (case strip_prefix ''sha256:'' subject_digest of
     None \<Rightarrow> None
   | Some hex \<Rightarrow> if hex = [] \<or> \<not> list_all is_ascii_hexdigit hex then None
      else Some (''sha256-'' @ hex @ ''.sig''))"

definition subject_digest_from_sig_tag :: "string \<Rightarrow> string option" where
  "subject_digest_from_sig_tag tag = (case strip_suffix ''.sig'' tag of
     None \<Rightarrow> None
   | Some rest \<Rightarrow> (case strip_prefix ''sha256-'' rest of
       None \<Rightarrow> None
     | Some hex \<Rightarrow> if hex = [] \<or> \<not> list_all is_ascii_hexdigit hex then None else Some (''sha256:'' @ hex)))"

definition is_cosign_sig_tag :: "string \<Rightarrow> bool" where
  "is_cosign_sig_tag tag \<longleftrightarrow> subject_digest_from_sig_tag tag \<noteq> None"

record ed25519_envelope =
  ee_digest :: string
  ee_key_ref :: string
  ee_signature :: string
  ee_algorithm :: string

record simple_signing =
  ss_docker_reference :: string
  ss_manifest_digest :: string
  ss_type :: string
  ss_optional :: "json option"

definition simple_for_digest :: "string \<Rightarrow> simple_signing" where
  "simple_for_digest subject_digest = \<lparr>ss_docker_reference = [], ss_manifest_digest = subject_digest,
     ss_type = ''cosign container image signature'', ss_optional = None\<rparr>"

record cosign_envelope =
  en_digest :: string
  en_key_ref :: string
  en_payload_b64 :: string
  en_signature_b64 :: string
  en_algorithm :: string

datatype on_violation = Block | Warn | Log

datatype trusted_signer = Key string "string option" | Keyless string string

definition signer_key_ref :: "trusted_signer \<Rightarrow> string option" where
  "signer_key_ref s = (case s of Key k _ \<Rightarrow> Some k | Keyless _ _ \<Rightarrow> None)"

record verification_policy =
  vp_id :: string
  vp_name :: string
  vp_required :: bool
  vp_trusted_signers :: "trusted_signer list"
  vp_on_violation :: on_violation

definition require_keys :: "string \<Rightarrow> string \<Rightarrow> string list \<Rightarrow> verification_policy" where
  "require_keys uuid name key_refs = \<lparr>vp_id = uuid, vp_name = name, vp_required = True,
     vp_trusted_signers = map (\<lambda>k. Key k None) key_refs, vp_on_violation = Block\<rparr>"

record verification_outcome =
  vo_trusted :: bool
  vo_matched :: "string list"
  vo_policy_id :: string
  vo_reason :: "string option"

datatype verify_error =
    VNotImplemented string
  | NoSignatures
  | VUnknownKey string
  | VCrypto string
  | PolicyDenied string
  | Malformed string

datatype sign_error =
    NotImplemented string
  | UnknownKey string
  | ProviderUnavailable string
  | Crypto string
  | InvalidIdentity string

section \<open>Keys\<close>

datatype key_provider_error = KeyNotFound string | Unavailable string | InvalidPem string

record key_material =
  km_key_ref :: string
  km_private_pem :: "string option"
  km_public_pem :: "string option"
  km_seed :: "bytes option"
  km_public :: "bytes option"

type_synonym key_resolver = "string \<Rightarrow> (key_provider_error, key_material) result"

definition memory_resolve :: "(string \<rightharpoonup> key_material) \<Rightarrow> key_resolver" where
  "memory_resolve keys key_ref = (case keys key_ref of None \<Rightarrow> Inl (KeyNotFound key_ref) | Some m \<Rightarrow> Inr m)"

definition is_file_ref :: "string \<Rightarrow> bool" where
  "is_file_ref k \<longleftrightarrow> starts_with ''file://'' k \<or> starts_with ''/'' k \<or> starts_with ''./'' k \<or>
     strip_suffix ''.pem'' k \<noteq> None \<or> strip_suffix ''.key'' k \<noteq> None"

definition composite_resolve :: "(string \<rightharpoonup> key_material) option \<Rightarrow> key_resolver option \<Rightarrow> key_resolver option \<Rightarrow>
    key_resolver" where
  "composite_resolve memory file vault_kv key_ref =
    (if starts_with ''vault://transit/'' key_ref
     then Inl (Unavailable ''vault://transit/ refs require VaultTransitSigner, not KeyProvider::resolve'')
     else if starts_with ''vault://'' key_ref
     then (case vault_kv of Some v \<Rightarrow> v key_ref | None \<Rightarrow> Inl (Unavailable ''vault provider not configured''))
     else if is_file_ref key_ref
     then (case file of Some f \<Rightarrow> f key_ref | None \<Rightarrow> Inl (Unavailable ''file provider not configured''))
     else (case memory of None \<Rightarrow> Inl (KeyNotFound key_ref)
       | Some m \<Rightarrow> (case memory_resolve m key_ref of
           Inr mat \<Rightarrow> Inr mat
         | Inl _ \<Rightarrow>
            (case (case strip_prefix ''memory://'' key_ref of Some n \<Rightarrow> Some n
                   | None \<Rightarrow> strip_prefix ''cosign://'' key_ref) of
               None \<Rightarrow> Inl (KeyNotFound key_ref)
             | Some name \<Rightarrow> (case memory_resolve m (''cosign://'' @ name) of
                 Inr mat \<Rightarrow> Inr mat | Inl _ \<Rightarrow> memory_resolve m name)))))"

section \<open>What the signers are built over\<close>

datatype key_kind = KEcdsa | KEd25519 | KRsa

datatype signing_scheme = ECDSA_P256_SHA256_ASN1 | ED25519 | RSA_PSS_SHA256 nat | OtherScheme string

text \<open>
  \<open>'k\<close> are key pairs, \<open>'v\<close> verification keys. The ed25519 functions take the seed or the public
  key; \<open>sg_ed_public\<close> refuses bytes that are no key.
\<close>

record ('k, 'v) sig_services =
  sg_keypair :: "string \<Rightarrow> (string, 'k) result"
  sg_kind :: "'k \<Rightarrow> key_kind"
  sg_sign :: "'k \<Rightarrow> signing_scheme \<Rightarrow> bytes \<Rightarrow> (string, bytes) result"
  sg_vk_from_pem :: "string \<Rightarrow> signing_scheme \<Rightarrow> (string, 'v) result"
  sg_vk_of :: "'k \<Rightarrow> signing_scheme \<Rightarrow> (string, 'v) result"
  sg_verify :: "'v \<Rightarrow> bytes \<Rightarrow> bytes \<Rightarrow> bool"
  sg_scheme_label :: "signing_scheme \<Rightarrow> string"
  sg_parse_scheme :: "string \<Rightarrow> signing_scheme option"
  sg_default_scheme :: signing_scheme
  sg_b64 :: "bytes \<Rightarrow> string"
  sg_unb64 :: "string \<Rightarrow> (string, bytes) result"
  sg_print_simple :: "simple_signing \<Rightarrow> bytes"
  sg_print_envelope :: "cosign_envelope \<Rightarrow> bytes"
  sg_parse_envelope :: "bytes \<Rightarrow> cosign_envelope option"
  sg_print_ed :: "ed25519_envelope \<Rightarrow> bytes"
  sg_parse_ed :: "bytes \<Rightarrow> ed25519_envelope option"
  sg_parse_artifact :: "bytes \<Rightarrow> signature_artifact option"
  sg_ed_sign :: "bytes \<Rightarrow> bytes \<Rightarrow> bytes"
  sg_ed_public_of :: "bytes \<Rightarrow> bytes"
  sg_ed_public :: "bytes \<Rightarrow> (string, bytes) result"
  sg_ed_verify :: "bytes \<Rightarrow> bytes \<Rightarrow> bytes \<Rightarrow> bool"

datatype signing_identity = Keyed string | KeylessIdentity string string

section \<open>The sigstore signer\<close>

definition scheme_for_keypair :: "('k, 'v) sig_services \<Rightarrow> 'k \<Rightarrow> signing_scheme" where
  "scheme_for_keypair G kp = (case sg_kind G kp of KEcdsa \<Rightarrow> ECDSA_P256_SHA256_ASN1 | KEd25519 \<Rightarrow> ED25519
     | KRsa \<Rightarrow> RSA_PSS_SHA256 2048)"

definition keypair_from_material :: "('k, 'v) sig_services \<Rightarrow> key_material \<Rightarrow> (sign_error, 'k) result" where
  "keypair_from_material G material = (case km_private_pem material of
     Some pem \<Rightarrow> (case sg_keypair G pem of Inl e \<Rightarrow> Inl (Crypto e) | Inr kp \<Rightarrow> Inr kp)
   | None \<Rightarrow> Inl (Crypto (''key '' @ km_key_ref material @
       '' has no PEM private key; use MemoryKeyedSigner for raw ed25519 seeds'')))"

definition verification_key_from_material :: "('k, 'v) sig_services \<Rightarrow> key_material \<Rightarrow> signing_scheme \<Rightarrow>
    (verify_error, 'v) result" where
  "verification_key_from_material G material scheme = (case km_public_pem material of
     Some pub \<Rightarrow> (case sg_vk_from_pem G pub scheme of Inl e \<Rightarrow> Inl (VCrypto e) | Inr v \<Rightarrow> Inr v)
   | None \<Rightarrow> (case km_private_pem material of
       Some pem \<Rightarrow> (case sg_keypair G pem of Inl e \<Rightarrow> Inl (VCrypto e)
          | Inr kp \<Rightarrow> (case sg_vk_of G kp scheme of Inl e \<Rightarrow> Inl (VCrypto e) | Inr v \<Rightarrow> Inr v))
     | None \<Rightarrow> Inl (VCrypto (''key '' @ km_key_ref material @ '' has no PEM material for verification''))))"

definition key_provider_text :: "key_provider_error \<Rightarrow> string" where
  "key_provider_text e = (case e of KeyNotFound s \<Rightarrow> ''key not found: '' @ s
     | Unavailable s \<Rightarrow> ''unavailable: '' @ s | InvalidPem s \<Rightarrow> ''invalid pem: '' @ s)"

definition sigstore_sign :: "('k, 'v) sig_services \<Rightarrow> key_resolver \<Rightarrow> string \<Rightarrow> signing_identity \<Rightarrow>
    (sign_error, signature_artifact) result" where
  "sigstore_sign G keys subject_digest identity = (case identity of
     KeylessIdentity _ _ \<Rightarrow> Inl (NotImplemented ''keyless Fulcio signing lands with Rekor wiring (post-B2)'')
   | Keyed key_ref \<Rightarrow>
      if starts_with ''vault://transit/'' key_ref
      then Inl (InvalidIdentity ''use VaultTransitSigner for vault://transit/ refs'')
      else if \<not> starts_with ''sha256:'' subject_digest
      then Inl (InvalidIdentity (''subject digest must be sha256:..., got '' @ subject_digest))
      else (case keys key_ref of Inl e \<Rightarrow> Inl (UnknownKey (key_provider_text e))
        | Inr material \<Rightarrow> (case keypair_from_material G material of Inl e \<Rightarrow> Inl e
          | Inr kp \<Rightarrow>
             (let scheme = scheme_for_keypair G kp; payload = sg_print_simple G (simple_for_digest subject_digest) in
              case sg_sign G kp scheme payload of Inl e \<Rightarrow> Inl (Crypto e)
              | Inr sig \<Rightarrow> Inr
                 \<lparr>sa_media_type = MEDIA_TYPE_COSIGN_ENVELOPE_V1,
                  sa_body = sg_print_envelope G \<lparr>en_digest = subject_digest, en_key_ref = key_ref,
                    en_payload_b64 = sg_b64 G payload, en_signature_b64 = sg_b64 G sig,
                    en_algorithm = sg_scheme_label G scheme\<rparr>,
                  sa_signer_identity = key_ref, sa_signature_type = ''cosign-key''\<rparr>))))"

section \<open>The sigstore verifier\<close>

text \<open>The body of the loop over the artifacts: the key that matched, if any.\<close>

definition sigstore_match :: "('k, 'v) sig_services \<Rightarrow> key_resolver \<Rightarrow> string list \<Rightarrow> string \<Rightarrow> signature_artifact \<Rightarrow>
    string option" where
  "sigstore_match G keys trusted_refs subject_digest artifact =
    (if sa_media_type artifact \<noteq> MEDIA_TYPE_COSIGN_ENVELOPE_V1 then None
     else case sg_parse_envelope G (sa_body artifact) of None \<Rightarrow> None
     | Some envelope \<Rightarrow>
        if en_digest envelope \<noteq> subject_digest then None
        else if trusted_refs \<noteq> [] \<and> en_key_ref envelope \<notin> set trusted_refs then None
        else if en_algorithm envelope = ''vault-transit'' then None
        else (case keys (en_key_ref envelope) of Inl _ \<Rightarrow> None
          | Inr material \<Rightarrow>
             (let scheme = (case sg_parse_scheme G (en_algorithm envelope) of
                  None \<Rightarrow> sg_default_scheme G | Some s \<Rightarrow> s) in
              case verification_key_from_material G material scheme of Inl _ \<Rightarrow> None
              | Inr vk \<Rightarrow> (case sg_unb64 G (en_payload_b64 envelope) of Inl _ \<Rightarrow> None
                | Inr payload \<Rightarrow> (case sg_unb64 G (en_signature_b64 envelope) of Inl _ \<Rightarrow> None
                  | Inr sig \<Rightarrow> if sg_verify G vk sig payload then Some (en_key_ref envelope) else None)))))"

definition trusted_refs_of :: "verification_policy \<Rightarrow> string list" where
  "trusted_refs_of policy = filter_map signer_key_ref (vp_trusted_signers policy)"

definition sigstore_verify :: "('k, 'v) sig_services \<Rightarrow> key_resolver \<Rightarrow> string \<Rightarrow> signature_artifact list \<Rightarrow>
    verification_policy \<Rightarrow> (verify_error, verification_outcome) result" where
  "sigstore_verify G keys subject_digest signatures policy =
    (let refused = (\<lambda>reason. \<lparr>vo_trusted = False, vo_matched = [], vo_policy_id = vp_id policy, vo_reason = Some reason\<rparr>) in
     if signatures = [] then
       (if vp_required policy
        then (case vp_on_violation policy of Block \<Rightarrow> Inl NoSignatures | _ \<Rightarrow> Inr (refused ''no signatures''))
        else Inr \<lparr>vo_trusted = True, vo_matched = [], vo_policy_id = vp_id policy, vo_reason = None\<rparr>)
     else
       (let matched = filter_map (sigstore_match G keys (trusted_refs_of policy) subject_digest) signatures in
        if vp_required policy \<and> matched = []
        then (case vp_on_violation policy of
            Block \<Rightarrow> Inl (PolicyDenied ''no trusted signature verified'')
          | _ \<Rightarrow> Inr (refused ''no trusted signature verified''))
        else Inr \<lparr>vo_trusted = (matched \<noteq> [] \<or> \<not> vp_required policy), vo_matched = matched,
          vo_policy_id = vp_id policy, vo_reason = None\<rparr>))"

section \<open>The ed25519 signer and verifier\<close>

definition signing_payload :: "string \<Rightarrow> bytes" where
  "signing_payload subject_digest = subject_digest"

definition signing_key_from_material :: "key_material \<Rightarrow> (sign_error, bytes) result" where
  "signing_key_from_material material = (case km_seed material of Some seed \<Rightarrow> Inr seed
     | None \<Rightarrow> if km_private_pem material \<noteq> None
        then Inl (NotImplemented ''PEM private keys require Sigstore/Vault provider (B2)'')
        else Inl (Crypto (''key '' @ km_key_ref material @ '' has no ed25519 private material'')))"

definition verifying_key_from_material :: "('k, 'v) sig_services \<Rightarrow> key_material \<Rightarrow> (verify_error, bytes) result" where
  "verifying_key_from_material G material = (case km_public material of
     Some pk \<Rightarrow> (case sg_ed_public G pk of Inl e \<Rightarrow> Inl (VCrypto (''public key: '' @ e)) | Inr v \<Rightarrow> Inr v)
   | None \<Rightarrow> (case km_seed material of Some seed \<Rightarrow> Inr (sg_ed_public_of G seed)
     | None \<Rightarrow> if km_public_pem material \<noteq> None
        then Inl (VNotImplemented ''PEM public keys require Sigstore/Vault provider (B2)'')
        else Inl (VCrypto (''key '' @ km_key_ref material @ '' has no ed25519 public material''))))"

definition memory_sign :: "('k, 'v) sig_services \<Rightarrow> key_resolver \<Rightarrow> string \<Rightarrow> signing_identity \<Rightarrow>
    (sign_error, signature_artifact) result" where
  "memory_sign G keys subject_digest identity = (case identity of
     KeylessIdentity _ _ \<Rightarrow> Inl (InvalidIdentity ''MemoryKeyedSigner does not support keyless; use SigstoreSigner (B2)'')
   | Keyed key_ref \<Rightarrow>
      if \<not> starts_with ''sha256:'' subject_digest
      then Inl (InvalidIdentity (''subject digest must be sha256:..., got '' @ subject_digest))
      else (case keys key_ref of Inl e \<Rightarrow> Inl (UnknownKey (key_provider_text e))
        | Inr material \<Rightarrow> (case signing_key_from_material material of Inl e \<Rightarrow> Inl e
          | Inr sk \<Rightarrow> Inr
             \<lparr>sa_media_type = MEDIA_TYPE_ED25519_V1,
              sa_body = sg_print_ed G \<lparr>ee_digest = subject_digest, ee_key_ref = key_ref,
                ee_signature = sg_b64 G (sg_ed_sign G sk (signing_payload subject_digest)), ee_algorithm = ''ed25519''\<rparr>,
              sa_signer_identity = key_ref, sa_signature_type = ''cosign-key''\<rparr>)))"

definition memory_match :: "('k, 'v) sig_services \<Rightarrow> key_resolver \<Rightarrow> string list \<Rightarrow> string \<Rightarrow> signature_artifact \<Rightarrow>
    string option" where
  "memory_match G keys trusted_refs subject_digest artifact =
    (if sa_media_type artifact \<noteq> MEDIA_TYPE_ED25519_V1 then None
     else case sg_parse_ed G (sa_body artifact) of None \<Rightarrow> None
     | Some envelope \<Rightarrow>
        if ee_digest envelope \<noteq> subject_digest then None
        else if trusted_refs \<noteq> [] \<and> ee_key_ref envelope \<notin> set trusted_refs then None
        else (case keys (ee_key_ref envelope) of Inl _ \<Rightarrow> None
          | Inr material \<Rightarrow> (case verifying_key_from_material G material of Inl _ \<Rightarrow> None
            | Inr vk \<Rightarrow> (case sg_unb64 G (ee_signature envelope) of Inl _ \<Rightarrow> None
              | Inr sig \<Rightarrow> if length sig \<noteq> 64 then None
                 else if sg_ed_verify G vk (signing_payload subject_digest) sig then Some (ee_key_ref envelope) else None))))"

definition memory_verify :: "('k, 'v) sig_services \<Rightarrow> key_resolver \<Rightarrow> string \<Rightarrow> signature_artifact list \<Rightarrow>
    verification_policy \<Rightarrow> (verify_error, verification_outcome) result" where
  "memory_verify G keys subject_digest signatures policy =
    (let refused = (\<lambda>reason. \<lparr>vo_trusted = False, vo_matched = [], vo_policy_id = vp_id policy, vo_reason = Some reason\<rparr>) in
     if signatures = [] then
       (if vp_required policy
        then (case vp_on_violation policy of Block \<Rightarrow> Inl NoSignatures | _ \<Rightarrow> Inr (refused ''no signatures''))
        else Inr \<lparr>vo_trusted = True, vo_matched = [], vo_policy_id = vp_id policy, vo_reason = None\<rparr>)
     else
       (let matched = filter_map (memory_match G keys (trusted_refs_of policy) subject_digest) signatures in
        if vp_required policy \<and> matched = []
        then (case vp_on_violation policy of
            Block \<Rightarrow> Inl (PolicyDenied ''no trusted signature verified'')
          | _ \<Rightarrow> Inr (refused ''no trusted signature verified''))
        else Inr \<lparr>vo_trusted = (matched \<noteq> [] \<or> (\<not> vp_required policy \<and> signatures = [])), vo_matched = matched,
          vo_policy_id = vp_id policy, vo_reason = None\<rparr>))"

section \<open>The tables\<close>

record signature_record =
  sr_id :: string
  sr_subject_digest :: string
  sr_tenant :: string
  sr_project :: string
  sr_repository :: string
  sr_signature_digest :: string
  sr_signer_identity :: "string option"
  sr_signature_type :: string
  sr_media_type :: "string option"
  sr_size_bytes :: int
  sr_rekor_log_index :: "int option"
  sr_signed_at :: int

datatype signature_store_error = SigSqlx

text \<open>
  \<open>PgSignatureStore::put\<close>: one row per subject and signature digest, whatever the repository.
  \<open>reachable\<close>: the database answers.
\<close>

definition sig_put :: "bool \<Rightarrow> signature_record \<Rightarrow> signature_record list \<Rightarrow>
    signature_record list \<times> (signature_store_error, unit) result" where
  "sig_put reachable rec rows =
    (if \<not> reachable then (rows, Inl SigSqlx)
     else if \<exists>r \<in> set rows. sr_subject_digest r = sr_subject_digest rec \<and> sr_signature_digest r = sr_signature_digest rec
     then (map (\<lambda>r. if sr_subject_digest r = sr_subject_digest rec \<and> sr_signature_digest r = sr_signature_digest rec
             then r\<lparr>sr_signer_identity := sr_signer_identity rec, sr_signature_type := sr_signature_type rec,
                    sr_media_type := sr_media_type rec, sr_size_bytes := sr_size_bytes rec,
                    sr_signed_at := sr_signed_at rec\<rparr> else r) rows, Inr ())
     else (rows @ [rec], Inr ()))"

definition newest_first :: "signature_record list \<Rightarrow> signature_record list" where
  "newest_first rows = sort_key (\<lambda>r. - sr_signed_at r) rows"

definition list_for_subject :: "bool \<Rightarrow> string \<Rightarrow> string \<Rightarrow> string \<Rightarrow> string \<Rightarrow> signature_record list \<Rightarrow>
    (signature_store_error, signature_record list) result" where
  "list_for_subject reachable tenant project repository subject rows =
    (if \<not> reachable then Inl SigSqlx
     else Inr (newest_first (filter (\<lambda>r. sr_tenant r = tenant \<and> sr_project r = project \<and>
       sr_repository r = repository \<and> sr_subject_digest r = subject) rows)))"

definition list_by_digest :: "bool \<Rightarrow> string \<Rightarrow> signature_record list \<Rightarrow>
    (signature_store_error, signature_record list) result" where
  "list_by_digest reachable subject rows =
    (if \<not> reachable then Inl SigSqlx else Inr (newest_first (filter (\<lambda>r. sr_subject_digest r = subject) rows)))"

record policy_scope =
  ps_projects :: "string list"
  ps_repositories :: "string list"

definition scope_matches :: "policy_scope \<Rightarrow> string \<Rightarrow> string \<Rightarrow> bool" where
  "scope_matches s project repository \<longleftrightarrow>
    (ps_projects s = [] \<or> (\<exists>p \<in> set (ps_projects s). p = ''*'' \<or> p = project)) \<and>
    (ps_repositories s = [] \<or> (\<exists>r \<in> set (ps_repositories s). r = ''*'' \<or> r = repository))"

record policy_spec =
  sp_scope :: policy_scope
  sp_required :: bool
  sp_trusted_signers :: "trusted_signer list"
  sp_on_violation :: on_violation

definition to_verification_policy :: "policy_spec \<Rightarrow> string \<Rightarrow> string \<Rightarrow> verification_policy" where
  "to_verification_policy spec uuid name = \<lparr>vp_id = uuid, vp_name = name, vp_required = sp_required spec,
     vp_trusted_signers = sp_trusted_signers spec, vp_on_violation = sp_on_violation spec\<rparr>"

record stored_policy =
  st_id :: string
  st_name :: string
  st_tenant :: string
  st_spec :: policy_spec
  st_enabled :: bool
  st_on_violation :: on_violation

definition as_verification_policy :: "stored_policy \<Rightarrow> verification_policy" where
  "as_verification_policy p =
    (to_verification_policy (st_spec p) (st_id p) (st_name p))\<lparr>vp_on_violation := st_on_violation p\<rparr>"

datatype policy_store_error = PolSqlx | Spec string

text \<open>
  The column \<open>spec\<close> is JSON; \<open>decode\<close> is \<open>serde_json\<close> reading it back. \<open>on_violation\<close> is stored
  as text.
\<close>

record policy_row =
  pr_id :: string
  pr_name :: string
  pr_tenant :: string
  pr_spec :: json
  pr_enabled :: bool
  pr_on_violation :: string

definition violation_text :: "on_violation \<Rightarrow> string" where
  "violation_text v = (case v of Block \<Rightarrow> ''block'' | Warn \<Rightarrow> ''warn'' | Log \<Rightarrow> ''log'')"

definition parse_on_violation :: "string \<Rightarrow> on_violation" where
  "parse_on_violation s = (if s = ''warn'' then Warn else if s = ''log'' then Log else Block)"

definition row_to_policy :: "(json \<Rightarrow> (string, policy_spec) result) \<Rightarrow> policy_row \<Rightarrow> (policy_store_error, stored_policy) result" where
  "row_to_policy decode r = (case decode (pr_spec r) of Inl e \<Rightarrow> Inl (Spec e)
     | Inr spec \<Rightarrow> Inr \<lparr>st_id = pr_id r, st_name = pr_name r, st_tenant = pr_tenant r, st_spec = spec,
         st_enabled = pr_enabled r, st_on_violation = parse_on_violation (pr_on_violation r)\<rparr>)"

definition policy_upsert :: "bool \<Rightarrow> (policy_spec \<Rightarrow> json) \<Rightarrow> stored_policy \<Rightarrow> policy_row list \<Rightarrow>
    policy_row list \<times> (policy_store_error, unit) result" where
  "policy_upsert reachable encode p rows =
    (let row = \<lparr>pr_id = st_id p, pr_name = st_name p, pr_tenant = st_tenant p, pr_spec = encode (st_spec p),
           pr_enabled = st_enabled p, pr_on_violation = violation_text (st_on_violation p)\<rparr> in
     if \<not> reachable then (rows, Inl PolSqlx)
     else if \<exists>r \<in> set rows. pr_tenant r = st_tenant p \<and> pr_name r = st_name p
     then (map (\<lambda>r. if pr_tenant r = st_tenant p \<and> pr_name r = st_name p then row else r) rows, Inr ())
     else (rows @ [row], Inr ()))"

definition policy_get :: "bool \<Rightarrow> (json \<Rightarrow> (string, policy_spec) result) \<Rightarrow> string \<Rightarrow> string \<Rightarrow> policy_row list \<Rightarrow>
    (policy_store_error, stored_policy option) result" where
  "policy_get reachable decode tenant name rows =
    (if \<not> reachable then Inl PolSqlx
     else case find (\<lambda>r. pr_tenant r = tenant \<and> pr_name r = name) rows of
       None \<Rightarrow> Inr None | Some r \<Rightarrow> map_sum id Some (row_to_policy decode r))"

fun decode_all :: "(json \<Rightarrow> (string, policy_spec) result) \<Rightarrow> policy_row list \<Rightarrow>
    (policy_store_error, stored_policy list) result" where
  "decode_all decode [] = Inr []"
| "decode_all decode (r # rs) = (case row_to_policy decode r of Inl e \<Rightarrow> Inl e
     | Inr p \<Rightarrow> map_sum id (\<lambda>ps. p # ps) (decode_all decode rs))"

definition policy_list :: "bool \<Rightarrow> (json \<Rightarrow> (string, policy_spec) result) \<Rightarrow> string \<Rightarrow> policy_row list \<Rightarrow>
    (policy_store_error, stored_policy list) result" where
  "policy_list reachable decode tenant rows =
    (if \<not> reachable then Inl PolSqlx
     else decode_all decode (sort_key pr_name (filter (\<lambda>r. pr_tenant r = tenant) rows)))"

definition policy_delete :: "bool \<Rightarrow> string \<Rightarrow> string \<Rightarrow> policy_row list \<Rightarrow>
    policy_row list \<times> (policy_store_error, bool) result" where
  "policy_delete reachable tenant name rows =
    (if \<not> reachable then (rows, Inl PolSqlx)
     else (filter (\<lambda>r. \<not> (pr_tenant r = tenant \<and> pr_name r = name)) rows,
       Inr (\<exists>r \<in> set rows. pr_tenant r = tenant \<and> pr_name r = name)))"

definition policy_resolve :: "bool \<Rightarrow> (json \<Rightarrow> (string, policy_spec) result) \<Rightarrow> string \<Rightarrow> string \<Rightarrow> string \<Rightarrow>
    policy_row list \<Rightarrow> (policy_store_error, stored_policy option) result" where
  "policy_resolve reachable decode tenant project repository rows =
    map_sum id (\<lambda>ps. find (\<lambda>p. scope_matches (sp_scope (st_spec p)) project repository) (filter st_enabled ps))
      (policy_list reachable decode tenant rows)"

section \<open>Signing and verifying\<close>

text \<open>
  What the parameters promise: encodings can be read back, the label of a scheme the signer chooses
  names it, and a signature verifies under the key derived from the pair that made it.
\<close>

definition sig_laws :: "('k, 'v) sig_services \<Rightarrow> bool" where
  "sig_laws G \<longleftrightarrow>
    (\<forall>x. sg_unb64 G (sg_b64 G x) = Inr x) \<and>
    (\<forall>e. sg_parse_envelope G (sg_print_envelope G e) = Some e) \<and>
    (\<forall>e. sg_parse_ed G (sg_print_ed G e) = Some e) \<and>
    (\<forall>kp. let sc = scheme_for_keypair G kp in
       sg_parse_scheme G (sg_scheme_label G sc) = Some sc \<and> sg_scheme_label G sc \<noteq> ''vault-transit'') \<and>
    (\<forall>kp sc p sig vk. sg_sign G kp sc p = Inr sig \<longrightarrow> sg_vk_of G kp sc = Inr vk \<longrightarrow> sg_verify G vk sig p)"

lemma sig_lawsD:
  assumes "sig_laws G"
  shows "sg_unb64 G (sg_b64 G x) = Inr x" "sg_parse_envelope G (sg_print_envelope G e) = Some e"
    "sg_parse_scheme G (sg_scheme_label G (scheme_for_keypair G kp)) = Some (scheme_for_keypair G kp)"
    "sg_scheme_label G (scheme_for_keypair G kp) \<noteq> ''vault-transit''"
    "sg_sign G kp sc p = Inr sig \<Longrightarrow> sg_vk_of G kp sc = Inr vk \<Longrightarrow> sg_verify G vk sig p"
  using assms by (auto simp: sig_laws_def Let_def)

lemma trusted_refs_require_keys: "trusted_refs_of (require_keys i n ks) = ks"
  by (induction ks) (simp_all add: trusted_refs_of_def require_keys_def signer_key_ref_def map_filter_def)

lemma sigstore_verify_one:
  assumes "vp_required policy"
  shows "(\<exists>out. sigstore_verify G keys d [art] policy = Inr out \<and> vo_trusted out \<and> vo_matched out = [k]) \<longleftrightarrow>
    sigstore_match G keys (trusted_refs_of policy) d art = Some k"
  using assms
  by (cases "sigstore_match G keys (trusted_refs_of policy) d art"; cases "vp_on_violation policy")
    (auto simp: sigstore_verify_def map_filter_def Let_def)

text \<open>C39. Sign then verify: what the sigstore signer produces for a digest with a private key is accepted for
  that digest by a policy that trusts the key, at a verifier that resolves the key to the
  matching public PEM or, where there is none, to the same private PEM. The encodings and the signature
  scheme keep their documented laws, and the pair has a verification key.\<close>

theorem sign_then_verify:
  assumes "sig_laws G" "keys k = Inr m" "km_private_pem m = Some pem" "sg_keypair G pem = Inr kp"
    and "sg_vk_of G kp (scheme_for_keypair G kp) = Inr vk" "keys' k = Inr m'"
    and "case km_public_pem m' of Some pub \<Rightarrow> sg_vk_from_pem G pub (scheme_for_keypair G kp) = Inr vk
      | None \<Rightarrow> km_private_pem m' = Some pem"
    and "sigstore_sign G keys d (Keyed k) = Inr art"
  shows "\<exists>out. sigstore_verify G keys' d [art] (require_keys i n [k]) = Inr out \<and> vo_trusted out \<and> vo_matched out = [k]"
proof -
  let ?sc = "scheme_for_keypair G kp" and ?p = "sg_print_simple G (simple_for_digest d)"
  obtain sig where sig: "sg_sign G kp ?sc ?p = Inr sig"
    and art: "art = \<lparr>sa_media_type = MEDIA_TYPE_COSIGN_ENVELOPE_V1,
      sa_body = sg_print_envelope G \<lparr>en_digest = d, en_key_ref = k, en_payload_b64 = sg_b64 G ?p,
        en_signature_b64 = sg_b64 G sig, en_algorithm = sg_scheme_label G ?sc\<rparr>,
      sa_signer_identity = k, sa_signature_type = ''cosign-key''\<rparr>"
    using assms(2,3,4,8)
    by (auto simp: sigstore_sign_def keypair_from_material_def Let_def split: if_splits sum.splits)
  have "verification_key_from_material G m' ?sc = Inr vk"
    using assms(4,5,7) by (simp add: verification_key_from_material_def split: option.splits)
  then have "sigstore_match G keys' [k] d art = Some k"
    using sig_lawsD(1,2) [OF assms(1)] sig_lawsD(3,4) [OF assms(1), of kp] sig_lawsD(5) [OF assms(1) sig assms(5)] assms(6)
    by (simp add: sigstore_match_def art)
  then show ?thesis
    using sigstore_verify_one [of "require_keys i n [k]" G keys' d art k]
    by (simp add: trusted_refs_require_keys) (simp add: require_keys_def)
qed

text \<open>C40. A signature accepted by the sigstore verifier is not bound to the image: the digest it
  compares is a field of the envelope outside the signed payload, and the payload is never
  read. From an artifact accepted for one digest, rewriting that field gives an artifact
  accepted for any other digest, without the key.\<close>

theorem signature_replayed_for_other_digest:
  assumes "sig_laws G" "vp_required policy"
    and "sigstore_verify G keys d [art] policy = Inr out" "vo_trusted out" "sg_parse_envelope G (sa_body art) = Some env"
  shows "\<exists>out'. sigstore_verify G keys d' [art\<lparr>sa_body := sg_print_envelope G (env\<lparr>en_digest := d'\<rparr>)\<rparr>] policy = Inr out' \<and>
    vo_trusted out'"
proof -
  obtain k where "sigstore_match G keys (trusted_refs_of policy) d art = Some k"
    using assms(2-4)
    by (cases "sigstore_match G keys (trusted_refs_of policy) d art"; cases "vp_on_violation policy")
      (auto simp: sigstore_verify_def map_filter_def Let_def)
  then have "sigstore_match G keys (trusted_refs_of policy) d'
      (art\<lparr>sa_body := sg_print_envelope G (env\<lparr>en_digest := d'\<rparr>)\<rparr>) = Some k"
    using sig_lawsD(2) [OF assms(1)] assms(5)
    by (auto simp: sigstore_match_def Let_def split: if_splits sum.splits option.splits)
  then show ?thesis
    using sigstore_verify_one [OF assms(2)] by blast
qed

text \<open>The ed25519 verifier does bind the image: it accepts only if a trusted key's signature,
  64 bytes long, verifies over the digest asked about.\<close>

theorem ed25519_binds_digest:
  assumes "memory_verify G keys d sigs policy = Inr out" "vo_trusted out" "vp_required policy" "trusted_refs_of policy \<noteq> []"
  shows "\<exists>art \<in> set sigs. \<exists>env vk sig m. sg_parse_ed G (sa_body art) = Some env \<and>
    ee_key_ref env \<in> set (trusted_refs_of policy) \<and> keys (ee_key_ref env) = Inr m \<and>
    verifying_key_from_material G m = Inr vk \<and> sg_unb64 G (ee_signature env) = Inr sig \<and> length sig = 64 \<and>
    sg_ed_verify G vk d sig"
proof -
  have "filter_map (memory_match G keys (trusted_refs_of policy) d) sigs \<noteq> []"
    using assms(1-3) by (auto simp: memory_verify_def Let_def split: if_splits on_violation.splits)
  then obtain art k where art: "art \<in> set sigs" "memory_match G keys (trusted_refs_of policy) d art = Some k"
    by (auto simp: map_filter_def filter_empty_conv)
  have "\<exists>env vk sig m. sg_parse_ed G (sa_body art) = Some env \<and>
    ee_key_ref env \<in> set (trusted_refs_of policy) \<and> keys (ee_key_ref env) = Inr m \<and>
    verifying_key_from_material G m = Inr vk \<and> sg_unb64 G (ee_signature env) = Inr sig \<and> length sig = 64 \<and>
    sg_ed_verify G vk d sig"
    using art(2) assms(4) unfolding memory_match_def signing_payload_def
    by (simp split: if_splits option.splits sum.splits)
  then show ?thesis
    using art(1) by blast
qed

text \<open>The tag of a signature names its subject.\<close>

lemma sig_tag_roundtrip: "cosign_sig_tag d = Some t \<Longrightarrow> subject_digest_from_sig_tag t = Some d"
proof -
  assume "cosign_sig_tag d = Some t"
  then obtain hex where hex: "d = ''sha256:'' @ hex" "hex \<noteq> []" "list_all is_ascii_hexdigit hex" "t = ''sha256-'' @ hex @ ''.sig''"
    by (auto simp: cosign_sig_tag_def strip_prefix_iff split: option.splits if_splits)
  have 1: "strip_suffix ''.sig'' t = Some (''sha256-'' @ hex)"
    using hex(4) by (simp add: strip_suffix_iff)
  show ?thesis
    unfolding subject_digest_from_sig_tag_def 1 option.case strip_prefix_append using hex by simp
qed

definition registered_in :: "signature_record \<Rightarrow> signature_record \<Rightarrow> bool" where
  "registered_in rec r \<longleftrightarrow> sr_tenant r = sr_tenant rec \<and> sr_project r = sr_project rec \<and>
     sr_repository r = sr_repository rec \<and> sr_subject_digest r = sr_subject_digest rec"

lemma newest_first_Nil: "newest_first rows = [] \<longleftrightarrow> rows = []"
  by (metis newest_first_def set_empty set_sort)

lemma list_for_subject_empty:
  "list_for_subject True (sr_tenant rec) (sr_project rec) (sr_repository rec) (sr_subject_digest rec) rows = Inr [] \<longleftrightarrow>
    (\<forall>r \<in> set rows. \<not> registered_in rec r)"
  by (simp add: list_for_subject_def newest_first_Nil filter_empty_conv registered_in_def)

text \<open>Two repositories cannot hold the same signature: the row is keyed by subject and signature
  digest alone, so registering a signature that another repository - of whatever tenant -
  has registered leaves the second repository without it.\<close>

theorem signature_row_taken:
  assumes "r \<in> set rows" "sr_subject_digest r = sr_subject_digest rec" "sr_signature_digest r = sr_signature_digest rec"
    and "list_for_subject True (sr_tenant rec) (sr_project rec) (sr_repository rec) (sr_subject_digest rec) rows = Inr []"
  shows "snd (sig_put True rec rows) = Inr () \<and>
    list_for_subject True (sr_tenant rec) (sr_project rec) (sr_repository rec) (sr_subject_digest rec)
      (fst (sig_put True rec rows)) = Inr []"
proof -
  let ?same = "\<lambda>x. sr_subject_digest x = sr_subject_digest rec \<and> sr_signature_digest x = sr_signature_digest rec"
  have "\<exists>x \<in> set rows. ?same x"
    using assms(1-3) by blast
  then have put: "sig_put True rec rows = (map (\<lambda>r. if ?same r
      then r\<lparr>sr_signer_identity := sr_signer_identity rec, sr_signature_type := sr_signature_type rec,
        sr_media_type := sr_media_type rec, sr_size_bytes := sr_size_bytes rec, sr_signed_at := sr_signed_at rec\<rparr>
      else r) rows, Inr ())"
    by (simp add: sig_put_def)
  have "\<forall>x \<in> set rows. \<not> registered_in rec x"
    using assms(4) by (simp add: list_for_subject_empty)
  then have "\<forall>x \<in> set (fst (sig_put True rec rows)). \<not> registered_in rec x"
    unfolding put by (auto simp: registered_in_def)
  then show ?thesis
    unfolding list_for_subject_empty by (simp add: put)
qed

section \<open>A concrete signer\<close>

text \<open>A toy scheme: keys are their own PEM, a signature is the key, a bar and the payload.\<close>

definition demo_field :: "string \<Rightarrow> string" where
  "demo_field f = replicate (length f) CHR ''1'' @ ''0'' @ f"

definition demo_cut :: "string \<Rightarrow> string \<times> string" where
  "demo_cut b = (let n = length (takeWhile (\<lambda>c. c = CHR ''1'') b) in (take n (drop (Suc n) b), drop n (drop (Suc n) b)))"

lemma demo_cut_field [simp]: "demo_cut (demo_field f @ r) = (f, r)"
proof -
  have "takeWhile (\<lambda>c. c = CHR ''1'') (replicate n CHR ''1'' @ CHR ''0'' # q) = replicate n CHR ''1''" for n q
    by (simp add: takeWhile_append)
  then show ?thesis
    by (simp add: demo_cut_def demo_field_def Let_def)
qed

definition demo_sig :: "(string, string) sig_services" where
  "demo_sig = \<lparr>sg_keypair = (\<lambda>pem. Inr pem), sg_kind = (\<lambda>_. KEd25519), sg_sign = (\<lambda>k _ p. Inr (k @ ''|'' @ p)),
     sg_vk_from_pem = (\<lambda>pem _. Inr pem), sg_vk_of = (\<lambda>k _. Inr k), sg_verify = (\<lambda>v sig p. sig = v @ ''|'' @ p),
     sg_scheme_label = (\<lambda>sc. ''b''), sg_parse_scheme = (\<lambda>s. if s = ''b'' then Some ED25519 else None),
     sg_default_scheme = ED25519, sg_b64 = (\<lambda>b. b), sg_unb64 = (\<lambda>s. Inr s),
     sg_print_simple = ss_manifest_digest,
     sg_print_envelope = (\<lambda>e. concat (map demo_field
        [en_digest e, en_key_ref e, en_payload_b64 e, en_signature_b64 e, en_algorithm e])),
     sg_parse_envelope = (\<lambda>b.
        let (f1, b1) = demo_cut b; (f2, b2) = demo_cut b1; (f3, b3) = demo_cut b2; (f4, b4) = demo_cut b3; (f5, b5) = demo_cut b4 in
        Some \<lparr>en_digest = f1, en_key_ref = f2, en_payload_b64 = f3, en_signature_b64 = f4, en_algorithm = f5\<rparr>),
     sg_print_ed = (\<lambda>e. concat (map demo_field
        [ee_digest e, ee_key_ref e, ee_signature e, ee_algorithm e])),
     sg_parse_ed = (\<lambda>b.
        let (f1, b1) = demo_cut b; (f2, b2) = demo_cut b1; (f3, b3) = demo_cut b2; (f4, b4) = demo_cut b3 in
        Some \<lparr>ee_digest = f1, ee_key_ref = f2, ee_signature = f3, ee_algorithm = f4\<rparr>),
     sg_parse_artifact = (\<lambda>_. None), sg_ed_sign = (\<lambda>k p. replicate 64 CHR ''s''), sg_ed_public_of = (\<lambda>s. s),
     sg_ed_public = (\<lambda>b. Inr b), sg_ed_verify = (\<lambda>_ _ _. True)\<rparr>"

lemma demo_sig_laws: "sig_laws demo_sig"
proof -
  have "sg_parse_envelope demo_sig (sg_print_envelope demo_sig e) = Some e" for e
    by (simp add: demo_sig_def demo_cut_field [where r = "[]", simplified])
  moreover have "sg_parse_ed demo_sig (sg_print_ed demo_sig e) = Some e" for e
    by (simp add: demo_sig_def demo_cut_field [where r = "[]", simplified])
  moreover have "scheme_for_keypair demo_sig kp = ED25519" for kp
    by (simp add: scheme_for_keypair_def demo_sig_def)
  ultimately show ?thesis
    by (simp add: sig_laws_def) (simp add: demo_sig_def)
qed

definition demo_key :: key_material where
  "demo_key = \<lparr>km_key_ref = ''k'', km_private_pem = Some ''k'', km_public_pem = Some ''k'', km_seed = Some ''k'', km_public = None\<rparr>"

definition demo_keys :: key_resolver where
  "demo_keys k = (if k = ''k'' then Inr demo_key else Inl (KeyNotFound k))"

definition demo_artifact :: signature_artifact where
  "demo_artifact = (case sigstore_sign demo_sig demo_keys ''sha256:aa'' (Keyed ''k'') of Inr a \<Rightarrow> a)"

lemma demo_artifact: "sigstore_sign demo_sig demo_keys ''sha256:aa'' (Keyed ''k'') = Inr demo_artifact"
  by (simp add: demo_artifact_def sigstore_sign_def demo_keys_def demo_key_def keypair_from_material_def demo_sig_def
      starts_with_def scheme_for_keypair_def Let_def)

definition demo_public_keys :: key_resolver where
  "demo_public_keys k = (if k = ''k'' then Inr (demo_key\<lparr>km_private_pem := None, km_seed := None\<rparr>) else Inl (KeyNotFound k))"

theorem sign_then_verify_witness:
  "\<exists>out. sigstore_verify demo_sig demo_public_keys ''sha256:aa'' [demo_artifact] (require_keys ''i'' ''n'' [''k'']) = Inr out \<and>
    vo_trusted out \<and> vo_matched out = [''k'']"
  by (rule sign_then_verify [OF demo_sig_laws _ _ _ _ _ _ demo_artifact, where m = demo_key and pem = "''k''" and kp = "''k''"
        and vk = "''k''" and m' = "demo_key\<lparr>km_private_pem := None, km_seed := None\<rparr>"])
    (simp_all add: demo_keys_def demo_public_keys_def demo_key_def demo_sig_def)

lemma demo_verified:
  "\<exists>out env. sigstore_verify demo_sig demo_keys ''sha256:aa'' [demo_artifact] (require_keys ''i'' ''n'' [''k'']) = Inr out \<and>
    vo_trusted out \<and> sg_parse_envelope demo_sig (sa_body demo_artifact) = Some env"
proof -
  have art: "demo_artifact = \<lparr>sa_media_type = MEDIA_TYPE_COSIGN_ENVELOPE_V1,
      sa_body = sg_print_envelope demo_sig \<lparr>en_digest = ''sha256:aa'', en_key_ref = ''k'', en_payload_b64 = ''sha256:aa'',
        en_signature_b64 = ''k|sha256:aa'', en_algorithm = ''b''\<rparr>,
      sa_signer_identity = ''k'', sa_signature_type = ''cosign-key''\<rparr>"
    by (simp add: demo_artifact_def sigstore_sign_def demo_keys_def demo_key_def keypair_from_material_def demo_sig_def
        starts_with_def scheme_for_keypair_def simple_for_digest_def Let_def)
  have "sa_media_type demo_artifact = MEDIA_TYPE_COSIGN_ENVELOPE_V1"
    and env: "sg_parse_envelope demo_sig (sa_body demo_artifact) = Some \<lparr>en_digest = ''sha256:aa'', en_key_ref = ''k'',
        en_payload_b64 = ''sha256:aa'', en_signature_b64 = ''k|sha256:aa'', en_algorithm = ''b''\<rparr>"
    unfolding art by (simp_all add: sig_lawsD(2) [OF demo_sig_laws])
  moreover have "sg_parse_scheme demo_sig ''b'' = Some ED25519" "sg_unb64 demo_sig s = Inr s"
    "sg_vk_of demo_sig pem sc = Inr pem" "sg_keypair demo_sig pem = Inr pem" "sg_vk_from_pem demo_sig pem sc = Inr pem"
    "sg_verify demo_sig vk sig m = (sig = vk @ ''|'' @ m)" for s pem sc vk sig m
    by (simp_all add: demo_sig_def)
  ultimately have "sigstore_match demo_sig demo_keys [''k''] ''sha256:aa'' demo_artifact = Some ''k''"
    by (simp add: sigstore_match_def demo_keys_def demo_key_def verification_key_from_material_def
        keypair_from_material_def)
  then show ?thesis
    by (simp add: sigstore_verify_def trusted_refs_require_keys map_filter_def Let_def env)
qed

theorem signature_replayed_for_other_digest_witness:
  "\<exists>art out. sigstore_verify demo_sig demo_keys ''sha256:evil'' [art] (require_keys ''i'' ''n'' [''k'']) = Inr out \<and> vo_trusted out"
proof -
  obtain out env where out: "sigstore_verify demo_sig demo_keys ''sha256:aa'' [demo_artifact] (require_keys ''i'' ''n'' [''k'']) = Inr out"
    "vo_trusted out" and env: "sg_parse_envelope demo_sig (sa_body demo_artifact) = Some env"
    using demo_verified by blast
  have "vp_required (require_keys ''i'' ''n'' [''k''])"
    by (simp add: require_keys_def)
  from signature_replayed_for_other_digest [OF demo_sig_laws this out env, of "''sha256:evil''"] show ?thesis
    by blast
qed

definition demo_ed_artifact :: signature_artifact where
  "demo_ed_artifact = (case memory_sign demo_sig demo_keys ''sha256:aa'' (Keyed ''k'') of Inr a \<Rightarrow> a)"

theorem ed25519_binds_digest_witness:
  "\<exists>env vk sig m. sg_parse_ed demo_sig (sa_body demo_ed_artifact) = Some env \<and> demo_keys (ee_key_ref env) = Inr m \<and>
    verifying_key_from_material demo_sig m = Inr vk \<and> sg_ed_verify demo_sig vk ''sha256:aa'' sig"
proof -
  have art: "demo_ed_artifact = \<lparr>sa_media_type = MEDIA_TYPE_ED25519_V1,
      sa_body = sg_print_ed demo_sig \<lparr>ee_digest = ''sha256:aa'', ee_key_ref = ''k'', ee_signature = replicate 64 CHR ''s'',
        ee_algorithm = ''ed25519''\<rparr>, sa_signer_identity = ''k'', sa_signature_type = ''cosign-key''\<rparr>"
    by (simp add: demo_ed_artifact_def memory_sign_def demo_keys_def demo_key_def signing_key_from_material_def
        starts_with_def signing_payload_def) (simp add: demo_sig_def)
  have "sg_parse_ed demo_sig (sg_print_ed demo_sig e) = Some e" for e
    using demo_sig_laws by (simp add: sig_laws_def)
  then have "memory_match demo_sig demo_keys [''k''] ''sha256:aa'' demo_ed_artifact = Some ''k''"
    by (simp add: art memory_match_def demo_keys_def demo_key_def verifying_key_from_material_def)
      (simp add: demo_sig_def)
  then obtain out where "memory_verify demo_sig demo_keys ''sha256:aa'' [demo_ed_artifact] (require_keys ''i'' ''n'' [''k'']) = Inr out"
    "vo_trusted out"
    by (simp add: memory_verify_def trusted_refs_require_keys map_filter_def Let_def)
  moreover have "vp_required (require_keys ''i'' ''n'' [''k''])" "trusted_refs_of (require_keys ''i'' ''n'' [''k'']) \<noteq> []"
    by (simp add: require_keys_def, simp add: trusted_refs_require_keys)
  ultimately show ?thesis
    using ed25519_binds_digest by fastforce
qed

definition demo_record :: "string \<Rightarrow> signature_record" where
  "demo_record t = \<lparr>sr_id = t, sr_subject_digest = ''sha256:aa'', sr_tenant = t, sr_project = ''p'', sr_repository = ''r'',
     sr_signature_digest = ''sha256:bb'', sr_signer_identity = None, sr_signature_type = ''cosign-key'', sr_media_type = None,
     sr_size_bytes = 0, sr_rekor_log_index = None, sr_signed_at = 0\<rparr>"

theorem signature_row_taken_witness:
  "list_for_subject True ''t2'' ''p'' ''r'' ''sha256:aa'' (fst (sig_put True (demo_record ''t2'') [demo_record ''t1''])) = Inr []"
proof -
  have "list_for_subject True (sr_tenant (demo_record ''t2'')) (sr_project (demo_record ''t2''))
      (sr_repository (demo_record ''t2'')) (sr_subject_digest (demo_record ''t2'')) [demo_record ''t1''] = Inr []"
    by (simp add: list_for_subject_def newest_first_def demo_record_def)
  from signature_row_taken [OF _ _ _ this, of "demo_record ''t1''"] show ?thesis
    by (simp add: demo_record_def)
qed

end
