(* ===== verification/Circuit_Breaker.thy ===== *)
theory Circuit_Breaker
  imports Prelude
begin

text \<open>
  \<open>specton-resilience/src/circuit_breaker.rs\<close>. A call takes the lock three times:
  to check whether it is admitted, to move an expired open breaker to half-open, and
  to record the outcome. \<open>call_classified\<close> is one call on its own; the step relation
  \<open>breaker_step\<close> lets any number of calls interleave at these three points. Time is in
  nanoseconds; metrics and log lines are left out.
\<close>

record breaker_config =
  failure_threshold :: nat
  success_threshold :: nat
  open_duration_secs :: nat

definition default_breaker_config :: breaker_config where
  "default_breaker_config =
    \<lparr>failure_threshold = 5, success_threshold = 3, open_duration_secs = 30\<rparr>"

datatype breaker_state =
    Closed (consecutive_failures: nat)
  | Open (opened_at: nat)
  | HalfOpen (consecutive_successes: nat)

definition breaker_new :: breaker_state where
  "breaker_new = Closed 0"

datatype 'e call_error = BreakerOpen | Inner 'e

definition open_duration :: "breaker_config \<Rightarrow> nat" where
  "open_duration cfg = open_duration_secs cfg * 10 ^ 9"

text \<open>The check under the read lock; \<open>Instant::elapsed\<close> saturates at zero.\<close>

definition rejects :: "breaker_config \<Rightarrow> nat \<Rightarrow> breaker_state \<Rightarrow> bool" where
  "rejects cfg now st = (case st of Open t \<Rightarrow> now - t < open_duration cfg | _ \<Rightarrow> False)"

text \<open>The transition under the write lock.\<close>

definition to_half_open :: "breaker_config \<Rightarrow> nat \<Rightarrow> breaker_state \<Rightarrow> breaker_state" where
  "to_half_open cfg now st =
    (case st of Open t \<Rightarrow> if now - t \<ge> open_duration cfg then HalfOpen 0 else st | _ \<Rightarrow> st)"

fun record_success :: "breaker_config \<Rightarrow> breaker_state \<Rightarrow> breaker_state" where
  "record_success cfg (Closed n) = Closed 0"
| "record_success cfg (HalfOpen n) =
    (if n + 1 \<ge> success_threshold cfg then Closed 0 else HalfOpen (n + 1))"
| "record_success cfg (Open t) = Closed 0"

fun record_failure :: "breaker_config \<Rightarrow> nat \<Rightarrow> breaker_state \<Rightarrow> breaker_state" where
  "record_failure cfg now (Closed n) =
    (if n + 1 \<ge> failure_threshold cfg then Open now else Closed (n + 1))"
| "record_failure cfg now (HalfOpen n) = Open now"
| "record_failure cfg now (Open t) = Open t"

definition is_open :: "breaker_state \<Rightarrow> bool" where
  "is_open st = (case st of Open _ \<Rightarrow> True | _ \<Rightarrow> False)"

text \<open>
  The protected operation runs on a world \<open>'w\<close> that \<open>clock\<close> reads the time from.
\<close>

definition call_classified ::
  "breaker_config \<Rightarrow> ('w \<Rightarrow> nat) \<Rightarrow> ('w \<Rightarrow> 'w \<times> ('e, 'a) result) \<Rightarrow> ('e \<Rightarrow> bool) \<Rightarrow>
   breaker_state \<times> 'w \<Rightarrow> (breaker_state \<times> 'w) \<times> ('e call_error, 'a) result" where
  "call_classified cfg clock f is_failure s =
    (let (st, w) = s in
     if rejects cfg (clock w) st then ((st, w), Inl BreakerOpen)
     else
       let st1 = to_half_open cfg (clock w) st;
           (w', r) = f w in
       (case r of
          Inr v \<Rightarrow> ((record_success cfg st1, w'), Inr v)
        | Inl e \<Rightarrow>
            if is_failure e then ((record_failure cfg (clock w') st1, w'), Inl (Inner e))
            else ((record_success cfg st1, w'), Inl (Inner e))))"

definition breaker_call ::
  "breaker_config \<Rightarrow> ('w \<Rightarrow> nat) \<Rightarrow> ('w \<Rightarrow> 'w \<times> ('e, 'a) result) \<Rightarrow>
   breaker_state \<times> 'w \<Rightarrow> (breaker_state \<times> 'w) \<times> ('e call_error, 'a) result" where
  "breaker_call cfg clock f = call_classified cfg clock f (\<lambda>_. True)"

section \<open>Interleaved calls\<close>

datatype call_phase = Idle | Admitted | Running

record breaker_sys =
  breaker :: breaker_state
  time :: nat
  phase :: "nat \<Rightarrow> call_phase"

definition breaker_init :: breaker_sys where
  "breaker_init = \<lparr>breaker = breaker_new, time = 0, phase = (\<lambda>_. Idle)\<rparr>"

inductive breaker_step :: "breaker_config \<Rightarrow> breaker_sys \<Rightarrow> breaker_sys \<Rightarrow> bool"
  for cfg where
  tick: "breaker_step cfg s (s\<lparr>time := time s + d\<rparr>)"
| admit: "phase s i = Idle \<Longrightarrow> \<not> rejects cfg (time s) (breaker s) \<Longrightarrow>
    breaker_step cfg s (s\<lparr>phase := (phase s)(i := Admitted)\<rparr>)"
| run: "phase s i = Admitted \<Longrightarrow>
    breaker_step cfg s (s\<lparr>breaker := to_half_open cfg (time s) (breaker s),
      phase := (phase s)(i := Running)\<rparr>)"
| success: "phase s i = Running \<Longrightarrow>
    breaker_step cfg s (s\<lparr>breaker := record_success cfg (breaker s),
      phase := (phase s)(i := Idle)\<rparr>)"
| failure: "phase s i = Running \<Longrightarrow>
    breaker_step cfg s (s\<lparr>breaker := record_failure cfg (time s) (breaker s),
      phase := (phase s)(i := Idle)\<rparr>)"

inductive breaker_reachable :: "breaker_config \<Rightarrow> breaker_sys \<Rightarrow> bool" for cfg where
  init: "breaker_reachable cfg breaker_init"
| step: "breaker_reachable cfg s \<Longrightarrow> breaker_step cfg s s' \<Longrightarrow> breaker_reachable cfg s'"

inductive_cases breaker_stepE: "breaker_step cfg s s'"

section \<open>The counter invariant\<close>

definition breaker_inv :: "breaker_config \<Rightarrow> nat \<Rightarrow> breaker_state \<Rightarrow> bool" where
  "breaker_inv cfg now st =
    (case st of
       Closed n \<Rightarrow> n < max 1 (failure_threshold cfg)
     | HalfOpen n \<Rightarrow> n < max 1 (success_threshold cfg)
     | Open t \<Rightarrow> t \<le> now)"

lemma breaker_inv_ops:
  assumes "breaker_inv cfg now st"
  shows "breaker_inv cfg (now + d) st"
    and "breaker_inv cfg now (to_half_open cfg now st)"
    and "breaker_inv cfg now (record_success cfg st)"
    and "breaker_inv cfg now (record_failure cfg now st)"
  using assms by (cases st; auto simp: breaker_inv_def to_half_open_def)+

lemma breaker_step_inv:
  "breaker_step cfg s s' \<Longrightarrow> breaker_inv cfg (time s) (breaker s) \<Longrightarrow>
    breaker_inv cfg (time s') (breaker s')"
  by (erule breaker_stepE) (auto intro: breaker_inv_ops)

lemma breaker_reachable_inv: "breaker_reachable cfg s \<Longrightarrow> breaker_inv cfg (time s) (breaker s)"
proof (induction rule: breaker_reachable.induct)
  case init
  show ?case by (simp add: breaker_init_def breaker_new_def breaker_inv_def)
qed (rule breaker_step_inv)

section \<open>One call at a time\<close>

text \<open>
  An event is a call made at \<open>t\<close> whose operation finishes at \<open>t'\<close> and succeeds or
  fails; \<open>seq_call\<close> is the effect of that call on the breaker.
\<close>

type_synonym call_event = "nat \<times> nat \<times> bool"

definition seq_call :: "breaker_config \<Rightarrow> breaker_state \<Rightarrow> call_event \<Rightarrow> breaker_state" where
  "seq_call cfg st ev =
    (let (t, t', ok) = ev in
     fst (fst (breaker_call cfg (\<lambda>w. w) (\<lambda>_. (t', if ok then Inr () else Inl ())) (st, t))))"

lemmas breaker_defs = seq_call_def breaker_call_def call_classified_def rejects_def to_half_open_def

lemma seq_call_Closed:
  "seq_call cfg (Closed n) (t, t', ok) =
    (if ok then Closed 0 else if n + 1 \<ge> failure_threshold cfg then Open t' else Closed (n + 1))"
  by (simp add: breaker_defs)

lemma seq_call_HalfOpen:
  "seq_call cfg (HalfOpen n) (t, t', ok) =
    (if \<not> ok then Open t' else if n + 1 \<ge> success_threshold cfg then Closed 0 else HalfOpen (n + 1))"
  by (simp add: breaker_defs)

lemma seq_call_Open:
  "seq_call cfg (Open opened) (t, t', ok) =
    (if t - opened < open_duration cfg then Open opened else seq_call cfg (HalfOpen 0) (t, t', ok))"
  by (auto simp: breaker_defs)

lemmas seq_call_simps = seq_call_Closed seq_call_HalfOpen seq_call_Open

text \<open>The failures at the end of a sequence of calls.\<close>

definition trailing_failures :: "call_event list \<Rightarrow> nat" where
  "trailing_failures evs = length (takeWhile (\<lambda>(_, _, ok). \<not> ok) (rev evs))"

lemma trailing_snoc:
  "trailing_failures (evs @ [(t, t', ok)]) = (if ok then 0 else Suc (trailing_failures evs))"
  by (simp add: trailing_failures_def)

lemma closed_run:
  "(\<And>pre suf. evs = pre @ suf \<Longrightarrow> trailing_failures pre < failure_threshold cfg) \<Longrightarrow>
    foldl (seq_call cfg) (Closed 0) evs = Closed (trailing_failures evs)"
proof (induction evs rule: rev_induct)
  case Nil
  show ?case by (simp add: trailing_failures_def)
next
  case (snoc ev evs)
  obtain t t' ok where ev: "ev = (t, t', ok)" by (cases ev)
  have "foldl (seq_call cfg) (Closed 0) evs = Closed (trailing_failures evs)"
    using snoc.prems by (intro snoc.IH) auto
  moreover have "trailing_failures (evs @ [ev]) < failure_threshold cfg"
    using snoc.prems [of "evs @ [ev]" "[]"] by simp
  ultimately show ?case
    by (auto simp: ev trailing_snoc seq_call_simps split: if_splits)
qed

lemma opens_at_threshold:
  assumes "\<And>pre suf. evs = pre @ suf \<Longrightarrow> trailing_failures pre < failure_threshold cfg"
    and "Suc (trailing_failures evs) = failure_threshold cfg"
  shows "foldl (seq_call cfg) (Closed 0) (evs @ [(t, t', False)]) = Open t'"
  using closed_run [OF assms(1)] assms(2) by (simp add: seq_call_simps)

lemma half_open_successes:
  "n + length evs < success_threshold cfg \<Longrightarrow> \<forall>(t, t', ok) \<in> set evs. ok \<Longrightarrow>
    foldl (seq_call cfg) (HalfOpen n) evs = HalfOpen (n + length evs)"
proof (induction evs arbitrary: n)
  case (Cons ev evs)
  then have "seq_call cfg (HalfOpen n) ev = HalfOpen (Suc n)"
    by (auto simp: seq_call_simps)
  with Cons show ?case by auto
qed simp

lemma recovers:
  assumes "success_threshold cfg = Suc n" "length evs = n" "\<forall>(t, t', ok) \<in> set evs. ok"
    and "opened + open_duration cfg \<le> t"
  shows "foldl (seq_call cfg) (Open opened) ((t, t', True) # evs) = Closed 0"
proof -
  have first: "seq_call cfg (Open opened) (t, t', True) =
      (if n = 0 then Closed 0 else HalfOpen 1)"
    using assms by (auto simp: seq_call_simps)
  show ?thesis
  proof (cases evs rule: rev_cases)
    case Nil
    with first assms show ?thesis by simp
  next
    case (snoc es ev)
    then have "foldl (seq_call cfg) (HalfOpen 1) es = HalfOpen (1 + length es)"
      using assms by (intro half_open_successes) auto
    with first snoc assms show ?thesis
      by (auto simp: seq_call_simps)
  qed
qed

section \<open>Properties\<close>

lemma take_prefix: "(\<forall>n. P (take n evs)) \<Longrightarrow> evs = pre @ suf \<Longrightarrow> P pre"
  by (metis append_eq_conv_conj)

text \<open>
  The life of a breaker that serves one call at a time. As long as fewer than
  \<open>failure_threshold\<close> calls in a row have failed it is closed and counts them; the call
  that reaches the threshold opens it. While it is open and the open duration has not
  passed, a call is rejected without running the operation and changes nothing. After
  that a failed probe opens it again, and \<open>success_threshold\<close> successful probes close it.
\<close>

theorem breaker_lifecycle:
  assumes "\<forall>n. trailing_failures (take n evs) < failure_threshold cfg"
    and "Suc (trailing_failures evs) = failure_threshold cfg"
    and "success_threshold cfg = Suc (length probes)" "\<forall>(_, _, ok) \<in> set probes. ok"
    and "opened + open_duration cfg \<le> t2"
  shows "foldl (seq_call cfg) breaker_new evs = Closed (trailing_failures evs) \<and>
    foldl (seq_call cfg) breaker_new (evs @ [(t1, opened, False)]) = Open opened \<and>
    (clock w - opened < open_duration cfg \<longrightarrow>
      call_classified cfg clock f is_failure (Open opened, w) = ((Open opened, w), Inl BreakerOpen)) \<and>
    seq_call cfg (Open opened) (t2, t3, False) = Open t3 \<and>
    foldl (seq_call cfg) (Open opened) ((t2, t3, True) # probes) = Closed 0"
proof (intro conjI impI)
  show "foldl (seq_call cfg) breaker_new evs = Closed (trailing_failures evs)"
    unfolding breaker_new_def by (rule closed_run) (rule take_prefix [OF assms(1)])
  show "foldl (seq_call cfg) breaker_new (evs @ [(t1, opened, False)]) = Open opened"
    unfolding breaker_new_def
    by (rule opens_at_threshold [OF _ assms(2)]) (rule take_prefix [OF assms(1)])
  show "call_classified cfg clock f is_failure (Open opened, w) = ((Open opened, w), Inl BreakerOpen)"
    if "clock w - opened < open_duration cfg"
    using that by (simp add: call_classified_def rejects_def)
  show "seq_call cfg (Open opened) (t2, t3, False) = Open t3"
    using assms(5) by (auto simp: seq_call_simps)
  show "foldl (seq_call cfg) (Open opened) ((t2, t3, True) # probes) = Closed 0"
    by (rule recovers [OF assms(3) HOL.refl assms(4,5)])
qed

theorem breaker_lifecycle_witness:
  "foldl (seq_call default_breaker_config) breaker_new
      [(1, 2, False), (3, 4, True), (5, 6, False), (7, 8, False), (9, 10, False), (11, 12, False),
       (13, 20, False)] = Open 20 \<and>
   foldl (seq_call default_breaker_config) (Open 20)
      [(40 * 10 ^ 9, 41 * 10 ^ 9, True), (42 * 10 ^ 9, 43 * 10 ^ 9, True), (44 * 10 ^ 9, 45 * 10 ^ 9, True)]
    = Closed 0"
proof -
  let ?evs = "[(1, 2, False), (3, 4, True), (5, 6, False), (7, 8, False), (9, 10, False),
    (11, 12, False)] :: call_event list"
  let ?probes = "[(42 * 10 ^ 9, 43 * 10 ^ 9, True), (44 * 10 ^ 9, 45 * 10 ^ 9, True)] :: call_event list"
  have "trailing_failures (take n ?evs) < failure_threshold default_breaker_config" for n
    by (auto simp: trailing_failures_def default_breaker_config_def take_Cons' split: if_splits)
  then have few: "\<forall>n. trailing_failures (take n ?evs) < failure_threshold default_breaker_config"
    by blast
  have thr: "Suc (trailing_failures ?evs) = failure_threshold default_breaker_config"
    by (simp add: trailing_failures_def default_breaker_config_def)
  have probes: "success_threshold default_breaker_config = Suc (length ?probes)"
    "\<forall>(_, _, ok) \<in> set ?probes. ok"
    by (simp_all add: default_breaker_config_def)
  have late: "20 + open_duration default_breaker_config \<le> 40 * 10 ^ 9"
    by (simp add: default_breaker_config_def open_duration_def)
  have "foldl (seq_call default_breaker_config) breaker_new (?evs @ [(13, 20, False)]) = Open 20"
    and "foldl (seq_call default_breaker_config) (Open 20)
      ((40 * 10 ^ 9, 41 * 10 ^ 9, True) # ?probes) = Closed 0"
    using breaker_lifecycle [OF few thr probes late, of 13 "\<lambda>w. w" 0 "\<lambda>w. (w, Inr ())" "\<lambda>_. True"
        "41 * 10 ^ 9"] by blast+
  then show ?thesis by simp
qed

text \<open>
  Whatever the interleaving of concurrent calls, the counters of the breaker stay
  below their thresholds, so incrementing a \<open>u32\<close> counter never overflows, and an open
  breaker was opened in the past.
\<close>

theorem breaker_counters_bounded:
  assumes "breaker_reachable cfg s" "failure_threshold cfg < 2 ^ 32" "success_threshold cfg < 2 ^ 32"
  shows "case breaker s of
       Closed n \<Rightarrow> n + 1 < 2 ^ 32 \<and> (0 < failure_threshold cfg \<longrightarrow> n < failure_threshold cfg)
     | HalfOpen n \<Rightarrow> n + 1 < 2 ^ 32 \<and> (0 < success_threshold cfg \<longrightarrow> n < success_threshold cfg)
     | Open t \<Rightarrow> t \<le> time s"
  using breaker_reachable_inv [OF assms(1)] assms(2,3)
  by (auto simp: breaker_inv_def max_def split: breaker_state.splits if_splits)

theorem breaker_counters_bounded_witness:
  "breaker_reachable default_breaker_config breaker_init \<and>
   (case breaker breaker_init of Closed n \<Rightarrow> n + 1 < 2 ^ 32 | _ \<Rightarrow> False)"
proof -
  have r: "breaker_reachable default_breaker_config breaker_init"
    by (rule breaker_reachable.init)
  have "failure_threshold default_breaker_config < 2 ^ 32"
    "success_threshold default_breaker_config < 2 ^ 32"
    by (simp_all add: default_breaker_config_def)
  from breaker_counters_bounded [OF r this] r show ?thesis
    by (simp add: breaker_init_def breaker_new_def)
qed

text \<open>
  With concurrent calls an open breaker can be closed at once, with no time passing
  and no half-open probe: a call admitted before the breaker opened and finishing
  successfully afterwards resets it. The branch the source calls impossible is reachable
  with the default configuration.
\<close>

theorem breaker_closed_by_straggler:
  "\<exists>s s'. breaker_reachable default_breaker_config s \<and> breaker_step default_breaker_config s s' \<and>
     breaker s = Open (time s) \<and> breaker s' = Closed 0 \<and> time s' = time s"
proof -
  let ?cfg = "default_breaker_config"
  let ?st = "\<lambda>n. \<lparr>breaker = (if n < 5 then Closed n else Open 0), time = 0, phase = (\<lambda>_. Idle)(0 := Running)\<rparr>"
  have idle: "(\<lambda>_. Idle)(0 := Running, Suc 0 := Idle) = (\<lambda>_. Idle)(0 := Running)"
    by (rule ext) simp
  have start: "breaker_reachable ?cfg (?st 0)"
  proof -
    have 1: "breaker_reachable ?cfg (breaker_init\<lparr>phase := (\<lambda>_. Idle)(0 := Admitted)\<rparr>)"
      using breaker_step.admit [of breaker_init 0 ?cfg]
      by (intro breaker_reachable.step [OF breaker_reachable.init])
        (simp add: breaker_init_def breaker_new_def rejects_def)
    show ?thesis
      using breaker_step.run [of "breaker_init\<lparr>phase := (\<lambda>_. Idle)(0 := Admitted)\<rparr>" 0 ?cfg]
      by (intro breaker_reachable.step [OF 1])
        (simp add: breaker_init_def breaker_new_def to_half_open_def)
  qed
  have fail: "breaker_reachable ?cfg (?st (Suc n))" if r: "breaker_reachable ?cfg (?st n)" and n: "n < 5" for n
  proof -
    let ?a = "(?st n)\<lparr>phase := (\<lambda>_. Idle)(0 := Running, 1 := Admitted)\<rparr>"
    let ?b = "(?st n)\<lparr>phase := (\<lambda>_. Idle)(0 := Running, 1 := Running)\<rparr>"
    have "breaker_step ?cfg (?st n) ?a"
      using breaker_step.admit [of "?st n" 1 ?cfg] n by (simp add: rejects_def)
    moreover have "breaker_step ?cfg ?a ?b"
      using breaker_step.run [of ?a 1 ?cfg] n by (simp add: to_half_open_def)
    moreover have "breaker_step ?cfg ?b (?st (Suc n))"
      using breaker_step.failure [of ?b 1 ?cfg] n
      by (auto simp: default_breaker_config_def idle split: if_splits)
    ultimately show ?thesis
      using r breaker_reachable.step by metis
  qed
  have "breaker_reachable ?cfg (?st n)" if "n \<le> 5" for n
    using that
  proof (induction n)
    case (Suc n)
    then have "n \<le> 5" "n < 5" by simp_all
    then show ?case by (rule fail [OF Suc.IH])
  qed (rule start)
  from this [of 5] have "breaker_reachable ?cfg (?st 5)"
    by simp
  moreover have "breaker_step ?cfg (?st 5) \<lparr>breaker = Closed 0, time = 0, phase = (\<lambda>_. Idle)\<rparr>"
    using breaker_step.success [of "?st 5" 0 ?cfg] by (simp add: fun_upd_idem)
  ultimately show ?thesis
    by (intro exI [of _ "?st 5"] exI [of _ "\<lparr>breaker = Closed 0, time = 0, phase = (\<lambda>_. Idle)\<rparr>"]) simp
qed

end
