(* ===== verification/Mirror_Upstream.thy ===== *)
theory Mirror_Upstream
  imports Circuit_Breaker Common Utf8
begin

text \<open>
  The client of one upstream registry (\<open>specton-mirror/src/upstream.rs\<close>): the
  \<open>WWW-Authenticate\<close> challenge, the token flow with its cache, and the two reads behind
  a circuit breaker. \<open>reqwest\<close> is a parameter: \<open>ht_send\<close> answers a request on an abstract
  world. The token cache is \<open>None\<close> once its mutex is poisoned; \<open>Instant\<close> counts
  nanoseconds and holds \<open>2 ^ 63\<close> seconds, beyond which an addition panics.
\<close>

section \<open>Challenges\<close>

record upstream_config =
  up_name :: string
  up_url :: string
  up_username :: "string option"
  up_password :: "string option"
  up_cache_ttl :: nat
  up_tenant_prefix :: "string option"

definition default_upstream_config :: upstream_config where
  "default_upstream_config =
    \<lparr>up_name = ''docker-hub'', up_url = ''https://registry-1.docker.io'', up_username = None,
     up_password = None, up_cache_ttl = 3600, up_tenant_prefix = None\<rparr>"

record challenge =
  ch_scheme :: string
  ch_realm :: "string option"
  ch_service :: "string option"
  ch_scope :: "string option"

text \<open>The loop over \<open>char_indices\<close>: \<open>acc\<close> is \<open>&params[start..i]\<close>.\<close>

fun split_params :: "bool \<Rightarrow> string \<Rightarrow> string \<Rightarrow> string list" where
  "split_params in_quotes acc [] = [acc]"
| "split_params in_quotes acc (c # cs) =
    (if c = CHR 0x22 then split_params (\<not> in_quotes) (acc @ [c]) cs
     else if c = CHR '','' \<and> \<not> in_quotes then acc # split_params in_quotes [] cs
     else split_params in_quotes (acc @ [c]) cs)"

definition trim_matches :: "char \<Rightarrow> string \<Rightarrow> string" where
  "trim_matches c s = rev (dropWhile (\<lambda>x. x = c) (rev (dropWhile (\<lambda>x. x = c) s)))"

definition add_param :: "string \<Rightarrow> challenge \<Rightarrow> challenge" where
  "add_param part ch = (case split_once CHR ''='' (trim part) of None \<Rightarrow> ch
     | Some (key, value) \<Rightarrow>
        (let v = trim_matches CHR 0x22 (trim value); k = map to_ascii_lowercase (trim key) in
         if k = ''realm'' then ch\<lparr>ch_realm := Some v\<rparr>
         else if k = ''service'' then ch\<lparr>ch_service := Some v\<rparr>
         else if k = ''scope'' then ch\<lparr>ch_scope := Some v\<rparr> else ch))"

definition parse_challenge :: "string \<Rightarrow> challenge option" where
  "parse_challenge header0 =
    (let header = trim header0;
         (scheme, params) = (case split_once CHR '' '' header of Some sp \<Rightarrow> sp | None \<Rightarrow> (header, [])) in
     if scheme = [] then None
     else Some (fold add_param (split_params False [] params)
       \<lparr>ch_scheme = map to_ascii_lowercase scheme, ch_realm = None, ch_service = None, ch_scope = None\<rparr>))"

definition resolve_realm :: "string \<Rightarrow> string \<Rightarrow> string" where
  "resolve_realm realm upstream_url =
    (if starts_with ''http://'' realm \<or> starts_with ''https://'' realm then realm
     else
       (let origin = (case find_str ''://'' upstream_url of
            Some (scheme, rest) \<Rightarrow> scheme @ ''://'' @ cut_at CHR ''/'' rest
          | None \<Rightarrow> upstream_url) in
        rev (dropWhile (\<lambda>c. c = CHR ''/'') (rev origin)) @ ''/'' @ dropWhile (\<lambda>c. c = CHR ''/'') realm))"

section \<open>Requests\<close>

datatype auth = Bearer string | Basic string string

record http_request =
  rq_url :: string
  rq_accept :: "string option"
  rq_query :: "(string \<times> string) list"
  rq_auth :: "auth option"

text \<open>\<open>hs_header\<close> holds the headers whose value is visible ASCII (\<open>to_str\<close>), under lower-case
  names; \<open>hs_body\<close> is what reading the body gives.\<close>

record http_response =
  hs_status :: nat
  hs_header :: "string \<rightharpoonup> string"
  hs_body :: "(string, bytes) result"

record token_response =
  tr_token :: "string option"
  tr_access_token :: "string option"
  tr_expires_in :: "nat option"

record 'w http_ops =
  ht_send :: "http_request \<Rightarrow> 'w \<Rightarrow> 'w \<times> (string, http_response) result"
  ht_text :: "bytes \<Rightarrow> string"
  ht_token :: "bytes \<Rightarrow> (string, token_response) result"
  ht_status_text :: "nat \<Rightarrow> string"
  ht_now :: "'w \<Rightarrow> nat"

datatype upstream_error =
    Request string
  | Http nat string
  | Auth string
  | UpBreakerOpen string
  | ManifestNotFound string
  | BlobNotFound string

fun upstream_not_found_equivalent :: "upstream_error \<Rightarrow> bool" where
  "upstream_not_found_equivalent (ManifestNotFound _) = True"
| "upstream_not_found_equivalent (BlobNotFound _) = True"
| "upstream_not_found_equivalent (UpBreakerOpen _) = True"
| "upstream_not_found_equivalent (Request _) = True"
| "upstream_not_found_equivalent (Http status _) = (status \<ge> 500 \<or> status = 404)"
| "upstream_not_found_equivalent (Auth _) = False"

definition is_success :: "nat \<Rightarrow> bool" where
  "is_success status \<longleftrightarrow> 200 \<le> status \<and> status < 300"

type_synonym token_cache = "(string \<rightharpoonup> string \<times> nat) option"

definition DEFAULT_TOKEN_TTL_SECS :: nat where
  "DEFAULT_TOKEN_TTL_SECS = 60"

definition send_mapped :: "'w http_ops \<Rightarrow> http_request \<Rightarrow> 'w \<Rightarrow> 'w \<times> (upstream_error, http_response) result" where
  "send_mapped H rq w = (case ht_send H rq w of (w', r) \<Rightarrow> (w', map_sum Request id r))"

text \<open>
  Fetching a token for a bearer challenge and retrying. The last component is \<open>None\<close> when
  \<open>Instant::now() + Duration\<close> overflows under the lock, which also poisons the cache.
\<close>

definition token_expiry :: "nat \<Rightarrow> nat \<Rightarrow> nat option" where
  "token_expiry now ttl =
    (let secs = max (ttl - 5) 1 in
     if now div 10 ^ 9 + secs < 2 ^ 63 then Some (now + secs * 10 ^ 9) else None)"

definition fetch_token :: "'w http_ops \<Rightarrow> upstream_config \<Rightarrow> challenge \<Rightarrow> string \<Rightarrow> string \<Rightarrow> 'w \<Rightarrow>
    'w \<times> (upstream_error, string \<times> nat) result" where
  "fetch_token H cfg ch realm scope w =
    (let rq = \<lparr>rq_url = realm, rq_accept = None,
           rq_query = (''scope'', scope) # (case ch_service ch of None \<Rightarrow> [] | Some s \<Rightarrow> [(''service'', s)]),
           rq_auth = (case (up_username cfg, up_password cfg) of (Some u, Some p) \<Rightarrow> Some (Basic u p) | _ \<Rightarrow> None)\<rparr> in
     case ht_send H rq w of
       (w1, Inl e) \<Rightarrow> (w1, Inl (Auth (''token request to '' @ realm @ '': '' @ e)))
     | (w1, Inr resp) \<Rightarrow>
        if \<not> is_success (hs_status resp)
        then (w1, Inl (Auth (''token endpoint '' @ realm @ '' returned '' @ ht_status_text H (hs_status resp))))
        else (case (case hs_body resp of Inl e \<Rightarrow> Inl e | Inr b \<Rightarrow> ht_token H b) of
          Inl e \<Rightarrow> (w1, Inl (Auth (''token response from '' @ realm @ '': '' @ e)))
        | Inr body \<Rightarrow>
           (let ttl = (case tr_expires_in body of None \<Rightarrow> DEFAULT_TOKEN_TTL_SECS | Some n \<Rightarrow> n) in
            case (case tr_token body of Some t \<Rightarrow> Some t | None \<Rightarrow> tr_access_token body) of
              None \<Rightarrow> (w1, Inl (Auth (''token endpoint '' @ realm @ '' returned no token'')))
            | Some t \<Rightarrow> (w1, Inr (t, ttl)))))"

definition answer_challenge :: "'w http_ops \<Rightarrow> upstream_config \<Rightarrow> (auth option \<Rightarrow> http_request) \<Rightarrow> string \<Rightarrow>
    challenge \<Rightarrow> http_response \<Rightarrow> token_cache \<Rightarrow> 'w \<Rightarrow>
    (token_cache \<times> 'w) \<times> (upstream_error, http_response) result option" where
  "answer_challenge H cfg request default_scope ch resp tokens w =
    (case (ch_scheme ch = ''bearer'', ch_realm ch) of
       (True, Some realm0) \<Rightarrow>
         (let realm = resolve_realm realm0 (up_url cfg);
              scope = (case ch_scope ch of None \<Rightarrow> default_scope | Some s \<Rightarrow> s) in
          case fetch_token H cfg ch realm scope w of
            (w1, Inl e) \<Rightarrow> ((tokens, w1), Some (Inl e))
          | (w1, Inr (t, ttl)) \<Rightarrow>
             (case tokens of
                None \<Rightarrow> (case send_mapped H (request (Some (Bearer t))) w1 of (w2, r) \<Rightarrow> ((None, w2), Some r))
              | Some m \<Rightarrow>
                 (case token_expiry (ht_now H w1) ttl of
                    None \<Rightarrow> ((None, w1), None)
                  | Some x \<Rightarrow>
                     (let m' = m(scope \<mapsto> (t, x), default_scope \<mapsto> (t, x)) in
                      case send_mapped H (request (Some (Bearer t))) w1 of (w2, r) \<Rightarrow> ((Some m', w2), Some r)))))
     | _ \<Rightarrow>
        (case (ch_scheme ch = ''basic'', up_username cfg, up_password cfg) of
           (True, Some u, Some p) \<Rightarrow>
             (case send_mapped H (request (Some (Basic u p))) w of (w1, r) \<Rightarrow> ((tokens, w1), Some r))
         | _ \<Rightarrow> ((tokens, w), Some (Inr resp))))"

text \<open>The request without a cached token, and the answer to its challenge.\<close>

definition plain_get :: "'w http_ops \<Rightarrow> upstream_config \<Rightarrow> (auth option \<Rightarrow> http_request) \<Rightarrow> string \<Rightarrow>
    token_cache \<Rightarrow> 'w \<Rightarrow> (token_cache \<times> 'w) \<times> (upstream_error, http_response) result option" where
  "plain_get H cfg request default_scope tokens w =
    (case send_mapped H (request None) w of
       (w1, Inl e) \<Rightarrow> ((tokens, w1), Some (Inl e))
     | (w1, Inr resp) \<Rightarrow>
        if hs_status resp \<noteq> 401 then ((tokens, w1), Some (Inr resp))
        else (case Option.bind (hs_header resp ''www-authenticate'') parse_challenge of
          None \<Rightarrow> ((tokens, w1), Some (Inr resp))
        | Some ch \<Rightarrow> answer_challenge H cfg request default_scope ch resp tokens w1))"

definition authed_get :: "'w http_ops \<Rightarrow> upstream_config \<Rightarrow> string \<Rightarrow> string \<Rightarrow> string option \<Rightarrow>
    token_cache \<times> 'w \<Rightarrow> (token_cache \<times> 'w) \<times> (upstream_error, http_response) result option" where
  "authed_get H cfg url repo accept = (\<lambda>(tokens, w).
    (let request = (\<lambda>a. \<lparr>rq_url = url, rq_accept = accept, rq_query = [], rq_auth = a\<rparr>);
         default_scope = ''repository:'' @ repo @ '':pull'';
         cached = (case tokens of None \<Rightarrow> None
           | Some m \<Rightarrow> (case m default_scope of None \<Rightarrow> None
              | Some (t, x) \<Rightarrow> if ht_now H w < x then Some t else None)) in
     case cached of
       None \<Rightarrow> plain_get H cfg request default_scope tokens w
     | Some t \<Rightarrow>
        (case send_mapped H (request (Some (Bearer t))) w of
           (w1, Inl e) \<Rightarrow> ((tokens, w1), Some (Inl e))
         | (w1, Inr resp) \<Rightarrow>
            if hs_status resp \<noteq> 401 then ((tokens, w1), Some (Inr resp))
            else plain_get H cfg request default_scope
              (map_option (\<lambda>m. m(default_scope := None)) tokens) w1)))"

section \<open>The client\<close>

record upstream =
  uc_config :: upstream_config
  uc_breaker :: breaker_state
  uc_tokens :: token_cache

definition upstream_breaker :: breaker_config where
  "upstream_breaker = \<lparr>failure_threshold = 5, success_threshold = 3, open_duration_secs = 30\<rparr>"

definition upstream_new :: "upstream_config \<Rightarrow> upstream" where
  "upstream_new cfg = \<lparr>uc_config = cfg, uc_breaker = breaker_new, uc_tokens = Some Map.empty\<rparr>"

record upstream_response =
  ur_data :: bytes
  ur_content_type :: string
  ur_digest :: "string option"

definition read_response :: "'w http_ops \<Rightarrow> upstream_error \<Rightarrow> string \<Rightarrow> (http_response \<Rightarrow> string option) \<Rightarrow>
    http_response \<Rightarrow> (upstream_error, upstream_response) result" where
  "read_response H not_found default_type digest_of resp =
    (if hs_status resp = 404 then Inl not_found
     else if \<not> is_success (hs_status resp)
     then Inl (Http (hs_status resp) (case hs_body resp of Inl _ \<Rightarrow> [] | Inr b \<Rightarrow> ht_text H b))
     else (case hs_body resp of Inl e \<Rightarrow> Inl (Request e)
       | Inr data \<Rightarrow> Inr \<lparr>ur_data = data,
           ur_content_type = (case hs_header resp ''content-type'' of None \<Rightarrow> default_type | Some t \<Rightarrow> t),
           ur_digest = digest_of resp\<rparr>))"

text \<open>
  \<open>cb.call(..)\<close> around a read. A panic inside it unwinds past the breaker, which has
  only been moved to half-open; the first case below is that one, so the last case of
  \<open>read_with\<close> is not reached.
\<close>

definition read_with :: "(http_response \<Rightarrow> (upstream_error, upstream_response) result) \<Rightarrow>
    (token_cache \<times> 'w) \<times> (upstream_error, http_response) result option \<Rightarrow>
    (token_cache \<times> 'w) \<times> (upstream_error, upstream_response) result" where
  "read_with read out = (case out of (s, Some (Inr resp)) \<Rightarrow> (s, read resp)
     | (s, Some (Inl e)) \<Rightarrow> (s, Inl e) | (s, None) \<Rightarrow> (s, Inl (Request [])))"

definition guarded_get :: "'w http_ops \<Rightarrow> string \<Rightarrow> string \<Rightarrow> string option \<Rightarrow>
    (http_response \<Rightarrow> (upstream_error, upstream_response) result) \<Rightarrow> upstream \<times> 'w \<Rightarrow>
    (upstream \<times> 'w) \<times> (upstream_error, upstream_response) result option" where
  "guarded_get H url repo accept read = (\<lambda>(u, w).
    (let run = authed_get H (uc_config u) url repo accept; now = ht_now H w in
     case (rejects upstream_breaker now (uc_breaker u), run (uc_tokens u, w)) of
       (False, ((tokens', w'), None)) \<Rightarrow>
         ((u\<lparr>uc_breaker := to_half_open upstream_breaker now (uc_breaker u), uc_tokens := tokens'\<rparr>, w'), None)
     | _ \<Rightarrow>
        (case breaker_call upstream_breaker (\<lambda>s. ht_now H (snd s)) (\<lambda>s. read_with read (run s))
            (uc_breaker u, uc_tokens u, w) of
          ((b', tokens', w'), r) \<Rightarrow>
            ((u\<lparr>uc_breaker := b', uc_tokens := tokens'\<rparr>, w'),
             Some (case r of Inr x \<Rightarrow> Inr x | Inl (Inner e) \<Rightarrow> Inl e
               | Inl BreakerOpen \<Rightarrow> Inl (UpBreakerOpen (up_name (uc_config u))))))))"

definition MANIFEST_ACCEPT :: string where
  "MANIFEST_ACCEPT =
    ''application/vnd.oci.image.manifest.v1+json, '' @
    ''application/vnd.oci.image.index.v1+json, '' @
    ''application/vnd.docker.distribution.manifest.v2+json, '' @
    ''application/vnd.docker.distribution.manifest.list.v2+json''"

definition up_get_manifest :: "'w http_ops \<Rightarrow> string \<Rightarrow> string \<Rightarrow> upstream \<times> 'w \<Rightarrow>
    (upstream \<times> 'w) \<times> (upstream_error, upstream_response) result option" where
  "up_get_manifest H repo reference = (\<lambda>(u, w).
    guarded_get H (up_url (uc_config u) @ ''/v2/'' @ repo @ ''/manifests/'' @ reference) repo (Some MANIFEST_ACCEPT)
      (read_response H (ManifestNotFound reference) ''application/vnd.oci.image.manifest.v1+json''
         (\<lambda>resp. hs_header resp ''docker-content-digest'')) (u, w))"

definition up_get_blob :: "'w http_ops \<Rightarrow> string \<Rightarrow> string \<Rightarrow> upstream \<times> 'w \<Rightarrow>
    (upstream \<times> 'w) \<times> (upstream_error, upstream_response) result option" where
  "up_get_blob H repo digest = (\<lambda>(u, w).
    guarded_get H (up_url (uc_config u) @ ''/v2/'' @ repo @ ''/blobs/'' @ digest) repo None
      (read_response H (BlobNotFound digest) ''application/octet-stream'' (\<lambda>_. Some digest)) (u, w))"

section \<open>Requests leave the store alone\<close>

definition http_quiet :: "'w http_ops \<Rightarrow> 'w view \<Rightarrow> bool" where
  "http_quiet H view \<longleftrightarrow> (\<forall>rq w. view (fst (ht_send H rq w)) = view w)"

lemma send_view:
  "http_quiet H view \<Longrightarrow> ht_send H rq w = (w', r) \<Longrightarrow> view w' = view w"
  "http_quiet H view \<Longrightarrow> send_mapped H rq w = (w', q) \<Longrightarrow> view w' = view w"
  unfolding http_quiet_def send_mapped_def by (metis fst_conv, auto split: prod.splits) (metis fst_conv)

lemma fetch_token_view:
  "http_quiet H view \<Longrightarrow> fetch_token H cfg ch realm scope w = (w', r) \<Longrightarrow> view w' = view w"
  by (auto simp: fetch_token_def Let_def dest: send_view
      split: prod.splits sum.splits if_splits option.splits)

lemma answer_challenge_view:
  assumes "http_quiet H view" "answer_challenge H cfg request scope ch resp tokens w = ((tk, w'), r)"
  shows "view w' = view w"
  using assms(2) send_view [OF assms(1)] fetch_token_view [OF assms(1)]
  unfolding answer_challenge_def Let_def
  by (simp split: prod.splits sum.splits bool.splits option.splits)

lemma plain_get_view:
  assumes "http_quiet H view" "plain_get H cfg request scope tokens w = ((tk, w'), r)"
  shows "view w' = view w"
  using assms(2) send_view(2) [OF assms(1)] answer_challenge_view [OF assms(1)]
  unfolding plain_get_def
  by (simp split: prod.splits sum.splits if_splits option.splits)

lemma authed_get_view:
  assumes "http_quiet H view" "authed_get H cfg url repo accept (tokens, w) = ((tk, w'), r)"
  shows "view w' = view w"
  using assms(2) send_view(2) [OF assms(1)] plain_get_view [OF assms(1)]
  unfolding authed_get_def Let_def
  by (simp split: prod.splits sum.splits if_splits option.splits)

lemma guarded_get_view:
  assumes "http_quiet H view" "guarded_get H url repo accept read (u, w) = ((u', w'), r)"
  shows "view w' = view w"
proof -
  obtain tk w1 x where run: "authed_get H (uc_config u) url repo accept (uc_tokens u, w) = ((tk, w1), x)"
    by (metis surj_pair)
  have "view w1 = view w"
    by (rule authed_get_view [OF assms(1) run])
  moreover have "w' = w \<or> w' = w1"
    using assms(2) run
    by (auto simp: guarded_get_def Let_def breaker_call_def call_classified_def read_with_def
        split: prod.splits option.splits bool.splits sum.splits if_splits)
  ultimately show ?thesis by auto
qed

lemma guarded_get_open:
  "rejects upstream_breaker (ht_now H w) (uc_breaker u) \<Longrightarrow>
    guarded_get H url repo accept read (u, w) = ((u, w), Some (Inl (UpBreakerOpen (up_name (uc_config u)))))"
  by (simp add: guarded_get_def Let_def breaker_call_def call_classified_def split: prod.splits)

section \<open>Printing a challenge and parsing it back\<close>

text \<open>The header a token-auth registry sends: every value quoted.\<close>

definition show_challenge :: "string \<Rightarrow> string \<Rightarrow> string \<Rightarrow> string \<Rightarrow> string" where
  "show_challenge scheme realm service scope =
    scheme @ '' realm='' @ quoted realm @ '',service='' @ quoted service @ '',scope='' @ quoted scope"

lemma split_params_quoted:
  "CHR 0x22 \<notin> set v \<Longrightarrow>
    split_params True acc (v @ CHR 0x22 # rest) = split_params False (acc @ v @ [CHR 0x22]) rest"
  by (induction v arbitrary: acc) auto

lemma split_params_word:
  "CHR 0x22 \<notin> set v \<Longrightarrow> CHR '','' \<notin> set v \<Longrightarrow>
    split_params False acc (v @ rest) = split_params False (acc @ v) rest"
  by (induction v arbitrary: acc) auto

lemma split_params_key:
  assumes "CHR 0x22 \<notin> set k" "CHR '','' \<notin> set k" "CHR 0x22 \<notin> set v"
  shows "split_params False [] (k @ quoted v @ rest) =
    split_params False (k @ quoted v) rest"
proof -
  have "split_params False [] (k @ quoted v @ rest) = split_params False k (CHR 0x22 # v @ CHR 0x22 # rest)"
    using split_params_word [OF assms(1,2), of "[]" "quoted v @ rest"] by (simp add: quoted_def)
  also have "\<dots> = split_params True (k @ [CHR 0x22]) (v @ CHR 0x22 # rest)"
    by simp
  also have "\<dots> = split_params False (k @ quoted v) rest"
    using split_params_quoted [OF assms(3)] by (simp add: quoted_def)
  finally show ?thesis .
qed

lemma not_whitespace_quote [simp]: "\<not> is_whitespace CHR 0x22"
  by code_simp

lemma quoted_nonempty [simp]: "quoted v \<noteq> []" "hd (quoted v) = CHR 0x22" "last (quoted v) = CHR 0x22"
  by (simp_all add: quoted_def)

lemma trim_matches_quoted: "CHR 0x22 \<notin> set v \<Longrightarrow> trim_matches CHR 0x22 (quoted v) = v"
proof (cases v rule: rev_cases)
  case (snoc ys y)
  moreover assume "CHR 0x22 \<notin> set v"
  ultimately show ?thesis
    by (cases ys) (auto simp: trim_matches_def quoted_def)
qed (simp add: trim_matches_def quoted_def)

lemma add_param_quoted:
  assumes "k \<in> {''realm'', ''service'', ''scope''}" "CHR 0x22 \<notin> set v"
  shows "add_param (k @ CHR ''='' # quoted v) ch =
    (if k = ''realm'' then ch\<lparr>ch_realm := Some v\<rparr>
     else if k = ''service'' then ch\<lparr>ch_service := Some v\<rparr> else ch\<lparr>ch_scope := Some v\<rparr>)"
proof -
  have k: "k \<noteq> []" "\<not> is_whitespace (hd k)" "CHR ''='' \<notin> set k" "map to_ascii_lowercase (trim k) = k"
    using assms(1) by (auto simp: is_whitespace_def trim_def to_ascii_lowercase_def is_ascii_uppercase_def
        less_eq_char_def)
  have "trim (k @ CHR ''='' # quoted v) = k @ CHR ''='' # quoted v"
    by (rule trim_id) (use k in auto)
  moreover have "trim (quoted v) = quoted v"
    by (rule trim_id) auto
  ultimately show ?thesis
    using split_once_append [OF k(3), of "quoted v"] k(4) trim_matches_quoted [OF assms(2)] assms(1)
    by (auto simp: add_param_def Let_def)
qed

lemma alphabetic_not_whitespace: "is_ascii_alphabetic c \<Longrightarrow> \<not> is_whitespace c \<and> c \<noteq> CHR '' ''"
  by (auto simp: is_ascii_alphabetic_def is_ascii_lowercase_def is_ascii_uppercase_def is_whitespace_def
      less_eq_char_def)

lemma split_challenge:
  assumes "CHR 0x22 \<notin> set realm" "CHR 0x22 \<notin> set service" "CHR 0x22 \<notin> set scope"
  shows "split_params False [] (''realm='' @ quoted realm @ '',service='' @ quoted service @ '',scope='' @ quoted scope) =
    [''realm'' @ CHR ''='' # quoted realm, ''service'' @ CHR ''='' # quoted service, ''scope'' @ CHR ''='' # quoted scope]"
proof -
  have scope: "split_params False [] (''scope='' @ quoted scope) = [''scope'' @ CHR ''='' # quoted scope]"
    using split_params_key [of "''scope=''" scope "[]"] assms by simp
  have service: "split_params False [] (''service='' @ quoted service @ CHR '','' # t) =
      (''service'' @ CHR ''='' # quoted service) # split_params False [] t" for t
    using split_params_key [of "''service=''" service "CHR '','' # t"] assms by simp
  have realm: "split_params False [] (''realm='' @ quoted realm @ CHR '','' # t) =
      (''realm'' @ CHR ''='' # quoted realm) # split_params False [] t" for t
    using split_params_key [of "''realm=''" realm "CHR '','' # t"] assms by simp
  show ?thesis
    using realm [of "''service='' @ quoted service @ '',scope='' @ quoted scope"]
      service [of "''scope='' @ quoted scope"] scope by simp
qed

text \<open>Challenges round-trip: whatever the realm, the service and the scope are - commas and
  spaces included - as long as they hold no quote, the header a token-auth registry sends
  is parsed back into exactly them, and the scheme in lower case.\<close>

theorem challenge_roundtrip:
  assumes "scheme \<noteq> []" "list_all is_ascii_alphabetic scheme"
    and "CHR 0x22 \<notin> set realm" "CHR 0x22 \<notin> set service" "CHR 0x22 \<notin> set scope"
  shows "parse_challenge (show_challenge scheme realm service scope) =
    Some \<lparr>ch_scheme = map to_ascii_lowercase scheme, ch_realm = Some realm, ch_service = Some service,
      ch_scope = Some scope\<rparr>"
proof -
  let ?h = "show_challenge scheme realm service scope"
  let ?params = "''realm='' @ quoted realm @ '',service='' @ quoted service @ '',scope='' @ quoted scope"
  have h: "?h = scheme @ CHR '' '' # ?params"
    by (simp add: show_challenge_def)
  have "\<not> is_whitespace (hd scheme)" "CHR '' '' \<notin> set scheme"
    using assms(1,2) alphabetic_not_whitespace by (cases scheme; auto simp: list_all_iff)+
  moreover have "trim ?h = ?h"
    by (rule trim_id) (use assms(1) calculation in \<open>auto simp: h\<close>)
  ultimately have "split_once CHR '' '' (trim ?h) = Some (scheme, ?params)"
    using split_once_append [of "CHR '' ''" scheme ?params] h by simp
  then show ?thesis
    using assms(1) split_challenge [OF assms(3-5)]
    by (simp add: parse_challenge_def add_param_quoted assms(3-5) del: append.simps)
qed

theorem challenge_roundtrip_witness:
  "parse_challenge (show_challenge ''Bearer'' ''https://auth/token'' ''reg'' ''repository:a/b:pull,push'') =
    Some \<lparr>ch_scheme = ''bearer'', ch_realm = Some ''https://auth/token'', ch_service = Some ''reg'',
      ch_scope = Some ''repository:a/b:pull,push''\<rparr>"
proof -
  have "list_all is_ascii_alphabetic ''Bearer''" "map to_ascii_lowercase ''Bearer'' = ''bearer''"
    by code_simp+
  with challenge_roundtrip [of "''Bearer''" "''https://auth/token''" "''reg''" "''repository:a/b:pull,push''"]
  show ?thesis by simp
qed

end
