(* ===== verification/Mirror.thy ===== *)
theory Mirror
  imports Mirror_Upstream
begin

text \<open>
  The pull-through mirror (\<open>specton-mirror/src/service.rs\<close>, \<open>cache.rs\<close>): which requests may
  go upstream, the order of the upstreams, the fetches that copy what they get into the
  local store, and the cache index kept beside the repository. The world holds the store
  and the network; \<open>serde_json\<close> on the index, SHA-256 and the clock are parameters.
\<close>

section \<open>Scope\<close>

datatype mirror_scope =
    All
  | DefaultTenantOnly string
  | Allowlist "string list" "string list"
  | Denylist "string list" "string list"
  | ManifestLinked

definition default_tenant_name :: string where
  "default_tenant_name = ''_''"

definition default_scope :: mirror_scope where
  "default_scope = DefaultTenantOnly default_tenant_name"

fun tenant_project_eligible :: "mirror_scope \<Rightarrow> string \<Rightarrow> string \<Rightarrow> bool" where
  "tenant_project_eligible All tenant project = True"
| "tenant_project_eligible (DefaultTenantOnly t) tenant project = (tenant = t)"
| "tenant_project_eligible (Allowlist tenants projects) tenant project =
    (if tenant \<in> set tenants then True
     else tenant @ ''/'' @ project \<in> set projects \<or> project \<in> set projects)"
| "tenant_project_eligible (Denylist tenants projects) tenant project =
    (if tenant \<in> set tenants then False
     else \<not> (tenant @ ''/'' @ project \<in> set projects \<or> project \<in> set projects))"
| "tenant_project_eligible ManifestLinked tenant project = True"

definition decides_at_tenant_level :: "mirror_scope \<Rightarrow> bool" where
  "decides_at_tenant_level s \<longleftrightarrow> s \<noteq> ManifestLinked"

record mirror_scope_config =
  sc_mode :: "string option"
  sc_default_tenant :: "string option"
  sc_tenants :: "string list"
  sc_projects :: "string list"

definition mirror_scope_from_config :: "mirror_scope_config \<Rightarrow> mirror_scope" where
  "mirror_scope_from_config cfg =
    (let default_tenant = (case sc_default_tenant cfg of None \<Rightarrow> ''_'' | Some t \<Rightarrow> t) in
     if sc_mode cfg = Some ''all'' then All
     else if sc_mode cfg = Some ''allowlist'' then Allowlist (sc_tenants cfg) (sc_projects cfg)
     else if sc_mode cfg = Some ''denylist'' then Denylist (sc_tenants cfg) (sc_projects cfg)
     else if sc_mode cfg \<in> {Some ''manifest_linked'', Some ''manifest-linked''} then ManifestLinked
     else DefaultTenantOnly default_tenant)"

section \<open>The cache index\<close>

record cache_entry =
  ce_digest :: string
  ce_upstream_name :: string
  ce_upstream_repo :: string
  ce_cached_at :: int
  ce_size :: nat
  ce_content_type :: string

text \<open>What the service is built over. Instants of \<open>Utc::now()\<close> count nanoseconds.\<close>

record ('w, 'h, 'u) mirror_env =
  me_store :: "('w, 'h, 'u) store_ops"
  me_http :: "'w http_ops"
  me_sha :: "bytes \<Rightarrow> string"
  me_utc :: "'w \<Rightarrow> int"
  me_parse_index :: "bytes \<Rightarrow> cache_entry list option"
  me_print_index :: "cache_entry list \<Rightarrow> bytes"

definition cache_index_path :: "string \<Rightarrow> string \<Rightarrow> string \<Rightarrow> string" where
  "cache_index_path tenant project repo =
    tenant @ ''/'' @ project @ ''/'' @ repo @ ''/.mirror/cache-index.json''"

definition load_index :: "('w, 'h, 'u) mirror_env \<Rightarrow> path \<Rightarrow> 'w \<Rightarrow> 'w \<times> cache_entry list" where
  "load_index E p w = (case os_get (me_store E) p w of
     (w1, Inl _) \<Rightarrow> (w1, [])
   | (w1, Inr h) \<Rightarrow> (case os_bytes (me_store E) h w1 of
       (w2, Inl _) \<Rightarrow> (w2, [])
     | (w2, Inr data) \<Rightarrow> (w2, case me_parse_index E data of None \<Rightarrow> [] | Some es \<Rightarrow> es)))"

definition record_cached :: "('w, 'h, 'u) mirror_env \<Rightarrow> string \<Rightarrow> string \<Rightarrow> string \<Rightarrow> cache_entry \<Rightarrow>
    ('w, unit) io" where
  "record_cached E tenant project repo entry w =
    (let p = os_path (me_store E) (cache_index_path tenant project repo);
         (w1, index) = load_index E p w;
         es = filter (\<lambda>e. ce_digest e \<noteq> ce_digest entry) index @ [entry] in
     os_put (me_store E) p (me_print_index E es) w1)"

text \<open>\<open>now.signed_duration_since(t).num_seconds()\<close> truncates towards zero.\<close>

definition age_secs :: "int \<Rightarrow> int \<Rightarrow> int" where
  "age_secs now t = (if t \<le> now then (now - t) div 10 ^ 9 else - ((t - now) div 10 ^ 9))"

definition entry_live :: "int \<Rightarrow> nat \<Rightarrow> cache_entry \<Rightarrow> bool" where
  "entry_live now ttl e \<longleftrightarrow> (let age = age_secs now (ce_cached_at e) in 0 \<le> age \<and> nat age < ttl)"

definition is_cached_valid :: "('w, 'h, 'u) mirror_env \<Rightarrow> nat \<Rightarrow> string \<Rightarrow> string \<Rightarrow> string \<Rightarrow> string \<Rightarrow>
    nat option \<Rightarrow> 'w \<Rightarrow> 'w \<times> bool" where
  "is_cached_valid E default_ttl tenant project repo digest ttl_secs w =
    (let (w1, index) = load_index E (os_path (me_store E) (cache_index_path tenant project repo)) w;
         ttl = (case ttl_secs of None \<Rightarrow> default_ttl | Some n \<Rightarrow> n) in
     (w1, case find (\<lambda>e. ce_digest e = digest) index of None \<Rightarrow> False
        | Some e \<Rightarrow> entry_live (me_utc E w1) ttl e))"

definition evict_expired :: "('w, 'h, 'u) mirror_env \<Rightarrow> nat \<Rightarrow> string \<Rightarrow> string \<Rightarrow> string \<Rightarrow>
    nat option \<Rightarrow> ('w, nat) io" where
  "evict_expired E default_ttl tenant project repo ttl_secs w =
    (let p = os_path (me_store E) (cache_index_path tenant project repo);
         (w1, index) = load_index E p w;
         ttl = (case ttl_secs of None \<Rightarrow> default_ttl | Some n \<Rightarrow> n);
         kept = filter (entry_live (me_utc E w1) ttl) index;
         evicted = length index - length kept in
     if evicted > 0 then
       (case os_put (me_store E) p (me_print_index E kept) w1 of
          (w2, Inl e) \<Rightarrow> (w2, Inl e) | (w2, Inr _) \<Rightarrow> (w2, Inr evicted))
     else (w1, Inr evicted))"

section \<open>The service\<close>

record mirror_config =
  mg_enabled :: bool
  mg_upstreams :: "upstream_config list"
  mg_cache_ttl :: nat
  mg_scope :: mirror_scope

definition default_mirror_config :: mirror_config where
  "default_mirror_config =
    \<lparr>mg_enabled = False, mg_upstreams = [], mg_cache_ttl = 3600, mg_scope = default_scope\<rparr>"

record mirror =
  mi_upstreams :: "upstream list"
  mi_routing :: "string \<rightharpoonup> nat"
  mi_scope :: mirror_scope
  mi_cache_ttl :: nat

definition route :: "nat \<times> upstream_config \<Rightarrow> (string \<rightharpoonup> nat) \<Rightarrow> (string \<rightharpoonup> nat)" where
  "route = (\<lambda>(idx, c) m. case up_tenant_prefix c of None \<Rightarrow> m | Some prefix \<Rightarrow> m(prefix \<mapsto> idx))"

definition mirror_new :: "mirror_config \<Rightarrow> mirror" where
  "mirror_new cfg =
    \<lparr>mi_upstreams = map upstream_new (mg_upstreams cfg),
     mi_routing = fold route (enumerate 0 (mg_upstreams cfg)) Map.empty,
     mi_scope = mg_scope cfg, mi_cache_ttl = mg_cache_ttl cfg\<rparr>"

definition resolve_upstreams :: "mirror \<Rightarrow> string \<Rightarrow> nat list" where
  "resolve_upstreams m tenant =
    (let first = (case mi_routing m tenant of None \<Rightarrow> [] | Some idx \<Rightarrow> [idx]) in
     fold (\<lambda>i indices. if i \<in> set indices then indices else indices @ [i]) [0..<length (mi_upstreams m)] first)"

datatype mirror_error =
    Upstream upstream_error
  | NoUpstreamsConfigured
  | NotFoundOnAnyUpstream
  | NotInScope
  | MirrorStorage string

fun mirror_not_found_equivalent :: "mirror_error \<Rightarrow> bool" where
  "mirror_not_found_equivalent NotFoundOnAnyUpstream = True"
| "mirror_not_found_equivalent NoUpstreamsConfigured = True"
| "mirror_not_found_equivalent NotInScope = True"
| "mirror_not_found_equivalent (Upstream u) = upstream_not_found_equivalent u"
| "mirror_not_found_equivalent (MirrorStorage _) = False"

record fetch_result =
  fr_data :: bytes
  fr_content_type :: string
  fr_digest :: string

text \<open>
  The loop over the upstreams: \<open>get\<close> is the read from one of them and \<open>keep\<close> what is done
  with an answer. The outer \<open>option\<close> of a result is \<open>None\<close> when an upstream read panics.
\<close>

type_synonym ('w, 'a) fetch = "mirror \<times> 'w \<Rightarrow> (mirror \<times> 'w) \<times> (mirror_error, 'a) result option"

fun try_upstreams :: "(upstream \<times> 'w \<Rightarrow> (upstream \<times> 'w) \<times> (upstream_error, upstream_response) result option) \<Rightarrow>
    (upstream \<Rightarrow> upstream_response \<Rightarrow> 'w \<Rightarrow> 'w \<times> fetch_result) \<Rightarrow> nat list \<Rightarrow> bool \<Rightarrow> upstream_error option \<Rightarrow>
    ('w, fetch_result) fetch" where
  "try_upstreams get keep [] all_not_found last_err s =
    (s, Some (Inl (if all_not_found then NotFoundOnAnyUpstream
       else (case last_err of None \<Rightarrow> NoUpstreamsConfigured | Some e \<Rightarrow> Upstream e))))"
| "try_upstreams get keep (idx # ids) all_not_found last_err (m, w) =
    (case get (mi_upstreams m ! idx, w) of
       ((u, w1), r) \<Rightarrow>
         (let m1 = m\<lparr>mi_upstreams := (mi_upstreams m)[idx := u]\<rparr> in
          case r of
            None \<Rightarrow> ((m1, w1), None)
          | Some (Inr response) \<Rightarrow> (case keep u response w1 of (w2, out) \<Rightarrow> ((m1, w2), Some (Inr out)))
          | Some (Inl e) \<Rightarrow>
              try_upstreams get keep ids (all_not_found \<and> upstream_not_found_equivalent e) (Some e) (m1, w1)))"

definition keep_manifest :: "('w, 'h, 'u) mirror_env \<Rightarrow> string \<Rightarrow> string \<Rightarrow> string \<Rightarrow> string \<Rightarrow>
    upstream \<Rightarrow> upstream_response \<Rightarrow> 'w \<Rightarrow> 'w \<times> fetch_result" where
  "keep_manifest E tenant project name reference u response w =
    (let S = me_store E;
         digest = (case ur_digest response of None \<Rightarrow> sha256_digest (me_sha E) (ur_data response) | Some d \<Rightarrow> d);
         w1 = fst (os_put S (os_path S (manifest_path tenant project name digest)) (ur_data response) w);
         w2 = (if \<not> starts_with ''sha256:'' reference
               then fst (os_put S (os_path S (tag_link_path tenant project name reference)) digest w1) else w1);
         w3 = fst (record_cached E tenant project name
           \<lparr>ce_digest = digest, ce_upstream_name = up_name (uc_config u), ce_upstream_repo = project @ ''/'' @ name,
            ce_cached_at = me_utc E w2, ce_size = length (ur_data response),
            ce_content_type = ur_content_type response\<rparr> w2) in
     (w3, \<lparr>fr_data = ur_data response, fr_content_type = ur_content_type response, fr_digest = digest\<rparr>))"

definition fetch_manifest :: "('w, 'h, 'u) mirror_env \<Rightarrow> string \<Rightarrow> string \<Rightarrow> string \<Rightarrow> string \<Rightarrow>
    ('w, fetch_result) fetch" where
  "fetch_manifest E tenant project name reference = (\<lambda>(m, w).
    (if \<not> tenant_project_eligible (mi_scope m) tenant project then ((m, w), Some (Inl NotInScope))
     else
       (let indices = resolve_upstreams m tenant in
        if indices = [] then ((m, w), Some (Inl NoUpstreamsConfigured))
        else try_upstreams (up_get_manifest (me_http E) (project @ ''/'' @ name) reference)
          (keep_manifest E tenant project name reference) indices True None (m, w))))"

definition keep_blob :: "('w, 'h, 'u) mirror_env \<Rightarrow> string \<Rightarrow> string \<Rightarrow> string \<Rightarrow> string \<Rightarrow>
    upstream \<Rightarrow> upstream_response \<Rightarrow> 'w \<Rightarrow> 'w \<times> fetch_result" where
  "keep_blob E tenant project name digest u response w =
    (let S = me_store E;
         w1 = fst (os_put S (os_path S (blob_path tenant project name digest)) (ur_data response) w);
         w2 = fst (record_cached E tenant project name
           \<lparr>ce_digest = digest, ce_upstream_name = up_name (uc_config u), ce_upstream_repo = project @ ''/'' @ name,
            ce_cached_at = me_utc E w1, ce_size = length (ur_data response),
            ce_content_type = ur_content_type response\<rparr> w1) in
     (w2, \<lparr>fr_data = ur_data response, fr_content_type = ur_content_type response, fr_digest = digest\<rparr>))"

definition is_blob_manifest_linked :: "('w, 'h, 'u) mirror_env \<Rightarrow> mirror \<Rightarrow> string \<Rightarrow> string \<Rightarrow> string \<Rightarrow> string \<Rightarrow>
    'w \<Rightarrow> 'w \<times> bool" where
  "is_blob_manifest_linked E m tenant project name digest w =
    is_cached_valid E (mi_cache_ttl m) tenant project name digest (Some (2 ^ 64 - 1)) w"

definition fetch_blob :: "('w, 'h, 'u) mirror_env \<Rightarrow> string \<Rightarrow> string \<Rightarrow> string \<Rightarrow> string \<Rightarrow>
    ('w, fetch_result) fetch" where
  "fetch_blob E tenant project name digest = (\<lambda>(m, w).
    (if \<not> tenant_project_eligible (mi_scope m) tenant project then ((m, w), Some (Inl NotInScope))
     else
       (let (w1, linked) = (if mi_scope m = ManifestLinked
              then is_blob_manifest_linked E m tenant project name digest w else (w, True)) in
        if \<not> linked then ((m, w1), Some (Inl NotInScope))
        else
          (let indices = resolve_upstreams m tenant in
           if indices = [] then ((m, w1), Some (Inl NoUpstreamsConfigured))
           else try_upstreams (up_get_blob (me_http E) (project @ ''/'' @ name) digest)
             (keep_blob E tenant project name digest) indices True None (m, w1)))))"

section \<open>The order of the upstreams\<close>

lemma fold_add_missing:
  "distinct is \<Longrightarrow> fold (\<lambda>i acc. if i \<in> set acc then acc else acc @ [i]) is acc = acc @ filter (\<lambda>i. i \<notin> set acc) is"
proof (induction "is" arbitrary: acc)
  case (Cons i ids)
  have "filter (\<lambda>j. j \<notin> set (acc @ [i])) ids = filter (\<lambda>j. j \<notin> set acc) ids"
    using Cons.prems by (intro filter_cong) auto
  with Cons show ?case by auto
qed simp

lemma resolve_upstreams_eq:
  "resolve_upstreams m tenant =
    (let first = (case mi_routing m tenant of None \<Rightarrow> [] | Some idx \<Rightarrow> [idx]) in
     first @ filter (\<lambda>i. i \<notin> set first) [0..<length (mi_upstreams m)])"
  by (simp add: resolve_upstreams_def Let_def fold_add_missing)

lemma fold_route:
  assumes "fold route (enumerate n cs) r t = Some i"
  shows "r t = Some i \<or> (n \<le> i \<and> i < n + length cs \<and> up_tenant_prefix (cs ! (i - n)) = Some t)"
  using assms
proof (induction cs arbitrary: n r)
  case (Cons c cs)
  from Cons.IH [of "Suc n" "route (n, c) r"] Cons.prems
  consider "route (n, c) r t = Some i"
    | "Suc n \<le> i" "i < Suc n + length cs" "up_tenant_prefix (cs ! (i - Suc n)) = Some t"
    by auto
  then show ?case
    by cases (auto simp: route_def nth_Cons' Suc_diff_Suc split: option.splits if_splits)
qed simp

lemma mirror_new_routing:
  assumes "mi_routing (mirror_new cfg) t = Some i"
  shows "i < length (mg_upstreams cfg)" "up_tenant_prefix (mg_upstreams cfg ! i) = Some t"
  using fold_route [of 0 "mg_upstreams cfg" Map.empty t i] assms by (simp_all add: mirror_new_def)

text \<open>The upstreams a fetch tries: each of them exactly once, and first the one configured for
  the tenant, when there is one.\<close>

theorem upstreams_tried_once:
  "distinct (resolve_upstreams (mirror_new cfg) t) \<and>
   set (resolve_upstreams (mirror_new cfg) t) = {..<length (mg_upstreams cfg)} \<and>
   (case mi_routing (mirror_new cfg) t of
      None \<Rightarrow> resolve_upstreams (mirror_new cfg) t = [0..<length (mg_upstreams cfg)]
    | Some i \<Rightarrow> hd (resolve_upstreams (mirror_new cfg) t) = i \<and> up_tenant_prefix (mg_upstreams cfg ! i) = Some t)"
proof -
  have n: "length (mi_upstreams (mirror_new cfg)) = length (mg_upstreams cfg)"
    by (simp add: mirror_new_def)
  show ?thesis
    using mirror_new_routing [of cfg t]
    by (cases "mi_routing (mirror_new cfg) t") (auto simp: resolve_upstreams_eq n)
qed

section \<open>What a fetch changes\<close>

text \<open>The loop changes the store only through \<open>keep\<close>.\<close>

lemma try_upstreams_invariant:
  assumes "try_upstreams get keep ids anf le (m, w) = ((m', w'), r)" "I w"
    and "\<And>u w u' w' r. get (u, w) = ((u', w'), r) \<Longrightarrow> I w \<Longrightarrow> I w'"
    and "\<And>u x w w' out. keep u x w = (w', out) \<Longrightarrow> I w \<Longrightarrow> I w'"
  shows "I w'"
  using assms(1,2)
proof (induction ids arbitrary: anf le m w)
  case (Cons i ids)
  obtain u w1 x where get: "get (mi_upstreams m ! i, w) = ((u, w1), x)"
    by (metis surj_pair)
  have "I w1"
    by (rule assms(3) [OF get Cons.prems(2)])
  then show ?case
    using Cons.prems(1) get Cons.IH assms(4) by (auto simp: Let_def split: option.splits sum.splits prod.splits)
qed simp

lemma cache_index_key: "cache_index_path t p r = repo_key t p r @ ''/'' @ ''.mirror/cache-index.json''"
  by (simp add: cache_index_path_def repo_key_def)

context object_store
begin

lemma load_index_view:
  assumes "load_index E p w = (w', es)" "me_store E = S"
  shows "view w' = view w"
  using assms get_view bytes_view
  by (auto simp: load_index_def split: prod.splits sum.splits)

lemma record_cached_confined:
  assumes "record_cached E t p n entry w = (w', r)" "me_store E = S" "plain_key (repo_key t p n)"
  shows "confined (repo_key t p n) (view w) (view w')"
proof -
  let ?p = "os_path S (cache_index_path t p n)"
  obtain w1 es where load: "load_index E ?p w = (w1, es)"
    by fastforce
  have "inside (repo_key t p n) ?p"
    unfolding cache_index_key by (rule path_inside [OF assms(3)])
  then have "confined (repo_key t p n) (view w1) (view w')"
    using assms(1,2) load put_confined by (auto simp: record_cached_def Let_def)
  then show ?thesis
    using load_index_view [OF load assms(2)] by simp
qed

lemma keep_manifest_confined:
  assumes "keep_manifest E t p n ref u x w = (w', out)" "me_store E = S" "plain_key (repo_key t p n)"
  shows "confined (repo_key t p n) (view w) (view w')"
proof -
  let ?k = "repo_key t p n"
  have put: "confined ?k (view v) (view (fst (os_put S (os_path S (manifest_path t p n d)) b v)))"
    "confined ?k (view v) (view (fst (os_put S (os_path S (tag_link_path t p n d)) b v)))" for d b v
    using put_confined repo_paths_inside [OF assms(3)] by (metis prod.collapse)+
  have rec: "confined ?k (view v) (view (fst (record_cached E t p n e v)))" for e v
    using record_cached_confined [OF _ assms(2,3)] by (metis prod.collapse)
  show ?thesis
    using assms(1,2) put rec
    by (auto simp: keep_manifest_def Let_def split: if_splits; meson confined_trans)
qed

lemma keep_blob_confined:
  assumes "keep_blob E t p n d u x w = (w', out)" "me_store E = S" "plain_key (repo_key t p n)"
  shows "confined (repo_key t p n) (view w) (view w')"
proof -
  let ?k = "repo_key t p n"
  have put: "confined ?k (view v) (view (fst (os_put S (os_path S (blob_path t p n d)) b v)))" for b v
    using put_confined repo_paths_inside [OF assms(3)] by (metis prod.collapse)
  have rec: "confined ?k (view v) (view (fst (record_cached E t p n e v)))" for e v
    using record_cached_confined [OF _ assms(2,3)] by (metis prod.collapse)
  show ?thesis
    using assms(1,2) put rec by (auto simp: keep_blob_def Let_def; meson confined_trans)
qed

lemma fetch_manifest_confined:
  assumes "fetch_manifest E t p n ref (m, w) = ((m', w'), r)" "me_store E = S"
    and "http_quiet (me_http E) view" "plain_key (repo_key t p n)"
  shows "confined (repo_key t p n) (view w) (view w')"
proof (cases "w' = w")
  case False
  then have run: "try_upstreams (up_get_manifest (me_http E) (p @ ''/'' @ n) ref) (keep_manifest E t p n ref)
      (resolve_upstreams m t) True None (m, w) = ((m', w'), r)"
    using assms(1) by (auto simp: fetch_manifest_def Let_def split: if_splits)
  show ?thesis
    by (rule try_upstreams_invariant [OF run])
      (auto simp: up_get_manifest_def guarded_get_view [OF assms(3)]
        dest: keep_manifest_confined [OF _ assms(2,4)] intro: confined_trans)
qed simp

lemma fetch_blob_confined:
  assumes "fetch_blob E t p n d (m, w) = ((m', w'), r)" "me_store E = S"
    and "http_quiet (me_http E) view" "plain_key (repo_key t p n)"
  shows "confined (repo_key t p n) (view w) (view w')"
proof -
  obtain w1 linked where pre: "(if mi_scope m = ManifestLinked
      then is_blob_manifest_linked E m t p n d w else (w, True)) = (w1, linked)"
    by fastforce
  have v: "view w1 = view w"
    using pre load_index_view [OF _ assms(2)]
    by (auto simp: is_blob_manifest_linked_def is_cached_valid_def Let_def split: if_splits prod.splits)
  consider "w' = w" | "w' = w1"
    | "try_upstreams (up_get_blob (me_http E) (p @ ''/'' @ n) d) (keep_blob E t p n d)
      (resolve_upstreams m t) True None (m, w1) = ((m', w'), r)"
    using assms(1) pre unfolding fetch_blob_def Let_def by (auto split: if_splits)
  then show ?thesis
  proof cases
    case 3
    have "confined (repo_key t p n) (view w1) (view w')"
      by (rule try_upstreams_invariant [OF 3])
        (auto simp: up_get_blob_def guarded_get_view [OF assms(3)]
          dest: keep_blob_confined [OF _ assms(2,4)] intro: confined_trans)
    with v show ?thesis by simp
  qed (simp_all add: v)
qed

end

text \<open>C13. A mirror fetch cannot leave its repository: whatever the upstream answers - a hostile
  \<open>Docker-Content-Digest\<close> included - only objects below \<open>tenant/project/name\<close> change, and for a
  tenant and project outside the configured scope no upstream is asked and nothing changes.\<close>

theorem mirror_fetch_confined:
  assumes "object_store (me_store E) view content target parts" "http_quiet (me_http E) view"
    and "plain_seg t" "plain_seg p" "plain_seg n"
    and "f = fetch_manifest E t p n x \<or> f = fetch_blob E t p n x" "f (m, w) = ((m', w'), r)"
  shows "confined (repo_key t p n) (view w) (view w') \<and>
    (tenant_project_eligible (mi_scope m) t p \<or> (m' = m \<and> w' = w \<and> r = Some (Inl NotInScope)))"
proof -
  have "plain_key (repo_key t p n)"
    using assms(3-5) by (rule repo_key_plain)
  then have "confined (repo_key t p n) (view w) (view w')"
    using object_store.fetch_manifest_confined [OF assms(1) _ refl assms(2)]
      object_store.fetch_blob_confined [OF assms(1) _ refl assms(2)] assms(6,7) by blast
  then show ?thesis
    using assms(6,7) by (auto simp: fetch_manifest_def fetch_blob_def)
qed

section \<open>A concrete mirror\<close>

text \<open>
  Upstreams whose answers are a function of the request, over the in-memory store; the
  index is printed as its digests. Data are their own hash here.
\<close>

definition demo_http :: "(http_request \<Rightarrow> http_response) \<Rightarrow> mem_world http_ops" where
  "demo_http answers = \<lparr>ht_send = (\<lambda>rq w. (w, Inr (answers rq))), ht_text = (\<lambda>b. b),
     ht_token = (\<lambda>b. Inr \<lparr>tr_token = Some b, tr_access_token = None, tr_expires_in = Some (2 ^ 64 - 1)\<rparr>),
     ht_status_text = (\<lambda>_. []), ht_now = op_count\<rparr>"

definition demo_entry :: "string \<Rightarrow> cache_entry" where
  "demo_entry d = \<lparr>ce_digest = d, ce_upstream_name = [], ce_upstream_repo = [], ce_cached_at = 0, ce_size = 0,
     ce_content_type = []\<rparr>"

fun demo_split :: "string \<Rightarrow> string \<Rightarrow> string list" where
  "demo_split acc [] = []"
| "demo_split acc (c # cs) = (if c = CHR ''|'' then acc # demo_split [] cs else demo_split (acc @ [c]) cs)"

definition demo_env :: "(http_request \<Rightarrow> http_response) \<Rightarrow> (mem_world, bytes, nat \<times> path) mirror_env" where
  "demo_env answers = \<lparr>me_store = mem_store, me_http = demo_http answers, me_sha = (\<lambda>b. b),
     me_utc = (\<lambda>w. int (op_count w)), me_parse_index = (\<lambda>b. Some (map demo_entry (demo_split [] b))),
     me_print_index = (\<lambda>es. concat (map (\<lambda>e. ce_digest e @ ''|'') es))\<rparr>"

definition demo_upstream :: "string \<Rightarrow> upstream_config" where
  "demo_upstream url = \<lparr>up_name = url, up_url = url, up_username = None, up_password = None,
     up_cache_ttl = 60, up_tenant_prefix = None\<rparr>"

definition demo_mirror :: "mirror_scope \<Rightarrow> string list \<Rightarrow> mirror" where
  "demo_mirror scope urls = mirror_new \<lparr>mg_enabled = True, mg_upstreams = map demo_upstream urls, mg_cache_ttl = 60, mg_scope = scope\<rparr>"

definition answer :: "nat \<Rightarrow> (string \<times> string) list \<Rightarrow> bytes \<Rightarrow> http_response" where
  "answer st hs body = \<lparr>hs_status = st, hs_header = map_of hs, hs_body = Inr body\<rparr>"

lemma demo_http_quiet: "http_quiet (demo_http answers) mem_view"
  by (simp add: http_quiet_def demo_http_def)

lemma demo_env_simps [simp]: "me_store (demo_env a) = mem_store" "me_http (demo_env a) = demo_http a"
  by (simp_all add: demo_env_def)

lemmas demo_mirror_defs = demo_mirror_def mirror_new_def upstream_new_def demo_upstream_def route_def
  demo_env_def demo_http_def answer_def demo_entry_def resolve_upstreams_def default_scope_def default_tenant_name_def

lemmas upstream_defs = up_get_manifest_def up_get_blob_def guarded_get_def authed_get_def plain_get_def send_mapped_def
  breaker_call_def call_classified_def rejects_def to_half_open_def breaker_new_def read_with_def read_response_def
  is_success_def

lemmas mem_run_defs = mem_store_def mem_io_def mem_get_def next_fault_def mem_init_def mem_view_def

theorem mirror_fetch_confined_witness:
  "confined (repo_key ''_'' ''p'' ''n'') (mem_view (mem_init [] []))
    (mem_view (snd (fst (fetch_manifest
      (demo_env (\<lambda>_. answer 200 [(''docker-content-digest'', ''../../../q/r/manifests/x'')] ''m''))
      ''_'' ''p'' ''n'' ''latest'' (demo_mirror default_scope [''u''], mem_init [] [])))))"
proof -
  let ?E = "demo_env (\<lambda>_. answer 200 [(''docker-content-digest'', ''../../../q/r/manifests/x'')] ''m'')"
  let ?m = "demo_mirror default_scope [''u'']"
  obtain m' w' r where out: "fetch_manifest ?E ''_'' ''p'' ''n'' ''latest'' (?m, mem_init [] []) = ((m', w'), r)"
    by (metis surj_pair)
  have store: "object_store (me_store ?E) mem_view (\<lambda>h. h) snd mem_parts"
    by (simp add: mem.object_store_axioms)
  have quiet: "http_quiet (me_http ?E) mem_view"
    by (simp add: demo_http_quiet)
  have "plain_seg ''_''" "plain_seg ''p''" "plain_seg ''n''"
    by code_simp+
  from mirror_fetch_confined [OF store quiet this disjI1 [OF refl] out] show ?thesis
    by (simp add: out)
qed

text \<open>
  What a fetch stores is not checked against the digest that was asked for: an upstream
  that answers a blob request with other bytes has them served and cached as that blob.
\<close>

theorem mirror_blob_unverified:
  "case fetch_blob (demo_env (\<lambda>_. answer 200 [] ''other'')) ''_'' ''p'' ''n'' ''sha256:aa''
      (demo_mirror default_scope [''u''], mem_init [] []) of
    ((_, w), Some (Inr out)) \<Rightarrow> fr_data out = ''other'' \<and> mem_view w (blob_path ''_'' ''p'' ''n'' ''sha256:aa'') = Some ''other''
      \<and> sha256_digest (\<lambda>b. b) ''other'' \<noteq> ''sha256:aa'' | _ \<Rightarrow> False"
  by (simp add: fetch_blob_def demo_mirror_defs upstream_defs keep_blob_def record_cached_def load_index_def
      mem_run_defs blob_path_def cache_index_path_def strip_prefix_or_def sha256_digest_def Let_def)

text \<open>
  The outcome of a fetch depends on the order of the upstreams: a failure to authenticate
  is reported as such only if it came last, and otherwise passes for a plain 404.
\<close>

definition one_auth_one_missing :: "http_request \<Rightarrow> http_response" where
  "one_auth_one_missing rq = (if starts_with ''a'' (rq_url rq)
     then answer 401 [(''www-authenticate'', ''Bearer realm=a'')] [] else answer 404 [] [])"

definition fetch_outcome :: "string list \<Rightarrow> bool option" where
  "fetch_outcome urls = (case fetch_manifest (demo_env one_auth_one_missing) ''_'' ''p'' ''n'' ''v1''
      (demo_mirror default_scope urls, mem_init [] []) of
    (_, Some (Inl e)) \<Rightarrow> Some (mirror_not_found_equivalent e) | _ \<Rightarrow> None)"

theorem auth_failure_order:
  "fetch_outcome [''a'', ''b''] = Some True \<and> fetch_outcome [''b'', ''a''] = Some False"
proof -
  have ch: "parse_challenge ''Bearer realm=a'' =
      Some \<lparr>ch_scheme = ''bearer'', ch_realm = Some ''a'', ch_service = None, ch_scope = None\<rparr>"
    by code_simp
  have realm: "resolve_realm ''a'' ''a'' = ''a/a''"
    by code_simp
  show ?thesis
    by (simp add: fetch_outcome_def fetch_manifest_def demo_mirror_defs upstream_defs answer_challenge_def fetch_token_def
        one_auth_one_missing_def ch realm starts_with_def upstream_breaker_def mem_run_defs Let_def)
qed

text \<open>
  Under \<open>ManifestLinked\<close> the layers of a manifest that has just been fetched are refused:
  the index records the digests that were fetched, not the ones the manifest refers to.
\<close>

definition linked_run :: "(mirror_error, fetch_result) result option" where
  "linked_run = (let E = demo_env (\<lambda>_. answer 200 [] ''layer:sha256:l1'');
       s1 = fst (fetch_manifest E ''_'' ''p'' ''n'' ''v1'' (demo_mirror ManifestLinked [''u''], mem_init [] [])) in
     snd (fetch_blob E ''_'' ''p'' ''n'' ''sha256:l1'' s1))"

theorem linked_layer_refused: "linked_run = Some (Inl NotInScope)"
  by (simp add: linked_run_def fetch_manifest_def fetch_blob_def demo_mirror_defs upstream_defs keep_manifest_def
      record_cached_def load_index_def is_blob_manifest_linked_def is_cached_valid_def manifest_path_def tag_link_path_def
      cache_index_path_def starts_with_def sha256_digest_def mem_run_defs Let_def)

end
