(* ===== verification/Retry.thy ===== *)
theory Retry
  imports Prelude
begin

text \<open>
  \<open>specton-resilience/src/retry.rs\<close>. The operation, the timer and the random
  generator act on a world \<open>'w\<close>: \<open>sleep\<close> and \<open>random_range\<close> are the functions
  the source takes from \<open>tokio\<close> and \<open>rand\<close>. The loop ends because the attempt
  counter reaches \<open>max_retries\<close>.
\<close>

record retry_policy =
  max_retries :: nat
  base_delay_ms :: nat
  max_delay_ms :: nat
  jitter :: bool

definition default_retry_policy :: retry_policy where
  "default_retry_policy =
    \<lparr>max_retries = 3, base_delay_ms = 100, max_delay_ms = 5000, jitter = True\<rparr>"

record 'w retry_env =
  sleep :: "nat \<Rightarrow> 'w \<Rightarrow> 'w"
  random_range :: "nat \<Rightarrow> 'w \<Rightarrow> 'w \<times> nat"

text \<open>\<open>u64\<close> arithmetic that stops at the largest value.\<close>

definition u64_max :: nat where
  "u64_max = 2 ^ 64 - 1"

definition saturating_mul :: "nat \<Rightarrow> nat \<Rightarrow> nat" where
  "saturating_mul a b = min (a * b) u64_max"

definition saturating_pow :: "nat \<Rightarrow> nat \<Rightarrow> nat" where
  "saturating_pow a n = min (a ^ n) u64_max"

definition capped_delay :: "retry_policy \<Rightarrow> nat \<Rightarrow> nat" where
  "capped_delay p attempt =
    min (saturating_mul (base_delay_ms p) (saturating_pow 2 attempt)) (max_delay_ms p)"

definition compute_delay :: "'w retry_env \<Rightarrow> retry_policy \<Rightarrow> nat \<Rightarrow> 'w \<Rightarrow> 'w \<times> nat" where
  "compute_delay env p attempt w =
    (if jitter p then random_range env (capped_delay p attempt) w else (w, capped_delay p attempt))"

function retry_loop ::
  "'w retry_env \<Rightarrow> retry_policy \<Rightarrow> ('w \<Rightarrow> 'w \<times> ('e, 'a) result) \<Rightarrow> nat \<Rightarrow> 'w \<Rightarrow>
   'w \<times> ('e, 'a) result" where
  "retry_loop env p f attempt w =
    (case f w of
       (w1, Inr v) \<Rightarrow> (w1, Inr v)
     | (w1, Inl e) \<Rightarrow>
         if attempt \<ge> max_retries p then (w1, Inl e)
         else (let (w2, delay) = compute_delay env p attempt w1 in
               retry_loop env p f (attempt + 1) (sleep env delay w2)))"
  by pat_completeness auto
termination
  by (relation "measure (\<lambda>(env, p, f, attempt, w). max_retries p - attempt)") auto

declare retry_loop.simps [simp del]

definition execute_labeled ::
  "'w retry_env \<Rightarrow> retry_policy \<Rightarrow> ('w \<Rightarrow> 'w \<times> ('e, 'a) result) \<Rightarrow> 'w \<Rightarrow> 'w \<times> ('e, 'a) result" where
  "execute_labeled env p f w = retry_loop env p f 0 w"

section \<open>Delays\<close>

lemma capped_delay_exact:
  assumes "max_delay_ms p \<le> u64_max"
  shows "capped_delay p attempt = min (base_delay_ms p * 2 ^ attempt) (max_delay_ms p)"
proof (cases "2 ^ attempt \<le> u64_max")
  case True
  with assms show ?thesis
    by (simp add: capped_delay_def saturating_mul_def saturating_pow_def min_def)
next
  case False
  show ?thesis
  proof (cases "base_delay_ms p = 0")
    case nz: False
    have "max_delay_ms p \<le> base_delay_ms p * u64_max"
      using assms nz by (metis le_trans mult_le_mono1 mult_1 One_nat_def Suc_leI neq0_conv)
    moreover have "base_delay_ms p * u64_max \<le> base_delay_ms p * 2 ^ attempt"
      using False by (intro mult_le_mono2) simp
    moreover have "saturating_pow 2 attempt = u64_max"
      using False by (simp add: saturating_pow_def)
    ultimately have "capped_delay p attempt = max_delay_ms p"
      and "max_delay_ms p \<le> base_delay_ms p * 2 ^ attempt"
      using assms by (simp add: capped_delay_def saturating_mul_def, linarith)
    then show ?thesis by simp
  qed (simp add: capped_delay_def saturating_mul_def)
qed

section \<open>Attempts\<close>

text \<open>The world before attempt number \<open>n\<close>, counting from \<open>attempt\<close>.\<close>

fun before_attempt ::
  "'w retry_env \<Rightarrow> retry_policy \<Rightarrow> ('w \<Rightarrow> 'w \<times> ('e, 'a) result) \<Rightarrow> nat \<Rightarrow> nat \<Rightarrow> 'w \<Rightarrow> 'w" where
  "before_attempt env p f attempt 0 w = w"
| "before_attempt env p f attempt (Suc n) w =
    (let (w2, delay) = compute_delay env p attempt (fst (f w)) in
     before_attempt env p f (Suc attempt) n (sleep env delay w2))"

lemma retry_loop_spec:
  "\<exists>n. attempt + n \<le> max attempt (max_retries p) \<and>
     retry_loop env p f attempt w = f (before_attempt env p f attempt n w) \<and>
     (\<forall>m < n. \<exists>w' e. f (before_attempt env p f attempt m w) = (w', Inl e)) \<and>
     (\<forall>w' e. f (before_attempt env p f attempt n w) = (w', Inl e) \<longrightarrow>
       attempt + n = max attempt (max_retries p))"
proof (induction env p f attempt w rule: retry_loop.induct)
  case (1 env p f attempt w)
  show ?case
  proof (cases "f w")
    case (Pair w1 r)
    show ?thesis
    proof (cases r)
      case (Inr v)
      with Pair show ?thesis
        by (intro exI [of _ 0]) (simp add: retry_loop.simps [of env p f attempt w])
    next
      case (Inl e)
      show ?thesis
      proof (cases "attempt \<ge> max_retries p")
        case True
        with Pair Inl show ?thesis
          by (intro exI [of _ 0]) (simp add: retry_loop.simps [of env p f attempt w])
      next
        case False
        obtain w2 delay where d: "compute_delay env p attempt w1 = (w2, delay)"
          by force
        from 1 [OF Pair [symmetric] Inl False d [symmetric] HOL.refl] obtain n where n:
          "Suc attempt + n \<le> max (Suc attempt) (max_retries p)"
          "retry_loop env p f (Suc attempt) (sleep env delay w2) =
            f (before_attempt env p f (Suc attempt) n (sleep env delay w2))"
          "\<forall>m < n. \<exists>w' e. f (before_attempt env p f (Suc attempt) m (sleep env delay w2)) = (w', Inl e)"
          "\<forall>w' e. f (before_attempt env p f (Suc attempt) n (sleep env delay w2)) = (w', Inl e) \<longrightarrow>
            Suc attempt + n = max (Suc attempt) (max_retries p)"
          by auto
        have step: "before_attempt env p f attempt (Suc m) w =
            before_attempt env p f (Suc attempt) m (sleep env delay w2)" for m
          by (simp add: Pair d)
        have "retry_loop env p f attempt w = retry_loop env p f (Suc attempt) (sleep env delay w2)"
          using False by (simp add: retry_loop.simps [of env p f attempt w] Pair Inl d)
        moreover have "\<exists>w' e. f (before_attempt env p f attempt m w) = (w', Inl e)" if "m < Suc n" for m
          using that n(3) Pair Inl by (cases m) (auto simp: step simp del: before_attempt.simps(2))
        ultimately show ?thesis
          using n(1,2,4) False
          by (intro exI [of _ "Suc n"]) (auto simp: step simp del: before_attempt.simps(2))
      qed
    qed
  qed
qed

section \<open>Properties\<close>

text \<open>
  C36. A retried operation runs at least once and at most \<open>max_retries + 1\<close> times: the
  result is that of the first attempt that succeeds, or that of the last one allowed,
  every earlier attempt having failed.
\<close>

theorem retry_attempts:
  "\<exists>n \<le> max_retries p.
     execute_labeled env p f w = f (before_attempt env p f 0 n w) \<and>
     (\<forall>m < n. \<exists>w' e. f (before_attempt env p f 0 m w) = (w', Inl e)) \<and>
     (\<forall>w' e. execute_labeled env p f w = (w', Inl e) \<longrightarrow> n = max_retries p)"
proof -
  from retry_loop_spec [of 0 p env f w] obtain n where
    "n \<le> max_retries p" "execute_labeled env p f w = f (before_attempt env p f 0 n w)"
    "\<forall>m < n. \<exists>w' e. f (before_attempt env p f 0 m w) = (w', Inl e)"
    "\<forall>w' e. f (before_attempt env p f 0 n w) = (w', Inl e) \<longrightarrow> n = max_retries p"
    unfolding execute_labeled_def by auto
  then show ?thesis by (intro exI [of _ n]) simp
qed

definition script_env :: "'w retry_env" where
  "script_env = \<lparr>sleep = (\<lambda>_ w. w), random_range = (\<lambda>n w. (w, n))\<rparr>"

definition script_op :: "(nat, nat) result list \<Rightarrow> (nat, nat) result list \<times> (nat, nat) result" where
  "script_op w = (tl w, hd w)"

theorem retry_attempts_witness:
  "execute_labeled script_env default_retry_policy script_op [Inl 1, Inl 2, Inr 3, Inl 4] = ([Inl 4], Inr 3) \<and>
   (\<exists>n \<le> 3. script_op (before_attempt script_env default_retry_policy script_op 0 n
      [Inl 1, Inl 2, Inr 3, Inl 4]) = ([Inl 4], Inr 3))"
proof -
  have run: "execute_labeled script_env default_retry_policy script_op [Inl 1, Inl 2, Inr 3, Inl 4]
      = ([Inl 4], Inr 3)"
    by (simp add: execute_labeled_def retry_loop.simps script_op_def script_env_def
        compute_delay_def default_retry_policy_def)
  moreover have "max_retries default_retry_policy = 3"
    by (simp add: default_retry_policy_def)
  ultimately show ?thesis
    using retry_attempts [of default_retry_policy script_env script_op "[Inl 1, Inl 2, Inr 3, Inl 4]"]
    by auto
qed

text \<open>
  The delay before a retry doubles with every attempt up to the configured maximum,
  computed in \<open>u64\<close> without wrapping for every attempt number, and with jitter it
  never exceeds that value.
\<close>

theorem retry_delay:
  assumes "max_delay_ms p < 2 ^ 64" "\<And>n w. snd (random_range env n w) \<le> n"
  shows "capped_delay p attempt = min (base_delay_ms p * 2 ^ attempt) (max_delay_ms p) \<and>
    snd (compute_delay env p attempt w) \<le> max_delay_ms p \<and>
    (\<not> jitter p \<longrightarrow> snd (compute_delay env p attempt w) = capped_delay p attempt)"
proof (intro conjI impI)
  show exact: "capped_delay p attempt = min (base_delay_ms p * 2 ^ attempt) (max_delay_ms p)"
    by (rule capped_delay_exact) (use assms(1) in \<open>simp add: u64_max_def\<close>)
  have "capped_delay p attempt \<le> max_delay_ms p"
    by (simp add: capped_delay_def)
  then show "snd (compute_delay env p attempt w) \<le> max_delay_ms p"
    using assms(2) [of "capped_delay p attempt" w] by (simp add: compute_delay_def)
qed (simp add: compute_delay_def)

theorem retry_delay_witness:
  "capped_delay default_retry_policy 100 = 5000 \<and>
   snd (compute_delay (script_env :: nat retry_env) default_retry_policy 2 0) \<le> 5000"
proof -
  have max: "max_delay_ms default_retry_policy < 2 ^ 64"
    by (simp add: default_retry_policy_def)
  have random: "snd (random_range (script_env :: nat retry_env) n w) \<le> n" for n w
    by (simp add: script_env_def)
  show ?thesis
    using retry_delay [OF max random, of 100] retry_delay [OF max random, of 2 0]
    by (simp add: default_retry_policy_def)
qed

end
