(* ===== verification/Replication.thy ===== *)
theory Replication
  imports Circuit_Breaker Retry Common
begin

text \<open>
  Multi-region replication (\<open>specton-replication\<close>): the regions and their health
  (\<open>failover.rs\<close>), the events of the write path (\<open>event.rs\<close>) and the loop that forwards
  them to the other regions (\<open>replicator.rs\<close>). HTTP, the clock, \<open>serde_json\<close> and the
  formatting of timestamps are parameters over an abstract world. The counter of failed
  probes is a number without bound; in the code it has 32 bits and grows by one per probe.
\<close>

section \<open>Regions\<close>

datatype replication_mode = Async | SemiSync

record region_config =
  reg_name :: string
  reg_endpoint :: string
  reg_internal :: string
  reg_primary :: bool
  reg_priority :: nat

record replication_policy =
  pol_mode :: replication_mode
  pol_max_lag_secs :: nat
  pol_batch_size :: nat
  pol_sweep_interval :: nat

definition default_replication_policy :: replication_policy where
  "default_replication_policy = \<lparr>pol_mode = Async, pol_max_lag_secs = 60, pol_batch_size = 50, pol_sweep_interval = 10\<rparr>"

record multi_region_config =
  mr_local :: string
  mr_regions :: "region_config list"
  mr_policy :: replication_policy

definition default_multi_region :: multi_region_config where
  "default_multi_region = \<lparr>mr_local = ''us-east-1'', mr_regions = [], mr_policy = default_replication_policy\<rparr>"

section \<open>Failover\<close>

record region_health =
  rh_healthy :: bool
  rh_last_check :: int
  rh_failures :: nat
  rh_response_ms :: "nat option"

definition fresh_health :: "int \<Rightarrow> region_health" where
  "fresh_health now = \<lparr>rh_healthy = True, rh_last_check = now, rh_failures = 0, rh_response_ms = None\<rparr>"

record failover =
  fo_local :: string
  fo_regions :: "region_config list"
  fo_health :: "string \<rightharpoonup> region_health"
  fo_threshold :: nat

definition failover_new :: "int \<Rightarrow> string \<Rightarrow> region_config list \<Rightarrow> failover" where
  "failover_new now local_region regions =
    \<lparr>fo_local = local_region, fo_regions = regions,
     fo_health = fold (\<lambda>r m. m(reg_name r \<mapsto> fresh_health now)) regions Map.empty, fo_threshold = 3\<rparr>"

datatype probe = Success nat | BadStatus nat | Unreachable

fun probe_health :: "nat \<Rightarrow> probe \<Rightarrow> region_health \<Rightarrow> region_health" where
  "probe_health n (Success ms) h = h\<lparr>rh_healthy := True, rh_failures := 0, rh_response_ms := Some ms\<rparr>"
| "probe_health n (BadStatus ms) h =
    (let h' = h\<lparr>rh_failures := rh_failures h + 1, rh_response_ms := Some ms\<rparr> in
     if rh_failures h' \<ge> n then h'\<lparr>rh_healthy := False\<rparr> else h')"
| "probe_health n Unreachable h =
    (let h' = h\<lparr>rh_failures := rh_failures h + 1, rh_response_ms := None\<rparr> in
     if rh_failures h' \<ge> n then h'\<lparr>rh_healthy := False\<rparr> else h')"

text \<open>One turn of the loop for one region; \<open>now\<close> is read when the entry is missing and at the end.\<close>

definition check_region :: "int \<Rightarrow> (string \<Rightarrow> probe) \<Rightarrow> region_config \<Rightarrow> failover \<Rightarrow> failover" where
  "check_region now probes r fo =
    (if reg_name r = fo_local fo then fo
     else (let h = (case fo_health fo (reg_name r) of None \<Rightarrow> fresh_health now | Some h \<Rightarrow> h);
               h' = (probe_health (fo_threshold fo) (probes (reg_endpoint r @ ''/health'')) h)\<lparr>rh_last_check := now\<rparr> in
           fo\<lparr>fo_health := (fo_health fo)(reg_name r \<mapsto> h')\<rparr>))"

definition health_round :: "int \<Rightarrow> (string \<Rightarrow> probe) \<Rightarrow> failover \<Rightarrow> failover" where
  "health_round now probes fo = fold (check_region now probes) (fo_regions fo) fo"

definition failover_candidates :: "failover \<Rightarrow> region_config list" where
  "failover_candidates fo =
    filter (\<lambda>r. case fo_health fo (reg_name r) of None \<Rightarrow> False | Some h \<Rightarrow> rh_healthy h)
      (filter (\<lambda>r. reg_name r \<noteq> fo_local fo) (fo_regions fo))"

definition next_healthy_region :: "failover \<Rightarrow> region_config option" where
  "next_healthy_region fo =
    (case sort_key reg_priority (failover_candidates fo) of [] \<Rightarrow> None | r # _ \<Rightarrow> Some r)"

definition primary_region :: "failover \<Rightarrow> region_config option" where
  "primary_region fo = find reg_primary (fo_regions fo)"

definition is_local_primary :: "failover \<Rightarrow> bool" where
  "is_local_primary fo \<longleftrightarrow> list_ex (\<lambda>r. reg_name r = fo_local fo \<and> reg_primary r) (fo_regions fo)"

datatype failover_error = NoHealthyRegions | ProxyFailed string

record proxy_response =
  px_status :: nat
  px_body :: bytes
  px_region :: string

text \<open>\<open>get\<close> sends the request: the status with what reading the body gives.\<close>

definition proxy_get :: "(string \<Rightarrow> string option \<Rightarrow> 'w \<Rightarrow> 'w \<times> (string, nat \<times> (string, bytes) result) result) \<Rightarrow>
    failover \<Rightarrow> string \<Rightarrow> string option \<Rightarrow> 'w \<Rightarrow> 'w \<times> (failover_error, proxy_response) result" where
  "proxy_get get fo p auth_header w = (case next_healthy_region fo of
     None \<Rightarrow> (w, Inl NoHealthyRegions)
   | Some region \<Rightarrow>
      (case get (reg_endpoint region @ p) auth_header w of
         (w', Inl e) \<Rightarrow> (w', Inl (ProxyFailed e))
       | (w', Inr (status, Inl e)) \<Rightarrow> (w', Inl (ProxyFailed e))
       | (w', Inr (status, Inr body)) \<Rightarrow>
           (w', Inr \<lparr>px_status = status, px_body = body, px_region = reg_name region\<rparr>)))"

definition failover_read :: "(string \<Rightarrow> string option \<Rightarrow> 'w \<Rightarrow> 'w \<times> (string, nat \<times> (string, bytes) result) result) \<Rightarrow>
    failover option \<Rightarrow> string \<Rightarrow> 'w \<Rightarrow> 'w \<times> bytes option" where
  "failover_read get failover p w = (case failover of
     None \<Rightarrow> (w, None)
   | Some fo \<Rightarrow>
      if is_local_primary fo then (w, None)
      else (case proxy_get get fo p None w of
        (w', Inr resp) \<Rightarrow> (w', if 200 \<le> px_status resp \<and> px_status resp < 300 then Some (px_body resp) else None)
      | (w', Inl _) \<Rightarrow> (w', None)))"

section \<open>Events\<close>

datatype replication_event_type = ManifestPush | BlobPush | ManifestDelete

record replication_event =
  rv_id :: string
  rv_type :: replication_event_type
  rv_tenant :: string
  rv_project :: string
  rv_repo :: string
  rv_reference :: string
  rv_digest :: string
  rv_size :: nat
  rv_timestamp :: int
  rv_source_region :: string

definition rv_manifest_push :: "string \<Rightarrow> int \<Rightarrow> string \<Rightarrow> string \<Rightarrow> string \<Rightarrow> string \<Rightarrow> string \<Rightarrow> nat \<Rightarrow> string \<Rightarrow>
    replication_event" where
  "rv_manifest_push uuid now tenant project repo reference digest len source_region =
    \<lparr>rv_id = uuid, rv_type = ManifestPush, rv_tenant = tenant, rv_project = project, rv_repo = repo,
     rv_reference = reference, rv_digest = digest, rv_size = len, rv_timestamp = now, rv_source_region = source_region\<rparr>"

definition rv_blob_push :: "string \<Rightarrow> int \<Rightarrow> string \<Rightarrow> string \<Rightarrow> string \<Rightarrow> string \<Rightarrow> nat \<Rightarrow> string \<Rightarrow> replication_event" where
  "rv_blob_push uuid now tenant project repo digest len source_region =
    \<lparr>rv_id = uuid, rv_type = BlobPush, rv_tenant = tenant, rv_project = project, rv_repo = repo,
     rv_reference = digest, rv_digest = digest, rv_size = len, rv_timestamp = now, rv_source_region = source_region\<rparr>"

definition rv_manifest_delete :: "string \<Rightarrow> int \<Rightarrow> string \<Rightarrow> string \<Rightarrow> string \<Rightarrow> string \<Rightarrow> string \<Rightarrow> string \<Rightarrow>
    replication_event" where
  "rv_manifest_delete uuid now tenant project repo reference digest source_region =
    \<lparr>rv_id = uuid, rv_type = ManifestDelete, rv_tenant = tenant, rv_project = project, rv_repo = repo,
     rv_reference = reference, rv_digest = digest, rv_size = 0, rv_timestamp = now, rv_source_region = source_region\<rparr>"

section \<open>The replicator\<close>

text \<open>
  \<open>rp_post url headers body\<close> posts and answers the status with the text of the body;
  \<open>rp_stamp\<close> formats a timestamp; \<open>rp_json\<close> serialises an event.
\<close>

record ('w, 'h, 'u) replication_env =
  rp_store :: "('w, 'h, 'u) store_ops"
  rp_post :: "string \<Rightarrow> (string \<times> string) list \<Rightarrow> bytes \<Rightarrow> 'w \<Rightarrow> 'w \<times> (string, nat \<times> string) result"
  rp_json :: "replication_event \<Rightarrow> bytes"
  rp_stamp :: "int \<Rightarrow> string"
  rp_os_text :: "os_error \<Rightarrow> string"
  rp_retry :: "'w retry_env"
  rp_clock :: "'w \<Rightarrow> nat"

definition storage_path :: "('w, 'h, 'u) replication_env \<Rightarrow> replication_event \<Rightarrow> string" where
  "storage_path E ev = ''_replication/events/'' @ rp_stamp E (rv_timestamp ev) @ ''-'' @ rv_id ev @ ''.json''"

datatype replication_error =
    RepStorage string
  | Network string
  | Serialization string
  | RemoteRejected nat string
  | RepBreakerOpen string

record remote_region =
  rem_config :: region_config
  rem_breaker :: breaker_state

definition replication_breaker :: breaker_config where
  "replication_breaker = \<lparr>failure_threshold = 3, success_threshold = 2, open_duration_secs = 30\<rparr>"

definition replication_retry :: retry_policy where
  "replication_retry = \<lparr>max_retries = 3, base_delay_ms = 500, max_delay_ms = 10000, jitter = True\<rparr>"

definition replicator_new :: "multi_region_config \<Rightarrow> remote_region list" where
  "replicator_new cfg = map (\<lambda>r. \<lparr>rem_config = r, rem_breaker = breaker_new\<rparr>)
     (filter (\<lambda>r. reg_name r \<noteq> mr_local cfg) (mr_regions cfg))"

definition persist_event :: "('w, 'h, 'u) replication_env \<Rightarrow> replication_event \<Rightarrow> 'w \<Rightarrow>
    'w \<times> (replication_error, unit) result" where
  "persist_event E ev w = (case os_put (rp_store E) (os_path (rp_store E) (storage_path E ev)) (rp_json E ev) w of
     (w', Inl e) \<Rightarrow> (w', Inl (RepStorage (rp_os_text E e))) | (w', Inr _) \<Rightarrow> (w', Inr ()))"

definition post_once :: "('w, 'h, 'u) replication_env \<Rightarrow> string \<Rightarrow> (string \<times> string) list \<Rightarrow> bytes \<Rightarrow> 'w \<Rightarrow>
    'w \<times> (replication_error, unit) result" where
  "post_once E url headers body w = (case rp_post E url headers body w of
     (w', Inl e) \<Rightarrow> (w', Inl (Network e))
   | (w', Inr (status, reply)) \<Rightarrow>
      (w', if 200 \<le> status \<and> status < 300 then Inr () else Inl (RemoteRejected status reply)))"

text \<open>\<open>circuit_breaker.call(|| retry_policy.execute(..))\<close> and the mapping of its error.\<close>

definition guarded_post :: "('w, 'h, 'u) replication_env \<Rightarrow> string \<Rightarrow> (string \<times> string) list \<Rightarrow> bytes \<Rightarrow>
    remote_region \<Rightarrow> 'w \<Rightarrow> (remote_region \<times> 'w) \<times> (replication_error, unit) result" where
  "guarded_post E url headers body rm w =
    (case breaker_call replication_breaker (rp_clock E)
        (execute_labeled (rp_retry E) replication_retry (post_once E url headers body)) (rem_breaker rm, w) of
      ((b, w'), r) \<Rightarrow> ((rm\<lparr>rem_breaker := b\<rparr>, w'),
        case r of Inr u \<Rightarrow> Inr u
        | Inl BreakerOpen \<Rightarrow> Inl (RepBreakerOpen (reg_name (rem_config rm)))
        | Inl (Inner e) \<Rightarrow> Inl e))"

definition read_local :: "('w, 'h, 'u) replication_env \<Rightarrow> string \<Rightarrow> 'w \<Rightarrow> 'w \<times> (replication_error, bytes) result" where
  "read_local E key w = (case os_get (rp_store E) (os_path (rp_store E) key) w of
     (w1, Inl e) \<Rightarrow> (w1, Inl (RepStorage (rp_os_text E e)))
   | (w1, Inr h) \<Rightarrow> (case os_bytes (rp_store E) h w1 of
       (w2, Inl e) \<Rightarrow> (w2, Inl (RepStorage (rp_os_text E e))) | (w2, Inr d) \<Rightarrow> (w2, Inr d)))"

definition replicate_manifest :: "('w, 'h, 'u) replication_env \<Rightarrow> replication_event \<Rightarrow> remote_region \<Rightarrow> 'w \<Rightarrow>
    (remote_region \<times> 'w) \<times> (replication_error, unit) result" where
  "replicate_manifest E ev rm w =
    (case read_local E (manifest_path (rv_tenant ev) (rv_project ev) (rv_repo ev) (rv_digest ev)) w of
       (w1, Inl e) \<Rightarrow> ((rm, w1), Inl e)
     | (w1, Inr data) \<Rightarrow> guarded_post E (reg_internal (rem_config rm) @ ''/internal/replicate/manifest'')
         [(''x-replication-event-id'', rv_id ev), (''x-replication-tenant'', rv_tenant ev),
          (''x-replication-project'', rv_project ev), (''x-replication-repo'', rv_repo ev),
          (''x-replication-reference'', rv_reference ev), (''x-replication-digest'', rv_digest ev),
          (''x-replication-source-region'', rv_source_region ev)] data rm w1)"

definition replicate_blob :: "('w, 'h, 'u) replication_env \<Rightarrow> replication_event \<Rightarrow> remote_region \<Rightarrow> 'w \<Rightarrow>
    (remote_region \<times> 'w) \<times> (replication_error, unit) result" where
  "replicate_blob E ev rm w =
    (case read_local E (blob_path (rv_tenant ev) (rv_project ev) (rv_repo ev) (rv_digest ev)) w of
       (w1, Inl e) \<Rightarrow> ((rm, w1), Inl e)
     | (w1, Inr data) \<Rightarrow> guarded_post E (reg_internal (rem_config rm) @ ''/internal/replicate/blob'')
         [(''x-replication-event-id'', rv_id ev), (''x-replication-tenant'', rv_tenant ev),
          (''x-replication-project'', rv_project ev), (''x-replication-repo'', rv_repo ev),
          (''x-replication-digest'', rv_digest ev), (''x-replication-source-region'', rv_source_region ev)] data rm w1)"

definition replicate_delete :: "('w, 'h, 'u) replication_env \<Rightarrow> replication_event \<Rightarrow> remote_region \<Rightarrow> 'w \<Rightarrow>
    (remote_region \<times> 'w) \<times> (replication_error, unit) result" where
  "replicate_delete E ev rm w =
    guarded_post E (reg_internal (rem_config rm) @ ''/internal/replicate/delete'')
      [(''content-type'', ''application/json'')] (rp_json E ev) rm w"

definition replicate_to_region :: "('w, 'h, 'u) replication_env \<Rightarrow> replication_event \<Rightarrow> remote_region \<Rightarrow> 'w \<Rightarrow>
    (remote_region \<times> 'w) \<times> (replication_error, unit) result" where
  "replicate_to_region E ev rm w = (case rv_type ev of
     ManifestPush \<Rightarrow> replicate_manifest E ev rm w
   | BlobPush \<Rightarrow> replicate_blob E ev rm w
   | ManifestDelete \<Rightarrow> replicate_delete E ev rm w)"

fun replicate_all :: "('w, 'h, 'u) replication_env \<Rightarrow> replication_event \<Rightarrow> remote_region list \<Rightarrow> 'w \<Rightarrow>
    remote_region list \<times> 'w" where
  "replicate_all E ev [] w = ([], w)"
| "replicate_all E ev (rm # rms) w =
    (case replicate_to_region E ev rm w of ((rm', w1), _) \<Rightarrow>
     (case replicate_all E ev rms w1 of (rms', w2) \<Rightarrow> (rm' # rms', w2)))"

text \<open>The loop over the channel: each event is persisted and then sent to every remote region.\<close>

fun replicator_run :: "('w, 'h, 'u) replication_env \<Rightarrow> replication_event list \<Rightarrow> remote_region list \<Rightarrow> 'w \<Rightarrow>
    remote_region list \<times> 'w" where
  "replicator_run E [] rms w = (rms, w)"
| "replicator_run E (ev # evs) rms w =
    (case replicate_all E ev rms (fst (persist_event E ev w)) of (rms', w') \<Rightarrow> replicator_run E evs rms' w')"

section \<open>Health\<close>

text \<open>The failed probes since the last success.\<close>

definition is_failed :: "probe \<Rightarrow> bool" where
  "is_failed p = (case p of Success _ \<Rightarrow> False | _ \<Rightarrow> True)"

definition failed_run :: "probe list \<Rightarrow> nat" where
  "failed_run ps = length (takeWhile is_failed (rev ps))"

lemma failed_run_snoc: "failed_run (ps @ [p]) = (if is_failed p then Suc (failed_run ps) else 0)"
  by (simp add: failed_run_def)

lemma probe_health_simps:
  "rh_failures (probe_health n p h) = (if is_failed p then Suc (rh_failures h) else 0)"
  "rh_healthy (probe_health n p h) = (if is_failed p then rh_healthy h \<and> Suc (rh_failures h) < n else True)"
  by (cases p; simp add: is_failed_def Let_def; auto)+

lemma health_after_probes:
  assumes "0 < n"
  shows "rh_failures (foldl (\<lambda>h p. probe_health n p h) (fresh_health now) ps) = failed_run ps \<and>
    (rh_healthy (foldl (\<lambda>h p. probe_health n p h) (fresh_health now) ps) \<longleftrightarrow> failed_run ps < n)"
  using assms
proof (induction ps rule: rev_induct)
  case Nil
  then show ?case by (simp add: fresh_health_def failed_run_def)
next
  case (snoc p ps)
  then show ?case by (auto simp: probe_health_simps failed_run_snoc)
qed

lemma failed_run_ge: "k \<le> failed_run ps \<longleftrightarrow> k \<le> length ps \<and> list_all is_failed (take k (rev ps))"
  unfolding failed_run_def
proof -
  have "k \<le> length (takeWhile P xs) \<longleftrightarrow> k \<le> length xs \<and> list_all P (take k xs)" for P and xs :: "probe list"
  proof (induction xs arbitrary: k)
    case (Cons x xs)
    then show ?case by (cases k) auto
  qed simp
  then show "k \<le> length (takeWhile is_failed (rev ps)) \<longleftrightarrow> k \<le> length ps \<and> list_all is_failed (take k (rev ps))"
    by (metis length_rev)
qed

text \<open>A region is unhealthy exactly while its last three probes have all failed: whatever
  probes it has met since it was configured, in whatever order.\<close>

theorem region_unhealthy_iff:
  "rh_healthy (foldl (\<lambda>h p. probe_health (fo_threshold (failover_new t l rs)) p h) (fresh_health t) ps) \<longleftrightarrow>
    \<not> (3 \<le> length ps \<and> list_all is_failed (take 3 (rev ps)))"
  using health_after_probes [of 3 t ps] failed_run_ge [of 3 ps] by (auto simp: failover_new_def)

section \<open>Choosing a region\<close>

lemma first_sort_key:
  assumes "sort_key f xs = z # zs"
  shows "z \<in> set xs \<and> (\<forall>y \<in> set xs. f z \<le> f y)"
proof -
  have set: "set xs = set (z # zs)"
    using assms by (metis set_sort)
  have "sorted (map f (z # zs))"
    using sorted_sort_key [of f xs] assms by simp
  then have "\<forall>y \<in> set (z # zs). f z \<le> f y"
    by auto
  then show ?thesis
    unfolding set by simp
qed

definition readable :: "failover \<Rightarrow> region_config \<Rightarrow> bool" where
  "readable fo r \<longleftrightarrow> r \<in> set (fo_regions fo) \<and> reg_name r \<noteq> fo_local fo \<and>
    (\<exists>h. fo_health fo (reg_name r) = Some h \<and> rh_healthy h)"

text \<open>Failover reads go to the healthy remote region of the best priority, and there is an
  answer whenever a healthy remote region exists.\<close>

theorem failover_choice:
  "(case next_healthy_region fo of
      None \<Rightarrow> \<forall>r. \<not> readable fo r
    | Some r \<Rightarrow> readable fo r \<and> (\<forall>r'. readable fo r' \<longrightarrow> reg_priority r \<le> reg_priority r'))"
proof -
  have cs: "r \<in> set (failover_candidates fo) \<longleftrightarrow> readable fo r" for r
    by (auto simp: failover_candidates_def readable_def split: option.splits)
  show ?thesis
  proof (cases "sort_key reg_priority (failover_candidates fo)")
    case Nil
    then have "set (failover_candidates fo) = {}"
      by (metis set_empty set_sort)
    with Nil show ?thesis
      using cs by (simp add: next_healthy_region_def)
  next
    case (Cons z zs)
    then show ?thesis
      using first_sort_key [OF Cons] cs by (simp add: next_healthy_region_def)
  qed
qed

section \<open>What an acknowledged replication means\<close>

lemma guarded_post_ok:
  assumes "guarded_post E url headers body rm w = ((rm', w'), Inr u)"
  obtains w1 status reply where "rp_post E url headers body w1 = (w', Inr (status, reply))" "200 \<le> status" "status < 300"
proof -
  let ?f = "post_once E url headers body"
  have run: "execute_labeled (rp_retry E) replication_retry ?f w = (w', Inr ())"
    using assms
    by (auto simp: guarded_post_def breaker_call_def call_classified_def Let_def
        split: prod.splits sum.splits call_error.splits if_splits)
  then obtain n where "?f (before_attempt (rp_retry E) replication_retry ?f 0 n w) = (w', Inr ())"
    using retry_loop_spec [of 0 replication_retry "rp_retry E" ?f w] by (auto simp: execute_labeled_def)
  then show thesis
    using that by (auto simp: post_once_def split: prod.splits sum.splits if_splits)
qed

context object_store
begin

lemma read_local_spec:
  assumes "read_local E key w = (w', Inr data)" "rp_store E = S"
  shows "view w (os_path S key) = Some data \<and> view w' = view w"
proof -
  obtain w1 h where "os_get S (os_path S key) w = (w1, Inr h)" "os_bytes S h w1 = (w', Inr data)"
    using assms by (auto simp: read_local_def split: prod.splits sum.splits)
  then show ?thesis
    using get_ok get_view bytes_ok bytes_view by metis
qed

end

text \<open>The headers that say where an object belongs.\<close>

definition addressed_to :: "replication_event \<Rightarrow> (string \<times> string) list \<Rightarrow> bool" where
  "addressed_to ev headers \<longleftrightarrow> map_of headers ''x-replication-tenant'' = Some (rv_tenant ev) \<and>
    map_of headers ''x-replication-project'' = Some (rv_project ev) \<and>
    map_of headers ''x-replication-repo'' = Some (rv_repo ev) \<and>
    map_of headers ''x-replication-digest'' = Some (rv_digest ev)"

lemma replicate_to_region_push:
  assumes "replicate_to_region E ev rm w = ((rm', w'), Inr u)" "rv_type ev \<noteq> ManifestDelete"
  obtains w1 data headers where
    "read_local E (if rv_type ev = ManifestPush then manifest_path (rv_tenant ev) (rv_project ev) (rv_repo ev) (rv_digest ev)
       else blob_path (rv_tenant ev) (rv_project ev) (rv_repo ev) (rv_digest ev)) w = (w1, Inr data)"
    "guarded_post E (reg_internal (rem_config rm) @ ''/internal/replicate/'' @
       (if rv_type ev = ManifestPush then ''manifest'' else ''blob'')) headers data rm w1 = ((rm', w'), Inr u)"
    "addressed_to ev headers" "rv_type ev = ManifestPush \<longrightarrow> map_of headers ''x-replication-reference'' = Some (rv_reference ev)"
proof (cases "rv_type ev")
  case ManifestPush
  let ?hs = "[(''x-replication-event-id'', rv_id ev), (''x-replication-tenant'', rv_tenant ev),
    (''x-replication-project'', rv_project ev), (''x-replication-repo'', rv_repo ev),
    (''x-replication-reference'', rv_reference ev), (''x-replication-digest'', rv_digest ev),
    (''x-replication-source-region'', rv_source_region ev)]"
  obtain w1 data where "read_local E (manifest_path (rv_tenant ev) (rv_project ev) (rv_repo ev) (rv_digest ev)) w = (w1, Inr data)"
    "guarded_post E (reg_internal (rem_config rm) @ ''/internal/replicate/manifest'') ?hs data rm w1 = ((rm', w'), Inr u)"
    using assms(1) ManifestPush by (auto simp: replicate_to_region_def replicate_manifest_def split: prod.splits sum.splits)
  then show thesis
    using ManifestPush by (intro that [of w1 data ?hs]) (simp_all add: addressed_to_def)
next
  case BlobPush
  let ?hs = "[(''x-replication-event-id'', rv_id ev), (''x-replication-tenant'', rv_tenant ev),
    (''x-replication-project'', rv_project ev), (''x-replication-repo'', rv_repo ev),
    (''x-replication-digest'', rv_digest ev), (''x-replication-source-region'', rv_source_region ev)]"
  obtain w1 data where "read_local E (blob_path (rv_tenant ev) (rv_project ev) (rv_repo ev) (rv_digest ev)) w = (w1, Inr data)"
    "guarded_post E (reg_internal (rem_config rm) @ ''/internal/replicate/blob'') ?hs data rm w1 = ((rm', w'), Inr u)"
    using assms(1) BlobPush by (auto simp: replicate_to_region_def replicate_blob_def split: prod.splits sum.splits)
  then show thesis
    using BlobPush by (intro that [of w1 data ?hs]) (simp_all add: addressed_to_def)
qed (use assms(2) in simp)

text \<open>C38. An acknowledged replication is a delivered object: an event succeeds for a region only if a
  request to the internal endpoint of that region was answered with a 2xx status. For a push it went
  to the route of its kind and carried exactly the bytes the local store holds under the
  event's digest and the event's tenant, project, repository and digest, for a manifest also its
  reference; for a delete it carried the serialised event. The store keeps the object store contract.\<close>

theorem replication_acknowledged:
  assumes "object_store (rp_store E) view content target parts"
    and "replicate_to_region E ev rm w = ((rm', w'), Inr u)"
  shows "\<exists>data headers w1 status reply.
    rp_post E (reg_internal (rem_config rm) @ ''/internal/replicate/'' @
        (case rv_type ev of ManifestPush \<Rightarrow> ''manifest'' | BlobPush \<Rightarrow> ''blob'' | ManifestDelete \<Rightarrow> ''delete''))
      headers data w1 = (w', Inr (status, reply)) \<and> 200 \<le> status \<and> status < 300 \<and>
    (case rv_type ev of
       ManifestPush \<Rightarrow> view w (os_path (rp_store E)
           (manifest_path (rv_tenant ev) (rv_project ev) (rv_repo ev) (rv_digest ev))) = Some data \<and>
         addressed_to ev headers \<and> map_of headers ''x-replication-reference'' = Some (rv_reference ev)
     | BlobPush \<Rightarrow> view w (os_path (rp_store E)
           (blob_path (rv_tenant ev) (rv_project ev) (rv_repo ev) (rv_digest ev))) = Some data \<and> addressed_to ev headers
     | ManifestDelete \<Rightarrow> data = rp_json E ev)"
proof (cases "rv_type ev = ManifestDelete")
  case True
  then have "guarded_post E (reg_internal (rem_config rm) @ ''/internal/replicate/delete'')
      [(''content-type'', ''application/json'')] (rp_json E ev) rm w = ((rm', w'), Inr u)"
    using assms(2) by (simp add: replicate_to_region_def replicate_delete_def)
  then show ?thesis
    by (rule guarded_post_ok) (use True in auto)
next
  case False
  obtain w1 data headers where push:
    "read_local E (if rv_type ev = ManifestPush then manifest_path (rv_tenant ev) (rv_project ev) (rv_repo ev) (rv_digest ev)
       else blob_path (rv_tenant ev) (rv_project ev) (rv_repo ev) (rv_digest ev)) w = (w1, Inr data)"
    "guarded_post E (reg_internal (rem_config rm) @ ''/internal/replicate/'' @
       (if rv_type ev = ManifestPush then ''manifest'' else ''blob'')) headers data rm w1 = ((rm', w'), Inr u)"
    "addressed_to ev headers" "rv_type ev = ManifestPush \<longrightarrow> map_of headers ''x-replication-reference'' = Some (rv_reference ev)"
    by (rule replicate_to_region_push [OF assms(2) False])
  obtain w2 status reply where post: "rp_post E (reg_internal (rem_config rm) @ ''/internal/replicate/'' @
       (if rv_type ev = ManifestPush then ''manifest'' else ''blob'')) headers data w2 = (w', Inr (status, reply))"
    "200 \<le> status" "status < 300"
    by (rule guarded_post_ok [OF push(2)])
  show ?thesis
    using object_store.read_local_spec [OF assms(1) push(1) refl] post push(3,4) False
    by (intro exI [of _ data] exI [of _ headers] exI [of _ w2] exI [of _ status] exI [of _ reply])
      (cases "rv_type ev"; simp)
qed

section \<open>Concrete regions\<close>

definition demo_region :: "string \<Rightarrow> bool \<Rightarrow> nat \<Rightarrow> region_config" where
  "demo_region n primary prio = \<lparr>reg_name = n, reg_endpoint = n, reg_internal = n, reg_primary = primary, reg_priority = prio\<rparr>"

definition demo_failover :: failover where
  "demo_failover = failover_new 0 ''a'' [demo_region ''a'' False 0, demo_region ''b'' True 2, demo_region ''c'' False 1]"

theorem failover_choice_witness:
  "next_healthy_region demo_failover = Some (demo_region ''c'' False 1) \<and>
   reg_priority (demo_region ''c'' False 1) \<le> reg_priority (demo_region ''b'' True 2)"
proof -
  have c: "next_healthy_region demo_failover = Some (demo_region ''c'' False 1)"
    by code_simp
  have "readable demo_failover (demo_region ''b'' True 2)"
    by (simp add: readable_def demo_failover_def failover_new_def demo_region_def fresh_health_def)
  then show ?thesis
    using failover_choice [of demo_failover] c by simp
qed

definition demo_replication :: "(mem_world, bytes, nat \<times> path) replication_env" where
  "demo_replication = \<lparr>rp_store = mem_store, rp_post = (\<lambda>_ _ _ w. (w, Inr (200, []))), rp_json = (\<lambda>_. []),
     rp_stamp = (\<lambda>_. []), rp_os_text = (\<lambda>_. []), rp_retry = \<lparr>sleep = (\<lambda>_ w. w), random_range = (\<lambda>n w. (w, n))\<rparr>,
     rp_clock = op_count\<rparr>"

definition demo_push_event :: replication_event where
  "demo_push_event = rv_manifest_push ''id'' 0 ''t'' ''p'' ''r'' ''v1'' ''sha256:aa'' 1 ''a''"

definition demo_remote :: remote_region where
  "demo_remote = \<lparr>rem_config = demo_region ''b'' False 0, rem_breaker = breaker_new\<rparr>"

theorem replication_acknowledged_witness:
  "\<exists>data w1 headers status reply w'.
    mem_view (mem_init [(''t/p/r/manifests/sha256:aa'', ''m'')] []) ''t/p/r/manifests/sha256:aa'' = Some data \<and>
    rp_post demo_replication ''b/internal/replicate/manifest'' headers data w1 = (w', Inr (status, reply)) \<and>
    map_of headers ''x-replication-digest'' = Some ''sha256:aa''"
proof -
  let ?w = "mem_init [(''t/p/r/manifests/sha256:aa'', ''m'')] []"
  have env: "rp_store demo_replication = mem_store"
    by (simp add: demo_replication_def)
  have "snd (replicate_to_region demo_replication demo_push_event demo_remote ?w) = Inr ()"
    by (simp add: replicate_to_region_def demo_push_event_def rv_manifest_push_def replicate_manifest_def read_local_def
        demo_replication_def mem_store_def mem_io_def mem_get_def next_fault_def mem_init_def manifest_path_def
        guarded_post_def demo_remote_def breaker_call_def call_classified_def rejects_def breaker_new_def
        execute_labeled_def retry_loop.simps post_once_def)
  then obtain rm' w' where run: "replicate_to_region demo_replication demo_push_event demo_remote ?w = ((rm', w'), Inr ())"
    by (metis prod.collapse)
  have store: "object_store (rp_store demo_replication) mem_view (\<lambda>h. h) snd mem_parts"
    by (simp add: env mem.object_store_axioms)
  have ev: "rv_type demo_push_event = ManifestPush" "rv_tenant demo_push_event = ''t''" "rv_project demo_push_event = ''p''"
    "rv_repo demo_push_event = ''r''" "rv_digest demo_push_event = ''sha256:aa''" "reg_internal (rem_config demo_remote) = ''b''"
    by (simp_all add: demo_push_event_def rv_manifest_push_def demo_remote_def demo_region_def)
  have path: "os_path mem_store ''t/p/r/manifests/sha256:aa'' = ''t/p/r/manifests/sha256:aa''"
    by (simp add: mem_store_def)
  obtain data headers w1 status reply where
    "rp_post demo_replication ''b/internal/replicate/manifest'' headers data w1 = (w', Inr (status, reply))"
    "mem_view ?w ''t/p/r/manifests/sha256:aa'' = Some data" "addressed_to demo_push_event headers"
    using replication_acknowledged [OF store run] by (auto simp: env ev manifest_path_def path)
  then show ?thesis
    unfolding addressed_to_def ev(5) by blast
qed

end
