(* ===== verification/Multipart.thy ===== *)
theory Multipart
  imports Object_Store
begin

text \<open>
  \<open>specton-resilience/src/multipart.rs\<close>: writing an object in one request or, above a
  threshold, as a multipart upload. \<open>usize\<close> has 64 bits. The futures of the parts
  complete in an order the runtime chooses; \<open>sched\<close> is that order, by part number.
\<close>

definition DEFAULT_MULTIPART_THRESHOLD :: nat where
  "DEFAULT_MULTIPART_THRESHOLD = 64 * 1024 * 1024"

definition DEFAULT_PART_SIZE :: nat where
  "DEFAULT_PART_SIZE = 32 * 1024 * 1024"

definition DEFAULT_PART_CONCURRENCY :: nat where
  "DEFAULT_PART_CONCURRENCY = 4"

definition MIN_PART_SIZE :: nat where
  "MIN_PART_SIZE = 5 * 1024 * 1024"

definition MAX_PARTS :: nat where
  "MAX_PARTS = 10000"

record chunked_put_config =
  threshold :: nat
  part_size :: nat
  concurrency :: nat

definition default_chunked_put_config :: chunked_put_config where
  "default_chunked_put_config = \<lparr>threshold = DEFAULT_MULTIPART_THRESHOLD,
     part_size = DEFAULT_PART_SIZE, concurrency = DEFAULT_PART_CONCURRENCY\<rparr>"

definition div_ceil :: "nat \<Rightarrow> nat \<Rightarrow> nat" where
  "div_ceil a b = (if a mod b = 0 then a div b else a div b + 1)"

definition sanitized_part_size :: "chunked_put_config \<Rightarrow> nat \<Rightarrow> nat" where
  "sanitized_part_size cfg len =
    (let ps = max (part_size cfg) MIN_PART_SIZE in
     if div_ceil len ps > MAX_PARTS then div_ceil len MAX_PARTS else ps)"

definition sanitized :: "chunked_put_config \<Rightarrow> nat \<Rightarrow> chunked_put_config" where
  "sanitized cfg len =
    (let ps = sanitized_part_size cfg len in
     \<lparr>threshold = max (threshold cfg) ps, part_size = ps,
      concurrency = max 1 (min (concurrency cfg) 16)\<rparr>)"

text \<open>
  The loop that cuts the payload. The sum wraps like \<open>usize\<close>; \<open>None\<close> is a slice whose
  end lies before its start, which panics, or a loop that does not advance.
\<close>

function split_parts :: "nat \<Rightarrow> bytes \<Rightarrow> nat \<Rightarrow> bytes list option" where
  "split_parts psz data offset =
    (if offset < length data then
       (let e = min ((offset + psz) mod 2 ^ 64) (length data) in
        if e \<le> offset then None
        else map_option ((#) (take (e - offset) (drop offset data))) (split_parts psz data e))
     else Some [])"
  by pat_completeness auto
termination
  by (relation "measure (\<lambda>(psz, data, offset). length data - offset)") (auto simp: Let_def)

declare split_parts.simps [simp del]

text \<open>Driving the part uploads: all of them run, and the first error in completion
  order is the outcome.\<close>

fun drive_parts ::
  "('w, 'h, 'u) store_ops \<Rightarrow> 'u \<Rightarrow> bytes list \<Rightarrow> nat list \<Rightarrow> ('w, unit) io" where
  "drive_parts S up ps [] w = (w, Inr ())"
| "drive_parts S up ps (i # is) w =
    (let (w1, r) = os_put_part S up i (ps ! i) w;
         (w2, rest) = drive_parts S up ps is w1 in
     (w2, case r of Inl e \<Rightarrow> Inl e | Inr _ \<Rightarrow> rest))"

definition abort_quietly :: "('w, 'h, 'u) store_ops \<Rightarrow> 'u \<Rightarrow> 'w \<Rightarrow> 'w" where
  "abort_quietly S up w = fst (os_abort S up w)"

definition upload_parts ::
  "('w, 'h, 'u) store_ops \<Rightarrow> (nat \<Rightarrow> nat list) \<Rightarrow> path \<Rightarrow> bytes list \<Rightarrow> ('w, unit) io" where
  "upload_parts S sched location ps w =
    (case os_multipart S location w of
       (w1, Inl e) \<Rightarrow> (w1, Inl e)
     | (w1, Inr up) \<Rightarrow>
         (case drive_parts S up ps (sched (length ps)) w1 of
            (w2, Inl e) \<Rightarrow> (abort_quietly S up w2, Inl e)
          | (w2, Inr _) \<Rightarrow>
              (case os_complete S up w2 of
                 (w3, Inr _) \<Rightarrow> (w3, Inr ())
               | (w3, Inl e) \<Rightarrow> (abort_quietly S up w3, Inl e))))"

text \<open>The outer \<open>option\<close> is the panic of \<open>split_parts\<close>.\<close>

definition put_chunked ::
  "('w, 'h, 'u) store_ops \<Rightarrow> (nat \<Rightarrow> nat list) \<Rightarrow> path \<Rightarrow> bytes \<Rightarrow> chunked_put_config \<Rightarrow>
   'w \<Rightarrow> ('w \<times> (os_error, unit) result) option" where
  "put_chunked S sched location data cfg0 w =
    (let len = length data; cfg = sanitized cfg0 len in
     if len \<le> threshold cfg then Some (os_put S location data w)
     else case split_parts (part_size cfg) data 0 of
       None \<Rightarrow> None
     | Some ps \<Rightarrow> Some (upload_parts S sched location ps w))"

section \<open>Cutting the payload\<close>

lemma div_ceil_bound: "0 < b \<Longrightarrow> a \<le> div_ceil a b * b"
proof -
  assume "0 < b"
  then have "a mod b < b" by simp
  then have "a \<le> a div b * b + b"
    using div_mult_mod_eq [of a b] by linarith
  then show ?thesis
    using div_mult_mod_eq [of a b] by (auto simp: div_ceil_def)
qed

lemma div_ceil_le_iff: "0 < b \<Longrightarrow> div_ceil a b \<le> n \<longleftrightarrow> a \<le> n * b"
proof
  assume b: "0 < b" and le: "div_ceil a b \<le> n"
  have "a \<le> div_ceil a b * b" by (rule div_ceil_bound [OF b])
  also have "\<dots> \<le> n * b" using le by simp
  finally show "a \<le> n * b" .
next
  assume b: "0 < b" and le: "a \<le> n * b"
  then have "a div b \<le> n" by (metis div_le_mono nonzero_mult_div_cancel_right not_gr_zero)
  moreover have "a div b \<noteq> n" if "a mod b \<noteq> 0"
    using that le b by (metis add_le_same_cancel1 div_mult_mod_eq le_zero_eq)
  ultimately show "div_ceil a b \<le> n" by (auto simp: div_ceil_def)
qed

lemma sanitized_part_size_bounds:
  "MIN_PART_SIZE \<le> sanitized_part_size cfg len"
  "len \<le> MAX_PARTS * sanitized_part_size cfg len"
proof -
  let ?ps = "max (part_size cfg) MIN_PART_SIZE"
  have pos: "0 < ?ps" by (simp add: MIN_PART_SIZE_def)
  have raise: "?ps \<le> div_ceil len MAX_PARTS" if "div_ceil len ?ps > MAX_PARTS"
  proof (rule ccontr)
    assume "\<not> ?ps \<le> div_ceil len MAX_PARTS"
    then have "div_ceil len MAX_PARTS \<le> ?ps" by linarith
    then have "len \<le> ?ps * MAX_PARTS"
      by (simp add: div_ceil_le_iff MAX_PARTS_def)
    then have "div_ceil len ?ps \<le> MAX_PARTS"
      using pos by (simp add: div_ceil_le_iff mult.commute)
    with that show False by simp
  qed
  then show "MIN_PART_SIZE \<le> sanitized_part_size cfg len"
    by (auto simp: sanitized_part_size_def Let_def)
  show "len \<le> MAX_PARTS * sanitized_part_size cfg len"
  proof (cases "div_ceil len ?ps > MAX_PARTS")
    case True
    then show ?thesis
      using div_ceil_bound [of MAX_PARTS len]
      by (simp add: sanitized_part_size_def Let_def mult.commute MAX_PARTS_def)
  next
    case False
    then show ?thesis
      using div_ceil_le_iff [OF pos, of len MAX_PARTS]
      by (simp add: sanitized_part_size_def Let_def not_less)
  qed
qed

lemma split_parts_end: "split_parts psz data (length data) = Some []"
  by (simp add: split_parts.simps [of psz data "length data"])

lemma split_parts_ok:
  assumes "0 < psz" "length data + psz < 2 ^ 64" "offset \<le> length data"
  shows "\<exists>ps. split_parts psz data offset = Some ps \<and> concat ps = drop offset data \<and>
    length ps = div_ceil (length data - offset) psz \<and>
    (\<forall>p \<in> set (butlast ps). length p = psz) \<and> (\<forall>p \<in> set ps. p \<noteq> [] \<and> length p \<le> psz)"
  using assms
proof (induction "length data - offset" arbitrary: offset rule: less_induct)
  case less
  show ?case
  proof (cases "offset < length data")
    case False
    then show ?thesis
      using less.prems by (simp add: split_parts_end div_ceil_def)
  next
    case True
    define e where "e = min (offset + psz) (length data)"
    have wrap: "(offset + psz) mod 2 ^ 64 = offset + psz"
      using less.prems True by simp
    have e: "offset < e" "e \<le> length data" "e - offset \<le> psz"
      using True less.prems by (auto simp: e_def)
    obtain ps where ps: "split_parts psz data e = Some ps" "concat ps = drop e data"
      "length ps = div_ceil (length data - e) psz"
      "\<forall>p \<in> set (butlast ps). length p = psz" "\<forall>p \<in> set ps. p \<noteq> [] \<and> length p \<le> psz"
      using less.hyps [of e] e less.prems by (metis diff_less_mono2 less_le_trans)
    define p where "p = take (e - offset) (drop offset data)"
    have p: "length p = e - offset" "p \<noteq> []"
      using e by (auto simp: p_def)
    have step: "split_parts psz data offset = Some (p # ps)"
      using True ps(1) e(1)
      by (subst split_parts.simps) (simp only: wrap Let_def e_def [symmetric] p_def [symmetric], simp)
    have cat: "concat (p # ps) = drop offset data"
      using e by (simp add: p_def ps(2)) (metis append_take_drop_id drop_drop le_add_diff_inverse2 less_imp_le)
    show ?thesis
    proof (cases "offset + psz \<le> length data")
      case fits: True
      then have e': "e = offset + psz" and len: "length data - offset = (length data - e) + psz"
        by (simp_all add: e_def)
      have "div_ceil (n + psz) psz = Suc (div_ceil n psz)" for n
        using less.prems(1) by (simp add: div_ceil_def div_add_self2)
      then have "div_ceil (length data - offset) psz = Suc (length ps)"
        by (simp only: len ps(3))
      moreover have "length p = psz"
        using p(1) e' by simp
      ultimately show ?thesis
        using step cat ps(4,5) p e by auto
    next
      case short: False
      then have "e = length data" by (simp add: e_def)
      then have "ps = []"
        using ps(1) by (simp add: split_parts_end)
      moreover have "div_ceil (length data - offset) psz = 1"
        using short True less.prems(1) by (simp add: div_ceil_def)
      ultimately show ?thesis
        using step cat p e by auto
    qed
  qed
qed

section \<open>Writing through the store\<close>

context object_store
begin

lemma drive_parts_view: "drive_parts S up ps is w = (w', r) \<Longrightarrow> view w' = view w"
proof (induction "is" arbitrary: w r)
  case (Cons i "is")
  then show ?case
    by (auto split: prod.splits dest: part_view)
qed simp

lemma drive_parts_ok:
  "drive_parts S up ps is w = (w', Inr u) \<Longrightarrow>
    parts w' up = (\<lambda>i. if i \<in> set is then Some (ps ! i) else parts w up i)"
proof (induction "is" arbitrary: w)
  case (Cons i "is")
  obtain w1 r where first: "os_put_part S up i (ps ! i) w = (w1, r)"
    by force
  obtain w2 rest where drive: "drive_parts S up ps is w1 = (w2, rest)"
    by force
  from Cons.prems first drive obtain v v' where ok: "r = Inr v" "rest = Inr v'" "w2 = w'"
    by (auto split: sum.splits)
  have "parts w1 up = (parts w up)(i \<mapsto> ps ! i)"
    using part_ok first ok by simp
  moreover have "parts w' up = (\<lambda>i. if i \<in> set is then Some (ps ! i) else parts w1 up i)"
    using Cons.IH [of w1] drive ok by simp
  ultimately show ?case by auto
qed simp

lemma abort_quietly_view: "view (abort_quietly S up w) = view w"
  using abort_view by (metis abort_quietly_def prod.collapse)

lemma upload_parts_spec:
  assumes "set (sched (length ps)) = {..<length ps}" "upload_parts S sched p ps w = (w', r)"
  shows "r = Inr u \<Longrightarrow> view w' = (view w)(p \<mapsto> concat ps)"
    and "r = Inl e \<Longrightarrow> maybe_put p (concat ps) (view w) (view w')"
proof -
  obtain w1 r1 where start: "os_multipart S p w = (w1, r1)"
    by force
  have v1: "view w1 = view w"
    by (rule multipart_view [OF start])
  have "(r = Inr u \<longrightarrow> view w' = (view w)(p \<mapsto> concat ps)) \<and>
      (r = Inl e \<longrightarrow> maybe_put p (concat ps) (view w) (view w'))"
  proof (cases r1)
    case (Inl e')
    then show ?thesis
      using assms(2) start v1 by (auto simp: upload_parts_def maybe_put_def)
  next
    case (Inr up)
    note up = multipart_ok [OF start [unfolded Inr]]
    obtain w2 r2 where drive: "drive_parts S up ps (sched (length ps)) w1 = (w2, r2)"
      by force
    have v2: "view w2 = view w"
      using drive_parts_view [OF drive] v1 by simp
    show ?thesis
    proof (cases r2)
      case (Inl e')
      then show ?thesis
        using assms(2) start Inr drive v2
        by (auto simp: upload_parts_def maybe_put_def abort_quietly_view)
    next
      case ok: (Inr u')
      obtain w3 r3 where fin: "os_complete S up w2 = (w3, r3)"
        by force
      have parts: "parts w2 up = (\<lambda>i. if i < length ps then Some (ps ! i) else None)"
        by (simp only: drive_parts_ok [OF drive [unfolded ok]] conjunct2 [OF up] assms(1) lessThan_iff)
      show ?thesis
      proof (cases r3)
        case (Inl e')
        then show ?thesis
          using assms(2) start Inr drive ok fin complete_err [OF fin [unfolded Inl] parts] up v2
          by (auto simp: upload_parts_def abort_quietly_view)
      next
        case (Inr u'')
        then show ?thesis
          using assms(2) start \<open>r1 = Inr up\<close> drive ok fin complete_ok [OF fin [unfolded Inr] parts] up v2
          by (auto simp: upload_parts_def)
      qed
    qed
  qed
  then show "r = Inr u \<Longrightarrow> view w' = (view w)(p \<mapsto> concat ps)"
    and "r = Inl e \<Longrightarrow> maybe_put p (concat ps) (view w) (view w')"
    by blast+
qed

end

lemma multipart_cut:
  assumes "length data < 2 ^ 63" "threshold (sanitized cfg (length data)) < length data"
  shows "\<exists>ps. split_parts (part_size (sanitized cfg (length data))) data 0 = Some ps \<and>
    concat ps = data \<and> length ps \<le> MAX_PARTS \<and>
    (\<forall>p \<in> set (butlast ps). length p = part_size (sanitized cfg (length data))) \<and>
    (\<forall>p \<in> set ps. p \<noteq> [] \<and> length p \<le> part_size (sanitized cfg (length data)))"
proof -
  let ?ps = "part_size (sanitized cfg (length data))"
  note bounds = sanitized_part_size_bounds [where cfg = cfg and len = "length data"]
  have psz: "?ps = sanitized_part_size cfg (length data)"
    by (simp add: sanitized_def Let_def)
  have pos: "0 < ?ps"
    using bounds(1) by (simp add: psz MIN_PART_SIZE_def)
  have "?ps < length data"
    using assms(2) by (simp add: sanitized_def Let_def)
  then have "length data + ?ps < 2 ^ 64"
    using assms(1) by simp
  from split_parts_ok [OF pos this, of 0] obtain ps where ps:
    "split_parts ?ps data 0 = Some ps" "concat ps = data" "length ps = div_ceil (length data) ?ps"
    "\<forall>p \<in> set (butlast ps). length p = ?ps" "\<forall>p \<in> set ps. p \<noteq> [] \<and> length p \<le> ?ps"
    by auto
  moreover have "length ps \<le> MAX_PARTS"
    using bounds(2) pos by (simp add: ps(3) div_ceil_le_iff psz)
  ultimately show ?thesis by blast
qed

lemma put_chunked_spec:
  assumes "object_store S view content target parts"
    and "\<And>n. set (sched n) = {..<n}" "length data < 2 ^ 63"
  shows "\<exists>w' r. put_chunked S sched p data cfg w = Some (w', r) \<and>
    (r = Inr () \<longrightarrow> view w' = (view w)(p \<mapsto> data)) \<and>
    (\<forall>e. r = Inl e \<longrightarrow> view w' = view w \<or> view w' = (view w)(p \<mapsto> data))"
proof (cases "length data \<le> threshold (sanitized cfg (length data))")
  case True
  obtain w' r where put: "os_put S p data w = (w', r)"
    by force
  with True have "put_chunked S sched p data cfg w = Some (w', r)"
    by (simp add: put_chunked_def Let_def)
  then show ?thesis
    using object_store.put_ok [OF assms(1), of p data w w'] put
      object_store.put_err [OF assms(1), of p data w w']
    by (auto simp: maybe_put_def)
next
  case False
  then obtain ps where ps: "split_parts (part_size (sanitized cfg (length data))) data 0 = Some ps"
    "concat ps = data"
    using multipart_cut [OF assms(3), of cfg] by auto
  obtain w' r where up: "upload_parts S sched p ps w = (w', r)"
    by force
  with False ps have "put_chunked S sched p data cfg w = Some (w', r)"
    by (simp add: put_chunked_def Let_def)
  then show ?thesis
    using object_store.upload_parts_spec [OF assms(1,2) up] ps(2)
    by (auto simp: maybe_put_def)
qed

section \<open>Properties\<close>

text \<open>
  C35. Whatever sizes the operator configures, a payload that goes out as a multipart
  upload is cut without overflow into consecutive non-empty parts that make up the
  payload: at most 10,000 of them, all but the last of the configured part size, which is
  at least 5 MiB, and the last no larger. The payload is shorter than \<open>2 ^ 63\<close> bytes and
  longer than the threshold above which uploads are cut.
\<close>

theorem multipart_split:
  assumes "length data < 2 ^ 63" "threshold (sanitized cfg (length data)) < length data"
  shows "\<exists>ps. split_parts (part_size (sanitized cfg (length data))) data 0 = Some ps \<and>
    concat ps = data \<and> length ps \<le> 10000 \<and>
    (\<forall>p \<in> set ps. p \<noteq> [] \<and> length p \<le> part_size (sanitized cfg (length data))) \<and>
    (\<forall>p \<in> set (butlast ps). length p = part_size (sanitized cfg (length data)) \<and>
      5 * 1024 * 1024 \<le> length p)"
proof -
  have min: "5 * 1024 * 1024 \<le> part_size (sanitized cfg (length data))"
    using sanitized_part_size_bounds(1) [of cfg "length data"]
    by (simp add: sanitized_def Let_def MIN_PART_SIZE_def)
  from multipart_cut [OF assms] obtain ps where
    "split_parts (part_size (sanitized cfg (length data))) data 0 = Some ps"
    "concat ps = data" "length ps \<le> MAX_PARTS"
    "\<forall>p \<in> set (butlast ps). length p = part_size (sanitized cfg (length data))"
    "\<forall>p \<in> set ps. p \<noteq> [] \<and> length p \<le> part_size (sanitized cfg (length data))"
    by blast
  with min show ?thesis
    by (intro exI [of _ ps]) (simp add: MAX_PARTS_def)
qed

theorem multipart_split_witness:
  "\<exists>ps. split_parts (part_size (sanitized default_chunked_put_config (70 * 1024 * 1024)))
      (replicate (70 * 1024 * 1024) CHR ''x'') 0 = Some ps \<and>
    concat ps = replicate (70 * 1024 * 1024) CHR ''x''"
proof -
  have "threshold (sanitized default_chunked_put_config (70 * 1024 * 1024)) = 64 * 1024 * 1024"
    by (simp add: sanitized_def sanitized_part_size_def default_chunked_put_config_def
        DEFAULT_MULTIPART_THRESHOLD_def DEFAULT_PART_SIZE_def MIN_PART_SIZE_def MAX_PARTS_def
        div_ceil_def)
  then show ?thesis
    using multipart_split [of "replicate (70 * 1024 * 1024) CHR ''x''" default_chunked_put_config]
    by auto
qed

text \<open>
  C34. \<open>put_chunked\<close> always returns, and for every store that keeps the contract and
  every order in which the part uploads complete it writes all or nothing: on success
  exactly the payload is at the path and no other object changed; on an error the
  objects are as before or as after the whole write.
\<close>

theorem put_chunked_atomic:
  assumes "object_store S view content target parts"
    and "\<And>n. set (sched n) = {..<n}" "length data < 2 ^ 63"
  shows "\<exists>w' r. put_chunked S sched p data cfg w = Some (w', r) \<and>
    (r = Inr () \<longrightarrow> view w' = (view w)(p \<mapsto> data)) \<and>
    (\<forall>e. r = Inl e \<longrightarrow> view w' = view w \<or> view w' = (view w)(p \<mapsto> data))"
  using put_chunked_spec [OF assms] .

theorem put_chunked_atomic_witness:
  "\<exists>w'. put_chunked mem_store (\<lambda>n. rev [0..<n]) ''k'' ''abc'' default_chunked_put_config
      (mem_init [] []) = Some (w', Inr ()) \<and> mem_view w' = [''k'' \<mapsto> ''abc'']"
proof -
  have sched: "set (rev [0..<n]) = {..<n}" for n
    by auto
  have run: "\<exists>w'. put_chunked mem_store (\<lambda>n. rev [0..<n]) ''k'' ''abc'' default_chunked_put_config
      (mem_init [] []) = Some (w', Inr ())"
    by (simp add: put_chunked_def sanitized_def default_chunked_put_config_def le_max_iff_disj
        DEFAULT_MULTIPART_THRESHOLD_def mem_store_def mem_io_def next_fault_def mem_init_def Let_def)
  then show ?thesis
    using put_chunked_atomic [OF mem.object_store_axioms sched, of "''abc''" "''k''"
        default_chunked_put_config "mem_init [] []"]
    by (auto simp: mem_view_def mem_init_def)
qed

end
