(* ===== verification/Ephemeral.thy ===== *)
theory Ephemeral
  imports Common Utf8
begin

text \<open>
  Tags that expire (\<open>specton-ephemeral\<close>): the \<open>X-SpectonCR-TTL\<close> header (\<open>ttl.rs\<close>), the
  \<open>tags\<close> table of \<open>0008_ephemeral.sql\<close>, and the reaper that removes expired tags
  (\<open>reaper.rs\<close>). Instants count nanoseconds. \<open>chrono\<close> is a parameter: its RFC 3339 parser and
  its last representable instant; a duration of more than \<open>i64::MAX\<close> milliseconds or a sum
  beyond that instant panics, as its documentation says.
\<close>

section \<open>The header\<close>

datatype ttl_error = Empty | Invalid string

record chrono =
  ch_parse_rfc3339 :: "string \<Rightarrow> int option"
  ch_show_rfc3339 :: "int \<Rightarrow> string"
  ch_max_utc :: int

definition unit_secs :: "string \<Rightarrow> int option" where
  "unit_secs suffix =
    (if suffix = ''s'' then Some 1 else if suffix = ''m'' then Some 60 else if suffix = ''h'' then Some 3600
     else if suffix = ''d'' then Some 86400 else if suffix = ''w'' then Some 604800 else None)"

text \<open>\<open>now + Duration::seconds(n)\<close> and its siblings; \<open>None\<close> is a panic.\<close>

definition add_secs :: "chrono \<Rightarrow> int \<Rightarrow> int \<Rightarrow> int option" where
  "add_secs K now secs =
    (if secs > (2 ^ 63 - 1) div 1000 \<or> secs < - ((2 ^ 63 - 1) div 1000) then None
     else if now + secs * 10 ^ 9 > ch_max_utc K then None else Some (now + secs * 10 ^ 9))"

definition parse_ttl_header :: "chrono \<Rightarrow> int \<Rightarrow> string \<Rightarrow> (ttl_error, int) result option" where
  "parse_ttl_header K now raw0 =
    (let raw = trim raw0 in
     if raw = [] then Some (Inl Empty)
     else case ch_parse_rfc3339 K raw of
       Some dt \<Rightarrow> Some (Inr dt)
     | None \<Rightarrow>
        (let num_part = takeWhile (\<lambda>c. is_ascii_digit c \<or> c = CHR ''-'') raw;
             suffix = drop (length num_part) raw in
         if suffix = [] then Some (Inl (Invalid raw))
         else case parse_i64 num_part of
           None \<Rightarrow> Some (Inl (Invalid raw))
         | Some n \<Rightarrow>
            if n < 0 then Some (Inl (Invalid (''negative TTL: '' @ raw)))
            else (case unit_secs suffix of
              None \<Rightarrow> Some (Inl (Invalid (''unknown unit: '' @ suffix)))
            | Some u \<Rightarrow> map_option Inr (add_secs K now (n * u)))))"

definition cap_ttl :: "chrono \<Rightarrow> int \<Rightarrow> int \<Rightarrow> int \<Rightarrow> (int \<times> bool) option" where
  "cap_ttl K expires_at now max_secs = (case add_secs K now max_secs of
     None \<Rightarrow> None
   | Some mx \<Rightarrow> Some (if expires_at > mx then (mx, True) else (expires_at, False)))"

section \<open>The tables\<close>

record tag_row =
  tg_tenant :: string
  tg_project :: string
  tg_repository :: string
  tg_tag :: string
  tg_digest :: string
  tg_pushed_by :: "string option"
  tg_expires_at :: "int option"

type_synonym tag_key = "string \<times> string \<times> string \<times> string"

definition tag_key :: "tag_row \<Rightarrow> tag_key" where
  "tag_key r = (tg_tenant r, tg_project r, tg_repository r, tg_tag r)"

record ttl_db =
  tags_table :: "tag_row list"
  ttl_reaps :: "tag_key list"

text \<open>\<open>INSERT ... ON CONFLICT (tenant, project, repository, tag) DO UPDATE SET digest, expires_at\<close>.\<close>

definition upsert_tag :: "tag_row \<Rightarrow> ttl_db \<Rightarrow> ttl_db" where
  "upsert_tag r db =
    (if tag_key r \<in> tag_key ` set (tags_table db)
     then db\<lparr>tags_table := map (\<lambda>x. if tag_key x = tag_key r
         then x\<lparr>tg_digest := tg_digest r, tg_expires_at := tg_expires_at r\<rparr> else x) (tags_table db)\<rparr>
     else db\<lparr>tags_table := tags_table db @ [r]\<rparr>)"

definition find_tag :: "tag_key \<Rightarrow> ttl_db \<Rightarrow> tag_row option" where
  "find_tag k db = find (\<lambda>r. tag_key r = k) (tags_table db)"

section \<open>The reaper\<close>

datatype ttl_reaper_error = TtlSqlx

record ttl_control =
  ttl_paused :: bool
  ttl_stop :: bool

definition ttl_control_new :: ttl_control where
  "ttl_control_new = \<lparr>ttl_paused = False, ttl_stop = False\<rparr>"

definition ttl_pause :: "ttl_control \<Rightarrow> ttl_control" where
  "ttl_pause c = c\<lparr>ttl_paused := True\<rparr>"

definition ttl_resume :: "ttl_control \<Rightarrow> ttl_control" where
  "ttl_resume c = c\<lparr>ttl_paused := False\<rparr>"

definition ttl_shutdown :: "ttl_control \<Rightarrow> ttl_control" where
  "ttl_shutdown c = c\<lparr>ttl_stop := True\<rparr>"

record ttl_reaper_config =
  ttl_batch_size :: int
  ttl_idle_sleep :: nat

definition ttl_reaper_config_default :: ttl_reaper_config where
  "ttl_reaper_config_default = \<lparr>ttl_batch_size = 100, ttl_idle_sleep = 60\<rparr>"

record ttl_stats =
  tags_reaped :: nat
  ttl_cycles :: nat
  ttl_paused_cycles :: nat
  ttl_errors :: nat

definition expired :: "int \<Rightarrow> tag_row \<Rightarrow> bool" where
  "expired now r \<longleftrightarrow> (case tg_expires_at r of None \<Rightarrow> False | Some t \<Rightarrow> t < now)"

text \<open>
  What a candidate meets: \<open>halt\<close>, the control flags before it; \<open>ttl_reads\<close>, beginning the
  transaction and reading the row; \<open>ttl_commits\<close>, the statements after the storage delete.
\<close>

record ttl_env =
  halt :: bool
  ttl_reads :: bool
  ttl_commits :: bool

definition drop_tag :: "tag_key \<Rightarrow> ttl_db \<Rightarrow> ttl_db" where
  "drop_tag k db = db\<lparr>tags_table := filter (\<lambda>r. tag_key r \<noteq> k) (tags_table db), ttl_reaps := ttl_reaps db @ [k]\<rparr>"

definition reap_tag_key :: "tag_key \<Rightarrow> string" where
  "reap_tag_key = (\<lambda>(tenant, project, repo, tag). tenant @ ''/'' @ project @ ''/'' @ repo @ ''/tags/'' @ tag)"

definition reap_tag :: "('w, 'h, 'u) store_ops \<Rightarrow> ttl_env \<Rightarrow> int \<Rightarrow> tag_key \<Rightarrow> ttl_db \<Rightarrow> 'w \<Rightarrow>
    ttl_db \<times> 'w \<times> (ttl_reaper_error, bool) result" where
  "reap_tag S env now k db w =
    (if \<not> ttl_reads env then (db, w, Inl TtlSqlx)
     else case find_tag k db of
       None \<Rightarrow> (db, w, Inr False)
     | Some r \<Rightarrow>
        if \<not> expired now r then (db, w, Inr False)
        else
          (case os_delete S (os_path S (reap_tag_key k)) w of
             (w', Inl NotFound) \<Rightarrow> if ttl_commits env then (drop_tag k db, w', Inr True) else (db, w', Inl TtlSqlx)
           | (w', Inl _) \<Rightarrow> (db, w', Inl TtlSqlx)
           | (w', Inr _) \<Rightarrow> if ttl_commits env then (drop_tag k db, w', Inr True) else (db, w', Inl TtlSqlx)))"

text \<open>\<open>locked\<close>: rows that other registries hold, which \<open>SKIP LOCKED\<close> leaves out.\<close>

definition ttl_candidates :: "ttl_reaper_config \<Rightarrow> tag_key set \<Rightarrow> int \<Rightarrow> ttl_db \<Rightarrow> tag_key list" where
  "ttl_candidates cfg locked now db = map tag_key (take (nat (ttl_batch_size cfg))
     (sort_key (\<lambda>r. the (tg_expires_at r)) (filter (\<lambda>r. expired now r \<and> tag_key r \<notin> locked) (tags_table db))))"

fun ttl_loop :: "('w, 'h, 'u) store_ops \<Rightarrow> (nat \<Rightarrow> ttl_env) \<Rightarrow> int \<Rightarrow> nat \<Rightarrow> tag_key list \<Rightarrow> nat \<Rightarrow>
    ttl_db \<Rightarrow> 'w \<Rightarrow> ttl_db \<times> 'w \<times> nat" where
  "ttl_loop S env now i [] reaped db w = (db, w, reaped)"
| "ttl_loop S env now i (k # ks) reaped db w =
    (if halt (env i) then (db, w, reaped)
     else (case reap_tag S (env i) now k db w of
       (db', w', Inr True) \<Rightarrow> ttl_loop S env now (Suc i) ks (Suc reaped) db' w'
     | (db', w', _) \<Rightarrow> ttl_loop S env now (Suc i) ks reaped db' w'))"

definition ttl_reap_one_cycle :: "('w, 'h, 'u) store_ops \<Rightarrow> ttl_reaper_config \<Rightarrow> bool \<Rightarrow> tag_key set \<Rightarrow>
    (nat \<Rightarrow> ttl_env) \<Rightarrow> int \<Rightarrow> ttl_db \<Rightarrow> 'w \<Rightarrow> ttl_db \<times> 'w \<times> (ttl_reaper_error, nat) result" where
  "ttl_reap_one_cycle S cfg select_ok locked env now db w =
    (if \<not> select_ok \<or> ttl_batch_size cfg < 0 then (db, w, Inl TtlSqlx)
     else (let cs = ttl_candidates cfg locked now db in
       if cs = [] then (db, w, Inr 0)
       else (case ttl_loop S env now 0 cs 0 db w of (db', w', n) \<Rightarrow> (db', w', Inr n))))"

record ttl_turn =
  tt_control :: ttl_control
  tt_select_ok :: bool
  tt_locked :: "tag_key set"
  tt_env :: "nat \<Rightarrow> ttl_env"
  tt_now :: int

fun ttl_run :: "('w, 'h, 'u) store_ops \<Rightarrow> ttl_reaper_config \<Rightarrow> ttl_turn list \<Rightarrow> ttl_db \<Rightarrow> 'w \<Rightarrow> ttl_stats \<Rightarrow>
    ttl_db \<times> 'w \<times> ttl_stats" where
  "ttl_run S cfg [] db w st = (db, w, st)"
| "ttl_run S cfg (e # es) db w st =
    (if ttl_stop (tt_control e) then (db, w, st)
     else (let st1 = st\<lparr>ttl_cycles := ttl_cycles st + 1\<rparr> in
       if ttl_paused (tt_control e)
       then ttl_run S cfg es db w (st1\<lparr>ttl_paused_cycles := ttl_paused_cycles st1 + 1\<rparr>)
       else (case ttl_reap_one_cycle S cfg (tt_select_ok e) (tt_locked e) (tt_env e) (tt_now e) db w of
         (db', w', Inr n) \<Rightarrow> ttl_run S cfg es db' w' (st1\<lparr>tags_reaped := tags_reaped st1 + n\<rparr>)
       | (db', w', Inl _) \<Rightarrow> ttl_run S cfg es db' w' (st1\<lparr>ttl_errors := ttl_errors st1 + 1\<rparr>))))"

section \<open>What the reaper removes\<close>

definition link_of :: "('w, 'h, 'u) store_ops \<Rightarrow> tag_key \<Rightarrow> path" where
  "link_of S = (\<lambda>(t, p, n, tag). os_path S (tag_link_path t p n tag))"

lemma link_of_eq: "os_path S (reap_tag_key k) = link_of S k"
  by (simp add: link_of_def reap_tag_key_def tag_link_path_def split: prod.splits)

lemma find_tag_Some: "find_tag k db = Some r \<Longrightarrow> r \<in> set (tags_table db) \<and> tag_key r = k"
  by (auto simp: find_tag_def find_Some_iff)

lemma find_key_distinct: "distinct (map f xs) \<Longrightarrow> x \<in> set xs \<Longrightarrow> find (\<lambda>y. f y = f x) xs = Some x"
  by (induction xs) (auto simp: rev_image_eqI)

lemma find_tag_key:
  "distinct (map tag_key (tags_table db)) \<Longrightarrow> r \<in> set (tags_table db) \<Longrightarrow> find_tag (tag_key r) db = Some r"
  by (simp add: find_tag_def find_key_distinct)

lemma tag_key_unique:
  fixes db :: ttl_db
  assumes "distinct (map tag_key (tags_table db))" "r \<in> set (tags_table db)" "r' \<in> set (tags_table db)"
    and "tag_key r = tag_key r'"
  shows "r = r'"
proof -
  have "Some r = find_tag (tag_key r) db"
    by (rule find_tag_key [OF assms(1,2), symmetric])
  also have "\<dots> = Some r'"
    unfolding assms(4) by (rule find_tag_key [OF assms(1,3)])
  finally show ?thesis by simp
qed

lemma drop_tag_rows: "set (tags_table (drop_tag k db)) = {r \<in> set (tags_table db). tag_key r \<noteq> k}"
  by (auto simp: drop_tag_def)

text \<open>
  \<open>ttl_effect S view now (db, w) (db', w')\<close>: rows only disappear, each because it was expired, and its
  link with it; the store changes only by losing links of expired rows.
\<close>

definition ttl_effect :: "('w, 'h, 'u) store_ops \<Rightarrow> 'w view \<Rightarrow> int \<Rightarrow> ttl_db \<times> 'w \<Rightarrow> ttl_db \<times> 'w \<Rightarrow> bool" where
  "ttl_effect S view now = (\<lambda>(db, w) (db', w').
     set (tags_table db') \<subseteq> set (tags_table db) \<and>
     (\<forall>r \<in> set (tags_table db) - set (tags_table db'). expired now r \<and> view w' (link_of S (tag_key r)) = None) \<and>
     (\<forall>q. view w' q \<noteq> view w q \<longrightarrow>
        view w' q = None \<and> (\<exists>r \<in> set (tags_table db). expired now r \<and> q = link_of S (tag_key r))))"

lemma ttl_effect_refl: "ttl_effect S view now s s"
  by (simp add: ttl_effect_def split: prod.splits)

lemma ttl_effectI:
  assumes "\<And>r. r \<in> set (tags_table db') \<Longrightarrow> r \<in> set (tags_table db)"
    and "\<And>r. r \<in> set (tags_table db) \<Longrightarrow> r \<notin> set (tags_table db') \<Longrightarrow>
      expired now r \<and> view w' (link_of S (tag_key r)) = None"
    and "\<And>q. view w' q \<noteq> view w q \<Longrightarrow>
      view w' q = None \<and> (\<exists>r \<in> set (tags_table db). expired now r \<and> q = link_of S (tag_key r))"
  shows "ttl_effect S view now (db, w) (db', w')"
  unfolding ttl_effect_def prod.case using assms by blast

lemma ttl_effectD:
  assumes "ttl_effect S view now (db, w) (db', w')"
  shows "r \<in> set (tags_table db') \<Longrightarrow> r \<in> set (tags_table db)"
    and "r \<in> set (tags_table db) \<Longrightarrow> r \<notin> set (tags_table db') \<Longrightarrow> expired now r"
    and "r \<in> set (tags_table db) \<Longrightarrow> r \<notin> set (tags_table db') \<Longrightarrow> view w' (link_of S (tag_key r)) = None"
    and "view w' q \<noteq> view w q \<Longrightarrow> view w' q = None"
    and "view w' q \<noteq> view w q \<Longrightarrow> \<exists>r \<in> set (tags_table db). expired now r \<and> q = link_of S (tag_key r)"
  using assms unfolding ttl_effect_def prod.case by auto

lemma ttl_effect_trans:
  assumes "ttl_effect S view now (db1, w1) (db2, w2)" "ttl_effect S view now (db2, w2) (db3, w3)"
  shows "ttl_effect S view now (db1, w1) (db3, w3)"
proof -
  note a = ttl_effectD [OF assms(1)] and b = ttl_effectD [OF assms(2)]
  have gone: "view w3 (link_of S (tag_key r)) = None \<and> expired now r"
    if r: "r \<in> set (tags_table db1)" "r \<notin> set (tags_table db3)" for r
  proof (cases "r \<in> set (tags_table db2)")
    case True
    then show ?thesis using b(2,3) r(2) by simp
  next
    case False
    then have "view w2 (link_of S (tag_key r)) = None" "expired now r"
      using a(2,3) r(1) by simp_all
    then show ?thesis
      using b(4) [of "link_of S (tag_key r)"] by metis
  qed
  have changed: "view w3 q = None \<and> (\<exists>r \<in> set (tags_table db1). expired now r \<and> q = link_of S (tag_key r))"
    if "view w3 q \<noteq> view w1 q" for q
  proof (cases "view w3 q = view w2 q")
    case True
    with that have "view w2 q \<noteq> view w1 q" by simp
    then show ?thesis
      using a(4,5) True by simp
  next
    case False
    then obtain r where "r \<in> set (tags_table db2)" "expired now r" "q = link_of S (tag_key r)"
      using b(5) by blast
    then show ?thesis
      using a(1) b(4) [OF False] by blast
  qed
  have "r \<in> set (tags_table db1)" if "r \<in> set (tags_table db3)" for r
    using a(1) b(1) that by blast
  then show ?thesis
    unfolding ttl_effect_def prod.case using gone changed by blast
qed

context object_store
begin

lemma reap_tag_effect:
  assumes "reap_tag S env now k db w = (db', w', x)" "distinct (map tag_key (tags_table db))"
  shows "ttl_effect S view now (db, w) (db', w') \<and> distinct (map tag_key (tags_table db'))"
proof (cases "ttl_reads env \<and> (\<exists>r. find_tag k db = Some r \<and> expired now r)")
  case True
  then obtain r where r: "find_tag k db = Some r" "expired now r"
    by blast
  have mem: "r \<in> set (tags_table db)" "tag_key r = k"
    using find_tag_Some [OF r(1)] by auto
  obtain w1 y where del: "os_delete S (link_of S k) w = (w1, y)"
    by fastforce
  have out: "w' = w1" "db' = db \<or> (db' = drop_tag k db \<and> (y = Inl NotFound \<or> (\<exists>u. y = Inr u)))"
    using assms(1) True r del
    by (auto simp: reap_tag_def link_of_eq split: sum.splits os_error.splits if_splits)
  have v: "maybe_delete (link_of S k) (view w) (view w1)"
    using delete_ok [of "link_of S k" w w1] delete_err [of "link_of S k" w w1] del
    by (cases y) (auto simp: maybe_delete_def)
  have only: "ra = r" if "ra \<in> set (tags_table db)" "tag_key ra = k" for ra
    using tag_key_unique [OF assms(2) that(1) mem(1)] that(2) mem(2) by simp
  have "ttl_effect S view now (db, w) (db', w')"
  proof (cases "db' = db")
    case True
    then show ?thesis
      using out(1) v r(2) mem by (auto simp: ttl_effect_def maybe_delete_def split: if_splits)
  next
    case False
    then have db': "db' = drop_tag k db" and w1: "view w1 = (view w)(link_of S k := None)"
      using out(2) delete_ok delete_absent del by auto
    show ?thesis
    proof (rule ttl_effectI)
      fix ra assume ra: "ra \<in> set (tags_table db)" "ra \<notin> set (tags_table db')"
      then have "ra = r"
        using only db' by (simp add: drop_tag_rows)
      then show "expired now ra \<and> view w' (link_of S (tag_key ra)) = None"
        using r(2) mem(2) w1 out(1) by simp
    next
      fix q assume "view w' q \<noteq> view w q"
      then have "q = link_of S k"
        using w1 out(1) by (simp split: if_splits)
      then show "view w' q = None \<and> (\<exists>r \<in> set (tags_table db). expired now r \<and> q = link_of S (tag_key r))"
        using r(2) mem w1 out(1) by auto
    qed (simp add: db' drop_tag_rows)
  qed
  moreover have "distinct (map tag_key (tags_table db'))"
    using out(2) assms(2) by (auto simp: drop_tag_def distinct_map_filter)
  ultimately show ?thesis by simp
next
  case False
  then have "db' = db" "w' = w"
    using assms(1) by (auto simp: reap_tag_def split: option.splits if_splits)
  then show ?thesis
    using assms(2) ttl_effect_refl by simp
qed

lemma ttl_loop_effect:
  assumes "ttl_loop S env now i ks n db w = (db', w', n')" "distinct (map tag_key (tags_table db))"
  shows "ttl_effect S view now (db, w) (db', w') \<and> distinct (map tag_key (tags_table db'))"
  using assms
proof (induction ks arbitrary: i n db w)
  case (Cons k ks)
  obtain db1 w1 x where one: "reap_tag S (env i) now k db w = (db1, w1, x)"
    by (metis surj_pair)
  show ?case
  proof (cases "halt (env i)")
    case False
    obtain n1 where rest: "ttl_loop S env now (Suc i) ks n1 db1 w1 = (db', w', n')"
      using Cons.prems(1) False one by (cases x) (auto split: bool.splits)
    have first: "ttl_effect S view now (db, w) (db1, w1)" "distinct (map tag_key (tags_table db1))"
      using reap_tag_effect [OF one Cons.prems(2)] by simp_all
    show ?thesis
      using Cons.IH [OF rest first(2)] ttl_effect_trans [OF first(1)] by simp
  qed (use Cons.prems in \<open>auto simp: ttl_effect_refl\<close>)
qed (simp add: ttl_effect_refl)

lemma ttl_cycle_effect:
  assumes "ttl_reap_one_cycle S cfg select_ok locked env now db w = (db', w', x)"
    and "distinct (map tag_key (tags_table db))"
  shows "ttl_effect S view now (db, w) (db', w') \<and> distinct (map tag_key (tags_table db'))"
  using assms ttl_loop_effect
  by (auto simp: ttl_reap_one_cycle_def Let_def ttl_effect_refl split: if_splits prod.splits)

end

lemma upsert_tag_keys:
  "distinct (map tag_key (tags_table db)) \<Longrightarrow> distinct (map tag_key (tags_table (upsert_tag r db)))"
proof -
  assume d: "distinct (map tag_key (tags_table db))"
  have "tag_key (x\<lparr>tg_digest := a, tg_expires_at := b\<rparr>) = tag_key x" for x a b
    by (simp add: tag_key_def)
  then have "map tag_key (map (\<lambda>x. if tag_key x = tag_key r
      then x\<lparr>tg_digest := tg_digest r, tg_expires_at := tg_expires_at r\<rparr> else x) (tags_table db)) =
      map tag_key (tags_table db)"
    by simp
  then show ?thesis
    using d by (auto simp: upsert_tag_def simp del: map_map)
qed

text \<open>C37. The reaper removes nothing but expired tags: over any number of candidates, with
  whatever interruptions, database failures and storage errors, a cycle takes away only
  rows whose time had passed, and with each of them its link; no other object changes.\<close>

theorem ttl_reaps_only_expired:
  assumes "object_store S view content target parts"
    and "ttl_reap_one_cycle S cfg select_ok locked env now db w = (db', w', x)"
    and "distinct (map tag_key (tags_table db))"
  shows "set (tags_table db') \<subseteq> set (tags_table db) \<and>
    (\<forall>r \<in> set (tags_table db) - set (tags_table db'). expired now r \<and> view w' (link_of S (tag_key r)) = None) \<and>
    (\<forall>q. view w' q \<noteq> view w q \<longrightarrow>
       view w' q = None \<and> (\<exists>r \<in> set (tags_table db). expired now r \<and> q = link_of S (tag_key r)))"
  using object_store.ttl_cycle_effect [OF assms] by (simp add: ttl_effect_def)

definition demo_row :: "string \<Rightarrow> int \<Rightarrow> tag_row" where
  "demo_row tag t = \<lparr>tg_tenant = ''t'', tg_project = ''p'', tg_repository = ''r'', tg_tag = tag, tg_digest = ''sha256:a'',
     tg_pushed_by = None, tg_expires_at = Some t\<rparr>"

definition demo_ttl_db :: ttl_db where
  "demo_ttl_db = \<lparr>tags_table = [demo_row ''old'' 1, demo_row ''live'' 9], ttl_reaps = []\<rparr>"

definition demo_links :: mem_world where
  "demo_links = mem_init [(''t/p/r/tags/old'', ''a''), (''t/p/r/tags/live'', ''a'')] []"

definition demo_ttl_cycle :: "ttl_db \<times> mem_world \<times> (ttl_reaper_error, nat) result" where
  "demo_ttl_cycle = ttl_reap_one_cycle mem_store \<lparr>ttl_batch_size = 5, ttl_idle_sleep = 1\<rparr> True {}
     (\<lambda>_. \<lparr>halt = False, ttl_reads = True, ttl_commits = True\<rparr>) 5 demo_ttl_db demo_links"

theorem ttl_reaps_only_expired_witness:
  "demo_row ''live'' 9 \<in> set (tags_table (fst demo_ttl_cycle)) \<and>
   demo_row ''old'' 1 \<notin> set (tags_table (fst demo_ttl_cycle)) \<and>
   mem_view (fst (snd demo_ttl_cycle)) (link_of mem_store (tag_key (demo_row ''old'' 1))) = None"
proof -
  obtain db' w' x where out: "demo_ttl_cycle = (db', w', x)"
    by (metis surj_pair)
  have d: "distinct (map tag_key (tags_table demo_ttl_db))"
    by (simp add: demo_ttl_db_def demo_row_def tag_key_def)
  note effect = ttl_reaps_only_expired [OF mem.object_store_axioms out [unfolded demo_ttl_cycle_def] d]
  have "demo_row ''old'' 1 \<notin> set (tags_table (fst demo_ttl_cycle))"
    by code_simp
  then have old: "demo_row ''old'' 1 \<notin> set (tags_table db')"
    by (simp add: out)
  have "\<not> expired 5 (demo_row ''live'' 9)" "demo_row ''live'' 9 \<in> set (tags_table demo_ttl_db)"
    "demo_row ''old'' 1 \<in> set (tags_table demo_ttl_db)"
    by (simp_all add: expired_def demo_row_def demo_ttl_db_def)
  then show ?thesis
    using effect old by (auto simp: out)
qed

section \<open>Durations\<close>

lemma digit_not_whitespace: "is_ascii_digit c \<Longrightarrow> \<not> is_whitespace c"
  by (auto simp: is_ascii_digit_def is_whitespace_def less_eq_char_def)

lemma digit_minus: "is_ascii_digit c \<Longrightarrow> c \<noteq> CHR ''-'' \<and> c \<noteq> CHR ''+''"
  by (auto simp: is_ascii_digit_def less_eq_char_def)

lemma unit_char:
  assumes "unit_secs u = Some k"
  obtains c where "u = [c]" "\<not> is_whitespace c" "\<not> is_ascii_digit c" "c \<noteq> CHR ''-''"
  using assms that
  by (auto simp: unit_secs_def is_whitespace_def is_ascii_digit_def less_eq_char_def split: if_splits)

lemma parse_i64_digits:
  assumes "ds \<noteq> []" "list_all is_ascii_digit ds" "digits_val ds < 2 ^ 63"
  shows "parse_i64 ds = Some (int (digits_val ds))"
proof -
  obtain c cs where ds: "ds = c # cs"
    using assms(1) by (cases ds) auto
  then have "\<not> starts_with ''-'' ds" "strip_prefix_or ''+'' ds = ds"
    using assms(2) digit_minus [of c] by (auto simp: starts_with_def strip_prefix_or_def)
  moreover have "int (digits_val ds) < 2 ^ 63"
    using assms(3) by (metis of_nat_less_iff of_nat_numeral of_nat_power)
  moreover have "- (2 ^ 63) \<le> int (digits_val ds)"
    by (rule order_trans [of _ 0]) simp_all
  ultimately show ?thesis
    using assms(1,2) by (simp add: parse_i64_def Let_def)
qed

text \<open>The TTL header on a duration: digits and a unit give the instant that many seconds
  after now, except when the duration or the instant is out of \<open>chrono\<close>'s range: then the
  parser does not return an error but panics, in the middle of the push that carries it.\<close>

theorem ttl_header_durations:
  assumes "ds \<noteq> []" "list_all is_ascii_digit ds" "digits_val ds < 2 ^ 63" "unit_secs u = Some k"
    and "ch_parse_rfc3339 K (ds @ u) = None"
  shows "parse_ttl_header K now (ds @ u) =
    (let secs = int (digits_val ds) * k in
     if secs \<le> (2 ^ 63 - 1) div 1000 \<and> now + secs * 10 ^ 9 \<le> ch_max_utc K
     then Some (Inr (now + secs * 10 ^ 9)) else None)"
proof -
  obtain c where c: "u = [c]" "\<not> is_whitespace c" "\<not> is_ascii_digit c" "c \<noteq> CHR ''-''"
    using assms(4) by (rule unit_char)
  have "\<not> is_whitespace (hd ds)"
    using assms(1,2) digit_not_whitespace by (cases ds) auto
  then have raw: "trim (ds @ u) = ds @ u"
    by (intro trim_id) (use assms(1) c in auto)
  have num: "takeWhile (\<lambda>c. is_ascii_digit c \<or> c = CHR ''-'') (ds @ u) = ds"
    using assms(2) c by (auto simp: takeWhile_append list_all_iff)
  have k: "0 < k"
    using assms(4) by (auto simp: unit_secs_def split: if_splits)
  have "0 \<le> int (digits_val ds) * k"
    using k by simp
  then have "\<not> int (digits_val ds) * k < - ((2 ^ 63 - 1) div 1000)"
    by simp
  moreover have "u \<noteq> []"
    using c(1) by simp
  ultimately show ?thesis
    using assms(1,4,5) parse_i64_digits [OF assms(1-3)]
    by (simp add: parse_ttl_header_def raw num add_secs_def Let_def not_le not_less)
qed

definition demo_chrono :: chrono where
  "demo_chrono = \<lparr>ch_parse_rfc3339 = (\<lambda>_. None), ch_show_rfc3339 = (\<lambda>_. ''t''),
     ch_max_utc = 8210266876799 * 10 ^ 9\<rparr>"

theorem ttl_header_durations_witness:
  "parse_ttl_header demo_chrono 0 ''7d'' = Some (Inr (7 * 86400 * 10 ^ 9)) \<and>
   parse_ttl_header demo_chrono 0 ''999999999w'' = None"
proof -
  have d: "digits_val ''7'' = 7" "list_all is_ascii_digit ''7''" "list_all is_ascii_digit ''999999999''"
    "unit_secs ''d'' = Some 86400" "unit_secs ''w'' = Some 604800"
    by code_simp+
  have nines: "digits_val ''999999999'' = 999999999"
    by (simp add: digits_val_def digit_val_def)
  show ?thesis
    using ttl_header_durations [of "''7''" "''d''" 86400 demo_chrono 0]
      ttl_header_durations [of "''999999999''" "''w''" 604800 demo_chrono 0] d nines
    by (simp add: demo_chrono_def)
qed

end
