(* ===== verification/Gc_Refcount.thy ===== *)
theory Gc_Refcount
  imports Common Json "HOL-Library.AList"
begin

text \<open>
  Online garbage collection, the writer: the digests a manifest references
  (\<open>specton-gc/src/manifest.rs\<close>) and the reference counts kept in Postgres
  (\<open>refcount.rs\<close>). The tables of \<open>0004_online_gc.sql\<close> are lists without
  duplicates on their primary keys; \<open>blob_refcounts\<close> is an association list.
  Whether the statements of a transaction succeed is an argument: a failure rolls
  the transaction back. The invariant says that every count is the number of edges.
\<close>

section \<open>Digests of a manifest\<close>

record blob_descriptor =
  bd_digest :: string
  bd_size :: int

datatype manifest_parse_error = JsonError

text \<open>
  Deserialization of the derived structs: from an object (unknown fields ignored, a
  repeated field refused) or from an array in field order. \<open>serde_json\<close> reads the
  bytes.
\<close>

definition field :: "string \<Rightarrow> (string \<times> json) list \<Rightarrow> (manifest_parse_error, json option) result" where
  "field k kvs = (case filter (\<lambda>kv. fst kv = k) kvs of
     [] \<Rightarrow> Inr None | [(_, v)] \<Rightarrow> Inr (Some v) | _ \<Rightarrow> Inl JsonError)"

definition de_i64 :: "json option \<Rightarrow> (manifest_parse_error, int) result" where
  "de_i64 v = (case v of None \<Rightarrow> Inr 0
     | Some (Number n) \<Rightarrow> if - (2 ^ 63) \<le> n \<and> n < 2 ^ 63 then Inr n else Inl JsonError
     | Some _ \<Rightarrow> Inl JsonError)"

definition raw_fields :: "json option \<Rightarrow> json option \<Rightarrow> (manifest_parse_error, blob_descriptor) result" where
  "raw_fields d n = (case d of Some (String s) \<Rightarrow>
       map_sum id (\<lambda>size. \<lparr>bd_digest = s, bd_size = size\<rparr>) (de_i64 n)
     | _ \<Rightarrow> Inl JsonError)"

fun raw_descriptor :: "json \<Rightarrow> (manifest_parse_error, blob_descriptor) result" where
  "raw_descriptor (Object kvs) = (case (field ''digest'' kvs, field ''size'' kvs) of
     (Inr d, Inr n) \<Rightarrow> raw_fields d n | _ \<Rightarrow> Inl JsonError)"
| "raw_descriptor (Array [d]) = raw_fields (Some d) None"
| "raw_descriptor (Array [d, n]) = raw_fields (Some d) (Some n)"
| "raw_descriptor _ = Inl JsonError"

record raw_manifest =
  rm_config :: "blob_descriptor option"
  rm_layers :: "blob_descriptor list"
  rm_manifests :: "blob_descriptor list"
  rm_subject :: "blob_descriptor option"

fun de_all :: "json list \<Rightarrow> (manifest_parse_error, blob_descriptor list) result" where
  "de_all [] = Inr []"
| "de_all (v # vs) = (case raw_descriptor v of Inl e \<Rightarrow> Inl e
     | Inr d \<Rightarrow> map_sum id (\<lambda>ds. d # ds) (de_all vs))"

definition de_opt :: "json option \<Rightarrow> (manifest_parse_error, blob_descriptor option) result" where
  "de_opt v = (case v of None \<Rightarrow> Inr None | Some Null \<Rightarrow> Inr None
     | Some j \<Rightarrow> map_sum id Some (raw_descriptor j))"

definition de_vec :: "json option \<Rightarrow> (manifest_parse_error, blob_descriptor list) result" where
  "de_vec v = (case v of None \<Rightarrow> Inr [] | Some (Array vs) \<Rightarrow> de_all vs | Some _ \<Rightarrow> Inl JsonError)"

definition manifest_fields ::
  "json option \<Rightarrow> json option \<Rightarrow> json option \<Rightarrow> json option \<Rightarrow>
    (manifest_parse_error, raw_manifest) result" where
  "manifest_fields c ls ms s = (case (de_opt c, de_vec ls, de_vec ms, de_opt s) of
     (Inr c', Inr ls', Inr ms', Inr s') \<Rightarrow>
       Inr \<lparr>rm_config = c', rm_layers = ls', rm_manifests = ms', rm_subject = s'\<rparr>
   | _ \<Rightarrow> Inl JsonError)"

definition raw_manifest_of :: "json \<Rightarrow> (manifest_parse_error, raw_manifest) result" where
  "raw_manifest_of v = (case v of
     Object kvs \<Rightarrow> (case (field ''config'' kvs, field ''layers'' kvs, field ''manifests'' kvs,
         field ''subject'' kvs) of
       (Inr c, Inr ls, Inr ms, Inr s) \<Rightarrow> manifest_fields c ls ms s | _ \<Rightarrow> Inl JsonError)
   | Array vs \<Rightarrow> if length vs \<le> 4
       then manifest_fields (get_or None (map Some vs) 0) (get_or None (map Some vs) 1) (get_or None (map Some vs) 2) (get_or None (map Some vs) 3)
       else Inl JsonError
   | _ \<Rightarrow> Inl JsonError)"

definition extract_config_digest :: "(bytes \<Rightarrow> json option) \<Rightarrow> bytes \<Rightarrow> string option" where
  "extract_config_digest from_slice body = (case from_slice body of None \<Rightarrow> None
     | Some v \<Rightarrow> (case raw_manifest_of v of Inl _ \<Rightarrow> None
        | Inr raw \<Rightarrow> (case rm_config raw of None \<Rightarrow> None
           | Some c \<Rightarrow> if bd_digest c = [] then None else Some (bd_digest c))))"

definition push_descriptor :: "blob_descriptor \<Rightarrow> blob_descriptor list \<times> string set \<Rightarrow>
    blob_descriptor list \<times> string set" where
  "push_descriptor d = (\<lambda>(sink, seen).
     if bd_digest d = [] then (sink, seen)
     else if bd_digest d \<in> seen then (sink, seen)
     else (sink @ [d], insert (bd_digest d) seen))"

definition extract_blob_digests ::
  "(bytes \<Rightarrow> json option) \<Rightarrow> bytes \<Rightarrow> (manifest_parse_error, blob_descriptor list) result" where
  "extract_blob_digests from_slice body = (case from_slice body of None \<Rightarrow> Inl JsonError
     | Some v \<Rightarrow> (case raw_manifest_of v of Inl e \<Rightarrow> Inl e
        | Inr raw \<Rightarrow>
           (let acc0 = (case rm_config raw of None \<Rightarrow> ([], {}) | Some c \<Rightarrow> push_descriptor c ([], {}));
                acc1 = fold push_descriptor (rm_layers raw) acc0;
                acc2 = fold push_descriptor (rm_manifests raw) acc1
            in Inr (fst acc2))))"

section \<open>The tables\<close>

datatype gc_error = Sqlx

record rc_row =
  refcount :: nat
  zeroed_at :: "nat option"
  last_seen_at :: nat
  rc_bytes :: int

record reap_row =
  rr_tenant :: string
  rr_digest :: string
  rr_bytes :: int

record drift_row =
  dr_tenant :: string
  dr_digest :: string
  dr_kind :: string
  dr_expected :: nat
  dr_observed :: nat
  dr_corrected_at :: "nat option"

record gc_db =
  edges :: "(string \<times> string \<times> string) list"
  blob_paths :: "(string \<times> string \<times> string \<times> string) list"
  refcounts :: "((string \<times> string) \<times> rc_row) list"
  gc_reaps :: "reap_row list"
  gc_drift :: "drift_row list"

definition empty_db :: gc_db where
  "empty_db = \<lparr>edges = [], blob_paths = [], refcounts = [], gc_reaps = [], gc_drift = []\<rparr>"

text \<open>\<open>INSERT ... ON CONFLICT DO NOTHING\<close> on a table whose key is the whole row.\<close>

definition insert_row :: "'r \<Rightarrow> 'r list \<Rightarrow> 'r list" where
  "insert_row r rs = (if r \<in> set rs then rs else rs @ [r])"

section \<open>The reference counter\<close>

definition bump :: "nat \<Rightarrow> int \<Rightarrow> rc_row option \<Rightarrow> rc_row" where
  "bump now sz old = (case old of
     None \<Rightarrow> \<lparr>refcount = 1, zeroed_at = None, last_seen_at = now, rc_bytes = sz\<rparr>
   | Some r \<Rightarrow> \<lparr>refcount = refcount r + 1, zeroed_at = None, last_seen_at = now,
       rc_bytes = max (rc_bytes r) sz\<rparr>)"

definition add_ref :: "nat \<Rightarrow> string \<Rightarrow> string \<Rightarrow> string \<Rightarrow> string \<Rightarrow> blob_descriptor \<Rightarrow> gc_db \<Rightarrow> gc_db" where
  "add_ref now tenant project repository manifest blob db =
    (let d = bd_digest blob; e = (tenant, manifest, d);
         db1 = db\<lparr>blob_paths := insert_row (tenant, project, repository, d) (blob_paths db)\<rparr> in
     if e \<in> set (edges db1) then db1
     else db1\<lparr>edges := edges db1 @ [e],
       refcounts := AList.update (tenant, d)
         (bump now (bd_size blob) (map_of (refcounts db1) (tenant, d))) (refcounts db1)\<rparr>)"

definition add_refs :: "bool \<Rightarrow> nat \<Rightarrow> string \<Rightarrow> string \<Rightarrow> string \<Rightarrow> string \<Rightarrow> blob_descriptor list \<Rightarrow>
    gc_db \<Rightarrow> gc_db \<times> (gc_error, unit) result" where
  "add_refs commits now tenant project repository manifest blobs db =
    (if blobs = [] then (db, Inr ())
     else if commits then (fold (add_ref now tenant project repository manifest) blobs db, Inr ())
     else (db, Inl Sqlx))"

definition decrement :: "nat \<Rightarrow> rc_row \<Rightarrow> rc_row" where
  "decrement now r = (if 0 < refcount r
     then r\<lparr>refcount := refcount r - 1,
        zeroed_at := (if refcount r - 1 = 0 then Some now else zeroed_at r), last_seen_at := now\<rparr>
     else r)"

text \<open>\<open>UPDATE blob_refcounts SET ... WHERE tenant = .. AND blob_digest = ..\<close>.\<close>

definition update_row :: "string \<times> string \<Rightarrow> (rc_row \<Rightarrow> rc_row) \<Rightarrow> gc_db \<Rightarrow> gc_db" where
  "update_row k f db = (case map_of (refcounts db) k of None \<Rightarrow> db
     | Some r \<Rightarrow> db\<lparr>refcounts := AList.update k (f r) (refcounts db)\<rparr>)"

definition remove_refs :: "bool \<Rightarrow> nat \<Rightarrow> string \<Rightarrow> string \<Rightarrow> gc_db \<Rightarrow> gc_db \<times> (gc_error, unit) result" where
  "remove_refs commits now tenant manifest db =
    (if commits then
       (let rows = map (\<lambda>(_, _, b). b) (filter (\<lambda>(t, m, _). t = tenant \<and> m = manifest) (edges db));
            db1 = db\<lparr>edges := filter (\<lambda>(t, m, _). \<not> (t = tenant \<and> m = manifest)) (edges db)\<rparr>
        in (fold (\<lambda>b. update_row (tenant, b) (decrement now)) rows db1, Inr ()))
     else (db, Inl Sqlx))"

text \<open>\<open>NoopBlobRefCounter\<close>.\<close>

definition noop_add_refs :: "string \<Rightarrow> string \<Rightarrow> string \<Rightarrow> string \<Rightarrow> blob_descriptor list \<Rightarrow>
    gc_db \<Rightarrow> gc_db \<times> (gc_error, unit) result" where
  "noop_add_refs t p r m bs db = (db, Inr ())"

definition noop_remove_refs :: "string \<Rightarrow> string \<Rightarrow> gc_db \<Rightarrow> gc_db \<times> (gc_error, unit) result" where
  "noop_remove_refs t m db = (db, Inr ())"

section \<open>What the extraction returns\<close>

definition referenced :: "raw_manifest \<Rightarrow> blob_descriptor list" where
  "referenced raw = (case rm_config raw of None \<Rightarrow> [] | Some c \<Rightarrow> [c]) @ rm_layers raw @ rm_manifests raw"

lemma fold_push:
  assumes "fold push_descriptor ds (sink, seen) = (sink', seen')"
    and "seen = bd_digest ` set sink" "distinct (map bd_digest sink)"
  shows "seen' = bd_digest ` set sink' \<and> distinct (map bd_digest sink') \<and>
    bd_digest ` set sink' = bd_digest ` set sink \<union> (bd_digest ` set ds - {[]}) \<and>
    set sink' \<subseteq> set sink \<union> set ds"
  using assms
proof (induction ds arbitrary: sink seen)
  case (Cons d ds)
  obtain s1 n1 where 1: "push_descriptor d (sink, seen) = (s1, n1)"
    by fastforce
  then have "n1 = bd_digest ` set s1 \<and> distinct (map bd_digest s1) \<and> set s1 \<subseteq> set sink \<union> {d} \<and>
      bd_digest ` set s1 = bd_digest ` set sink \<union> ({bd_digest d} - {[]})"
    using Cons.prems(2,3) by (auto simp: push_descriptor_def split: if_splits)
  with Cons.IH [of s1 n1] Cons.prems(1) 1 show ?case
    by auto
qed auto

lemma extract_eq:
  "extract_blob_digests f body = (case f body of None \<Rightarrow> Inl JsonError
     | Some v \<Rightarrow> map_sum id (\<lambda>raw. fst (fold push_descriptor (referenced raw) ([], {}))) (raw_manifest_of v))"
  by (auto simp: extract_blob_digests_def referenced_def split: option.splits sum.splits)

lemma extract_digests:
  assumes "extract_blob_digests f body = Inr ds"
  obtains v raw where "f body = Some v" "raw_manifest_of v = Inr raw" "distinct (map bd_digest ds)"
    "bd_digest ` set ds = bd_digest ` set (referenced raw) - {[]}" "set ds \<subseteq> set (referenced raw)"
proof -
  obtain v raw where v: "f body = Some v" "raw_manifest_of v = Inr raw"
    "ds = fst (fold push_descriptor (referenced raw) ([], {}))"
    using assms by (cases "f body"; cases "raw_manifest_of (the (f body))") (auto simp: extract_eq)
  moreover obtain s n where "fold push_descriptor (referenced raw) ([], {}) = (s, n)"
    by fastforce
  ultimately show thesis
    using fold_push [of "referenced raw" "[]" "{}" s n] that by auto
qed

section \<open>The invariant of the tables\<close>

definition edge_count :: "gc_db \<Rightarrow> string \<times> string \<Rightarrow> nat" where
  "edge_count db k = length (filter (\<lambda>(t, m, b). (t, b) = k) (edges db))"

definition row_ok :: "gc_db \<Rightarrow> string \<times> string \<Rightarrow> bool" where
  "row_ok db k \<longleftrightarrow> (case map_of (refcounts db) k of None \<Rightarrow> edge_count db k = 0
     | Some r \<Rightarrow> refcount r = edge_count db k \<and> (zeroed_at r = None \<longleftrightarrow> 0 < refcount r))"

definition paths_ok :: "gc_db \<Rightarrow> bool" where
  "paths_ok db \<longleftrightarrow> (\<forall>(t, m, b) \<in> set (edges db). \<exists>p r. (t, p, r, b) \<in> set (blob_paths db))"

definition keys_ok :: "gc_db \<Rightarrow> bool" where
  "keys_ok db \<longleftrightarrow> distinct (edges db) \<and> distinct (blob_paths db) \<and> distinct (map fst (refcounts db))"

definition gc_inv :: "gc_db \<Rightarrow> bool" where
  "gc_inv db \<longleftrightarrow> keys_ok db \<and> paths_ok db \<and> (\<forall>k. row_ok db k)"

lemma gc_invI: "keys_ok db \<Longrightarrow> paths_ok db \<Longrightarrow> (\<And>k. row_ok db k) \<Longrightarrow> gc_inv db"
  by (simp add: gc_inv_def)

lemma gc_inv_empty: "gc_inv empty_db"
  by (simp add: gc_inv_def keys_ok_def paths_ok_def row_ok_def edge_count_def empty_db_def)

lemma set_insert_row [simp]: "set (insert_row r rs) = insert r (set rs)"
  by (auto simp: insert_row_def)

lemma distinct_insert_row [simp]: "distinct (insert_row r rs) \<longleftrightarrow> distinct rs"
  by (simp add: insert_row_def)

lemma edge_count_snoc:
  "edge_count (db\<lparr>edges := es @ [(t, m, b)]\<rparr>) k =
    edge_count (db\<lparr>edges := es\<rparr>) k + (if k = (t, b) then 1 else 0)"
  by (auto simp: edge_count_def)

lemma edge_count_cong: "edges db' = edges db \<Longrightarrow> edge_count db' = edge_count db"
  by (simp add: edge_count_def fun_eq_iff)

lemma edge_count_pos_iff: "0 < edge_count db (t, b) \<longleftrightarrow> (\<exists>m. (t, m, b) \<in> set (edges db))"
  by (force simp: edge_count_def filter_empty_conv)

lemma add_ref_edges:
  "set (edges (add_ref now t p r m b db)) = insert (t, m, bd_digest b) (set (edges db))"
  by (auto simp: add_ref_def Let_def)

lemma add_ref_inv:
  assumes "gc_inv db"
  shows "gc_inv (add_ref now t p r m b db)"
proof (rule gc_invI)
  have inv: "keys_ok db" "paths_ok db" "row_ok db k" for k
    using assms unfolding gc_inv_def by blast+
  show "keys_ok (add_ref now t p r m b db)"
    using inv(1) by (auto simp: keys_ok_def add_ref_def Let_def distinct_update)
  show "paths_ok (add_ref now t p r m b db)"
    using inv(2) by (fastforce simp: paths_ok_def add_ref_def Let_def)
  fix k
  show "row_ok (add_ref now t p r m b db) k"
  proof (cases "(t, m, bd_digest b) \<in> set (edges db)")
    case True
    with inv(3) [of k] show ?thesis
      by (simp add: add_ref_def row_ok_def edge_count_def split: option.splits)
  next
    case False
    with inv(3) [of k] show ?thesis
      by (auto simp: add_ref_def Let_def row_ok_def bump_def update_conv edge_count_def
          split: option.splits)
  qed
qed

lemma add_refs_inv: "gc_inv db \<Longrightarrow> gc_inv (fst (add_refs commits now t p r m bs db))"
  by (auto simp: add_refs_def intro: fold_invariant [where Q = "\<lambda>_. True"] add_ref_inv)

lemma fold_add_ref_edges:
  "set (edges (fold (add_ref now t p r m) bs db)) =
    set (edges db) \<union> {(t, m, bd_digest b) | b. b \<in> set bs}"
  by (induction bs arbitrary: db) (auto simp: add_ref_edges)

lemma fold_add_ref_paths:
  "set (blob_paths (fold (add_ref now t p r m) bs db)) =
    set (blob_paths db) \<union> {(t, p, r, bd_digest b) | b. b \<in> set bs}"
proof (induction bs arbitrary: db)
  case (Cons b bs)
  have "set (blob_paths (add_ref now t p r m b db)) = insert (t, p, r, bd_digest b) (set (blob_paths db))"
    by (simp add: add_ref_def Let_def)
  with Cons show ?case by auto
qed simp

lemma add_refs_tables:
  "set (edges (fst (add_refs True now t p r m bs db))) = set (edges db) \<union> {(t, m, bd_digest b) | b. b \<in> set bs}"
  "set (blob_paths (fst (add_refs True now t p r m bs db))) =
    set (blob_paths db) \<union> {(t, p, r, bd_digest b) | b. b \<in> set bs}"
  by (auto simp: add_refs_def fold_add_ref_edges fold_add_ref_paths)

text \<open>Removing: the count of a blob drops by the number of edges removed, one per manifest.\<close>

lemma map_of_update_row:
  "map_of (refcounts (update_row k f db)) = (map_of (refcounts db))(k := map_option f (map_of (refcounts db) k))"
  by (auto simp: update_row_def update_conv fun_eq_iff split: option.splits)

lemma update_row_keeps [simp]:
  "edges (update_row k f db) = edges db" "blob_paths (update_row k f db) = blob_paths db"
  "gc_reaps (update_row k f db) = gc_reaps db" "gc_drift (update_row k f db) = gc_drift db"
  by (simp_all add: update_row_def split: option.splits)

lemma update_row_distinct [simp]:
  "distinct (map fst (refcounts db)) \<Longrightarrow> distinct (map fst (refcounts (update_row k f db)))"
  by (simp add: update_row_def distinct_update split: option.splits)

abbreviation decrement_all :: "nat \<Rightarrow> string \<Rightarrow> string list \<Rightarrow> gc_db \<Rightarrow> gc_db" where
  "decrement_all now t bs \<equiv> fold (\<lambda>b. update_row (t, b) (decrement now)) bs"

lemma decrement_all_keeps [simp]:
  "edges (decrement_all now t bs db) = edges db" "blob_paths (decrement_all now t bs db) = blob_paths db"
  "gc_reaps (decrement_all now t bs db) = gc_reaps db" "gc_drift (decrement_all now t bs db) = gc_drift db"
  by (induction bs arbitrary: db) simp_all

lemma decrement_all_distinct:
  "distinct (map fst (refcounts db)) \<Longrightarrow> distinct (map fst (refcounts (decrement_all now t bs db)))"
  by (induction bs arbitrary: db) simp_all

lemma decrement_all_row:
  "distinct bs \<Longrightarrow> map_of (refcounts (decrement_all now t bs db)) (t', b) =
    (if t' = t \<and> b \<in> set bs then map_option (decrement now) (map_of (refcounts db) (t', b))
     else map_of (refcounts db) (t', b))"
  by (induction bs arbitrary: db) (auto simp: map_of_update_row)

lemma distinct_edges_of_manifest:
  "distinct es \<Longrightarrow> distinct (map (\<lambda>(_, _, b). b) (filter (\<lambda>(t, m, _). t = t0 \<and> m = m0) es))"
  by (auto simp: distinct_map inj_on_def)

lemma length_filter_split:
  "length (filter P es) = length (filter P (filter (\<lambda>e. \<not> Q e) es)) + length (filter P (filter Q es))"
  by (induction es) auto

lemma length_filter_eq: "distinct es \<Longrightarrow> length (filter (\<lambda>e. e = x) es) = (if x \<in> set es then 1 else 0)"
  by (induction es) auto

lemma edge_count_minus_manifest:
  assumes "distinct (edges db)"
  shows "edge_count db (t', b) = edge_count (db\<lparr>edges := filter (\<lambda>(t, m, _). \<not> (t = t0 \<and> m = m0)) (edges db)\<rparr>) (t', b)
    + (if t' = t0 \<and> (t0, m0, b) \<in> set (edges db) then 1 else 0)"
proof -
  have one: "filter (\<lambda>(t, m, x). (t, x) = (t', b)) (filter (\<lambda>(t, m, _). t = t0 \<and> m = m0) (edges db)) =
      filter (\<lambda>e. e = (t0, m0, b) \<and> t' = t0) (edges db)"
    by (auto intro!: filter_cong)
  have "length (filter (\<lambda>e. e = (t0, m0, b) \<and> t' = t0) (edges db)) =
      (if t' = t0 \<and> (t0, m0, b) \<in> set (edges db) then 1 else 0)"
    using length_filter_eq [OF assms] by (cases "t' = t0") (auto simp: filter_empty_conv)
  then show ?thesis
    using length_filter_split [of "\<lambda>(t, m, x). (t, x) = (t', b)" "edges db" "\<lambda>(t, m, _). t = t0 \<and> m = m0"] one
    by (simp add: edge_count_def case_prod_unfold)
qed

lemma remove_refs_edges:
  "set (edges (fst (remove_refs True now t m db))) = {e \<in> set (edges db). \<not> (fst e = t \<and> fst (snd e) = m)}"
  by (auto simp: remove_refs_def Let_def)

lemma gc_invD:
  assumes "gc_inv db"
  shows "keys_ok db" "paths_ok db" "row_ok db k"
  using assms unfolding gc_inv_def by blast+

lemma removed_digests:
  "b \<in> set (map (\<lambda>(_, _, b). b) (filter (\<lambda>(t, m, _). t = t0 \<and> m = m0) es)) \<longleftrightarrow> (t0, m0, b) \<in> set es"
  by force

lemma remove_refs_map:
  assumes "distinct (edges db)"
  shows "map_of (refcounts (fst (remove_refs True now t m db))) (t', b) =
    (if t' = t \<and> (t, m, b) \<in> set (edges db) then map_option (decrement now) (map_of (refcounts db) (t', b))
     else map_of (refcounts db) (t', b))"
  using decrement_all_row [OF distinct_edges_of_manifest [OF assms, of t m], where now = now and t = t and t' = t' and b = b
      and db = "db\<lparr>edges := filter (\<lambda>(t', m', _). \<not> (t' = t \<and> m' = m)) (edges db)\<rparr>"]
  unfolding removed_digests by (simp add: remove_refs_def Let_def)

lemma remove_refs_row:
  assumes "gc_inv db"
  shows "row_ok (fst (remove_refs True now t m db)) (t', b)"
proof -
  let ?rows = "map (\<lambda>(_, _, b). b) (filter (\<lambda>(t', m', _). t' = t \<and> m' = m) (edges db))"
  let ?db1 = "db\<lparr>edges := filter (\<lambda>(t', m', _). \<not> (t' = t \<and> m' = m)) (edges db)\<rparr>"
  have d: "distinct (edges db)"
    using gc_invD(1) [OF assms] by (simp add: keys_ok_def)
  have fin: "fst (remove_refs True now t m db) = decrement_all now t ?rows ?db1"
    by (simp add: remove_refs_def Let_def)
  have row: "map_of (refcounts (decrement_all now t ?rows ?db1)) (t', b) =
      (if t' = t \<and> (t, m, b) \<in> set (edges db) then map_option (decrement now) (map_of (refcounts db) (t', b))
       else map_of (refcounts db) (t', b))"
    using remove_refs_map [OF d, of now t m t' b] unfolding fin .
  have cnt: "edge_count db (t', b) = edge_count ?db1 (t', b) + (if t' = t \<and> (t, m, b) \<in> set (edges db) then 1 else 0)"
    by (rule edge_count_minus_manifest [OF d])
  have "edge_count (decrement_all now t ?rows ?db1) (t', b) = edge_count ?db1 (t', b)"
    by (rule fun_cong [OF edge_count_cong]) simp
  with row cnt gc_invD(3) [OF assms, of "(t', b)"] show ?thesis
    unfolding fin row_ok_def
    by (cases "map_of (refcounts db) (t', b)") (auto simp: decrement_def)
qed

lemma remove_refs_inv:
  assumes "gc_inv db"
  shows "gc_inv (fst (remove_refs commits now t m db))"
proof (cases commits)
  case True
  have "row_ok (fst (remove_refs True now t m db)) k" for k
    using remove_refs_row [OF assms] by (cases k) simp
  moreover have "keys_ok (fst (remove_refs True now t m db))" "paths_ok (fst (remove_refs True now t m db))"
    using gc_invD(1,2) [OF assms]
    by (auto simp: remove_refs_def Let_def keys_ok_def paths_ok_def decrement_all_distinct)
  ultimately show ?thesis
    using True by (simp add: gc_invI)
next
  case False
  with assms show ?thesis by (simp add: remove_refs_def)
qed

lemma remove_refs_paths [simp]: "blob_paths (fst (remove_refs commits now t m db)) = blob_paths db"
  by (simp add: remove_refs_def Let_def)

section \<open>The contract of a reference counter\<close>

text \<open>
  What the manifest handlers rely on: \<open>live\<close> is the set of (tenant, manifest, blob)
  edges; a successful call changes it by the edges of one manifest, a failed one not
  at all, and the invariant survives both.
\<close>

locale ref_counter =
  fixes inv :: "'d \<Rightarrow> bool"
    and live :: "'d \<Rightarrow> (string \<times> string \<times> string) set"
    and add :: "'f \<Rightarrow> string \<Rightarrow> string \<Rightarrow> string \<Rightarrow> string \<Rightarrow> blob_descriptor list \<Rightarrow> 'd \<Rightarrow>
      'd \<times> ('e, unit) result"
    and remove :: "'f \<Rightarrow> string \<Rightarrow> string \<Rightarrow> 'd \<Rightarrow> 'd \<times> ('e, unit) result"
  assumes add_inv: "inv db \<Longrightarrow> inv (fst (add f t p r m bs db))"
    and add_live: "snd (add f t p r m bs db) = Inr () \<Longrightarrow>
      live (fst (add f t p r m bs db)) = live db \<union> {(t, m, bd_digest b) | b. b \<in> set bs}"
    and add_fail: "snd (add f t p r m bs db) = Inl e \<Longrightarrow> fst (add f t p r m bs db) = db"
    and remove_inv: "inv db \<Longrightarrow> inv (fst (remove f t m db))"
    and remove_live: "snd (remove f t m db) = Inr () \<Longrightarrow>
      live (fst (remove f t m db)) = {e \<in> live db. \<not> (fst e = t \<and> fst (snd e) = m)}"
    and remove_fail: "snd (remove f t m db) = Inl e \<Longrightarrow> fst (remove f t m db) = db"
begin

lemma push_then_delete:
  assumes "add f t p r m bs db = (db1, Inr ())" "remove f' t m db1 = (db2, Inr ())"
    and "\<And>b. (t, m, b) \<notin> live db"
  shows "live db2 = live db"
  using add_live [of f t p r m bs db] remove_live [of f' t m db1] assms by auto

lemma repush_idempotent:
  assumes "add f t p r m bs db = (db1, Inr ())" "add f' t p' r' m bs db1 = (db2, Inr ())"
  shows "live db2 = live db1"
  using add_live [of f t p r m bs db] add_live [of f' t p' r' m bs db1] assms by auto

lemma others_kept:
  assumes "remove f t m db = (db', x)" "e \<in> live db" "\<not> (fst e = t \<and> fst (snd e) = m)"
  shows "e \<in> live db'"
  using remove_live [of f t m db] remove_fail [of f t m db] assms by (cases x) auto

end

interpretation pg: ref_counter gc_inv "\<lambda>db. set (edges db)"
  "\<lambda>(commits, now). add_refs commits now" "\<lambda>(commits, now). remove_refs commits now"
proof (unfold_locales, goal_cases)
  case (2 f t p r m bs db)
  then show ?case
    by (auto simp: add_refs_def fold_add_ref_edges split: prod.splits if_splits)
next
  case (1 db f t p r m bs)
  then show ?case
    by (cases f) (simp add: add_refs_inv)
next
  case (4 db f t m)
  then show ?case
    by (cases f) (simp add: remove_refs_inv)
next
  case (5 f t m db)
  then show ?case
    by (cases f; cases "fst f") (auto simp: remove_refs_edges remove_refs_def [of False])
qed (auto simp: add_refs_def remove_refs_def split: prod.splits if_splits)

lemma referenced_row:
  assumes "gc_inv db" "(t, m, b) \<in> set (edges db)"
  obtains row where "map_of (refcounts db) (t, b) = Some row" "refcount row = edge_count db (t, b)"
    "0 < refcount row" "zeroed_at row = None"
  using gc_invD(3) [OF assms(1), of "(t, b)"] edge_count_pos_iff [of db t b] assms(2)
  by (fastforce simp: row_ok_def split: option.splits)

lemma edge_count_card:
  assumes "keys_ok db"
  shows "edge_count db (t, b) = card {m. (t, m, b) \<in> set (edges db)}"
proof -
  let ?es = "filter (\<lambda>(t', m, b'). (t', b') = (t, b)) (edges db)"
  have "distinct ?es"
    using assms by (simp add: keys_ok_def)
  moreover have "set ?es = (\<lambda>m. (t, m, b)) ` {m. (t, m, b) \<in> set (edges db)}"
    by auto
  ultimately show ?thesis
    using distinct_card [of ?es] card_image [of "\<lambda>m. (t, m, b)" "{m. (t, m, b) \<in> set (edges db)}"]
    by (simp add: edge_count_def inj_on_def)
qed

text \<open>Removing the only manifest that references a blob leaves its row at zero, marked with the time.\<close>

lemma remove_last_ref:
  assumes inv: "gc_inv db" and edge: "(t, m, b) \<in> set (edges db)" and only: "\<And>m'. (t, m', b) \<in> set (edges db) \<Longrightarrow> m' = m"
  obtains row where "map_of (refcounts (fst (remove_refs True now t m db))) (t, b) = Some row"
    "refcount row = 0" "zeroed_at row = Some now"
proof -
  obtain row where row: "map_of (refcounts db) (t, b) = Some row" "refcount row = edge_count db (t, b)"
    using referenced_row [OF inv edge] by blast
  have "{m'. (t, m', b) \<in> set (edges db)} = {m}"
    using edge only by blast
  then have "refcount row = 1"
    using row(2) edge_count_card [OF gc_invD(1) [OF inv], of t b] by simp
  moreover have "distinct (edges db)"
    using gc_invD(1) [OF inv] by (simp add: keys_ok_def)
  ultimately show thesis
    using that [of "decrement now row"] remove_refs_map [of db now t m t b] edge row(1) by (simp add: decrement_def)
qed

end
