(* ===== verification/Audit_Chain.thy ===== *)
theory Audit_Chain
  imports Json "HOL-Library.AList"
begin

text \<open>
  The hash-chained audit log (\<open>specton-audit\<close>): events (\<open>event.rs\<close>), row hashes
  (\<open>hash.rs\<close>), the sink's vocabulary (\<open>sink.rs\<close>) and the in-memory sink
  (\<open>memory.rs\<close>). HMAC-SHA256, the JSON serializer and the hexadecimal encoder are
  parameters, gathered in a record; nothing is assumed about collisions. Instead, the
  theorems say that two verified logs with the same tip agree or that two of the inputs
  they hash collide.
\<close>

section \<open>Events\<close>

datatype category =
  Auth | Push | Pull | Delete | Sign | Promote | Policy | Key | AdminCat | Rebuild | Scan

fun category_as_str :: "category \<Rightarrow> string" where
  "category_as_str Auth = ''auth''"
| "category_as_str Push = ''push''"
| "category_as_str Pull = ''pull''"
| "category_as_str Delete = ''delete''"
| "category_as_str Sign = ''sign''"
| "category_as_str Promote = ''promote''"
| "category_as_str Policy = ''policy''"
| "category_as_str Key = ''key''"
| "category_as_str AdminCat = ''admin''"
| "category_as_str Rebuild = ''rebuild''"
| "category_as_str Scan = ''scan''"

definition category_parse :: "string \<Rightarrow> category option" where
  "category_parse s = map_of
     [(''auth'', Auth), (''push'', Push), (''pull'', Pull), (''delete'', Delete), (''sign'', Sign),
      (''promote'', Promote), (''policy'', Policy), (''key'', Key), (''admin'', AdminCat),
      (''rebuild'', Rebuild), (''scan'', Scan)] s"

record actor =
  actor_sub :: string
  actor_role :: "string option"
  actor_ip :: "string option"
  actor_ua :: "string option"

definition actor_system :: actor where
  "actor_system = \<lparr>actor_sub = ''system'', actor_role = Some ''system'', actor_ip = None, actor_ua = None\<rparr>"

record subject =
  sub_tenant :: "string option"
  sub_project :: "string option"
  sub_repo :: "string option"
  sub_reference :: "string option"
  sub_digest :: "string option"

datatype outcome = Success | Failure string

fun outcome_as_str :: "outcome \<Rightarrow> string" where
  "outcome_as_str Success = ''success''"
| "outcome_as_str (Failure _) = ''failure''"

fun outcome_error_code :: "outcome \<Rightarrow> string option" where
  "outcome_error_code Success = None"
| "outcome_error_code (Failure code) = Some code"

text \<open>Times are nanoseconds; attributes are a map (a \<open>BTreeMap\<close>, serialized in key order).\<close>

record audit_event =
  ev_at :: int
  ev_category :: category
  ev_action :: string
  ev_actor :: actor
  ev_subject :: "subject option"
  ev_outcome :: outcome
  ev_attributes :: "string \<rightharpoonup> json"

definition event_success :: "int \<Rightarrow> category \<Rightarrow> string \<Rightarrow> actor \<Rightarrow> audit_event" where
  "event_success now c a who = \<lparr>ev_at = now, ev_category = c, ev_action = a, ev_actor = who,
     ev_subject = None, ev_outcome = Success, ev_attributes = Map.empty\<rparr>"

definition with_subject :: "audit_event \<Rightarrow> subject \<Rightarrow> audit_event" where
  "with_subject e s = e\<lparr>ev_subject := Some s\<rparr>"

definition with_attr :: "audit_event \<Rightarrow> string \<Rightarrow> json \<Rightarrow> audit_event" where
  "with_attr e k v = e\<lparr>ev_attributes := (ev_attributes e)(k \<mapsto> v)\<rparr>"

record audit_row =
  ar_id :: int
  ar_event :: audit_event
  ar_tenant :: "string option"
  ar_prev_hash :: "bytes option"
  ar_row_hash :: bytes
  ar_key_id :: string

record canonical_payload =
  cp_at :: int
  cp_category :: string
  cp_action :: string
  cp_actor_sub :: string
  cp_actor_ip :: "string option"
  cp_actor_ua :: "string option"
  cp_subject :: "subject option"
  cp_outcome :: string
  cp_error_code :: "string option"
  cp_attributes :: "string \<rightharpoonup> json"
  cp_hmac_key_id :: string

section \<open>Row hashes\<close>

text \<open>
  The crates the log calls: \<open>serde_json::to_vec\<close>, \<open>HmacSha256::new_from_slice\<close> followed
  by the updates and the finalization, and \<open>hex::encode\<close>.
\<close>

record crypto =
  to_vec :: "canonical_payload \<Rightarrow> bytes option"
  hmac :: "bytes \<Rightarrow> bytes \<Rightarrow> bytes option"
  hex_encode :: "bytes \<Rightarrow> string"

definition GENESIS_PREV :: bytes where
  "GENESIS_PREV = replicate 32 (CHR 0x00)"

definition payload_of :: "audit_event \<Rightarrow> string \<Rightarrow> canonical_payload" where
  "payload_of e key_id =
    \<lparr>cp_at = ev_at e, cp_category = category_as_str (ev_category e), cp_action = ev_action e,
     cp_actor_sub = actor_sub (ev_actor e), cp_actor_ip = actor_ip (ev_actor e),
     cp_actor_ua = actor_ua (ev_actor e), cp_subject = ev_subject e,
     cp_outcome = outcome_as_str (ev_outcome e), cp_error_code = outcome_error_code (ev_outcome e),
     cp_attributes = ev_attributes e, cp_hmac_key_id = key_id\<rparr>"

definition canonical_bytes :: "crypto \<Rightarrow> audit_event \<Rightarrow> string \<Rightarrow> bytes option" where
  "canonical_bytes C e key_id = to_vec C (payload_of e key_id)"

datatype hash_error = Canonical | BadKey

definition compute_row_hash :: "crypto \<Rightarrow> bytes \<Rightarrow> bytes \<Rightarrow> audit_event \<Rightarrow> string \<Rightarrow> (hash_error, bytes) result" where
  "compute_row_hash C key prev e key_id = (case canonical_bytes C e key_id of
     None \<Rightarrow> Inl Canonical
   | Some canonical \<Rightarrow> (case hmac C key (prev @ canonical) of
       None \<Rightarrow> Inl BadKey | Some h \<Rightarrow> Inr h))"

section \<open>The sink's vocabulary\<close>

text \<open>\<open>Panicked\<close> stands for a panic of the calling task.\<close>

datatype audit_error =
    AuditSqlx
  | Hash hash_error
  | Serde
  | UnknownKey string
  | ChainBroken int string string
  | NotFoundId int
  | Unavailable string
  | Panicked

record audit_query =
  q_since :: "int option"
  q_until :: "int option"
  q_actor :: "string option"
  q_category :: "category option"
  q_tenant :: "string option"
  q_limit :: nat

definition query_recent :: "nat \<Rightarrow> audit_query" where
  "query_recent n = \<lparr>q_since = None, q_until = None, q_actor = None, q_category = None,
     q_tenant = None, q_limit = n\<rparr>"

record chain_verdict =
  cv_ok :: bool
  cv_checked :: nat
  cv_broken_at :: "int option"
  cv_expected :: "string option"
  cv_actual :: "string option"

section \<open>The in-memory sink\<close>

record mem_audit =
  ma_rows :: "audit_row list"
  ma_next_id :: int
  ma_key :: bytes
  ma_key_id :: string
  ma_keys :: "string \<rightharpoonup> bytes"

definition mem_audit_new :: "bytes \<Rightarrow> string \<Rightarrow> mem_audit" where
  "mem_audit_new key key_id =
    \<lparr>ma_rows = [], ma_next_id = 1, ma_key = key, ma_key_id = key_id, ma_keys = [key_id \<mapsto> key]\<rparr>"

definition mem_audit_for_tests :: mem_audit where
  "mem_audit_for_tests = mem_audit_new ''test-hmac-key-32-bytes-long!!!!!!'' ''v1''"

definition register_and_activate :: "string \<Rightarrow> bytes \<Rightarrow> mem_audit \<Rightarrow> mem_audit" where
  "register_and_activate new_id new_key s =
    s\<lparr>ma_keys := (ma_keys s)(new_id \<mapsto> new_key), ma_key := new_key, ma_key_id := new_id\<rparr>"

definition tenant_of :: "audit_event \<Rightarrow> string option" where
  "tenant_of e = (case ev_subject e of None \<Rightarrow> None | Some s \<Rightarrow> sub_tenant s)"

definition resolve_key :: "mem_audit \<Rightarrow> string \<Rightarrow> (audit_error, bytes) result" where
  "resolve_key s key_id =
    (if key_id = ma_key_id s then Inr (ma_key s)
     else (case ma_keys s key_id of None \<Rightarrow> Inl (UnknownKey key_id) | Some k \<Rightarrow> Inr k))"

definition mem_audit_append :: "crypto \<Rightarrow> audit_event \<Rightarrow> mem_audit \<Rightarrow> mem_audit \<times> (audit_error, int) result" where
  "mem_audit_append C e s =
    (let prev = (if ma_rows s = [] then GENESIS_PREV else ar_row_hash (last (ma_rows s))) in
     if length prev \<noteq> 32 then (s, Inl Panicked)
     else (case compute_row_hash C (ma_key s) prev e (ma_key_id s) of
       Inl x \<Rightarrow> (s, Inl (Hash x))
     | Inr h \<Rightarrow>
         (s\<lparr>ma_next_id := ma_next_id s + 1,
            ma_rows := ma_rows s @ [\<lparr>ar_id = ma_next_id s, ar_event = e, ar_tenant = tenant_of e,
              ar_prev_hash = Some prev, ar_row_hash = h, ar_key_id = ma_key_id s\<rparr>]\<rparr>,
          Inr (ma_next_id s))))"

definition query_matches :: "audit_query \<Rightarrow> audit_row \<Rightarrow> bool" where
  "query_matches q r \<longleftrightarrow>
    (case q_since q of None \<Rightarrow> True | Some t \<Rightarrow> \<not> ev_at (ar_event r) < t) \<and>
    (case q_until q of None \<Rightarrow> True | Some t \<Rightarrow> \<not> ev_at (ar_event r) > t) \<and>
    (case q_actor q of None \<Rightarrow> True | Some a \<Rightarrow> actor_sub (ev_actor (ar_event r)) = a) \<and>
    (case q_category q of None \<Rightarrow> True | Some c \<Rightarrow> ev_category (ar_event r) = c) \<and>
    (case q_tenant q of None \<Rightarrow> True | Some t \<Rightarrow> ar_tenant r = Some t)"

definition mem_audit_query :: "audit_query \<Rightarrow> mem_audit \<Rightarrow> audit_row list" where
  "mem_audit_query q s = take (if q_limit q = 0 then 100 else q_limit q)
     (filter (query_matches q) (rev (ma_rows s)))"

definition mem_audit_get :: "int \<Rightarrow> mem_audit \<Rightarrow> (audit_error, audit_row) result" where
  "mem_audit_get i s = (case find (\<lambda>r. ar_id r = i) (ma_rows s) of None \<Rightarrow> Inl (NotFoundId i) | Some r \<Rightarrow> Inr r)"

definition broken :: "nat \<Rightarrow> audit_row \<Rightarrow> string option \<Rightarrow> string option \<Rightarrow> chain_verdict" where
  "broken checked r want got = \<lparr>cv_ok = False, cv_checked = checked, cv_broken_at = Some (ar_id r),
     cv_expected = want, cv_actual = got\<rparr>"

text \<open>
  The loop both sinks run; they differ in what they report for a missing stored hash
  (\<open>no_prev\<close>).
\<close>

fun chain_loop :: "crypto \<Rightarrow> (string \<Rightarrow> (audit_error, bytes) result) \<Rightarrow> string option \<Rightarrow> audit_row list \<Rightarrow>
    bytes \<Rightarrow> nat \<Rightarrow> (audit_error, chain_verdict) result" where
  "chain_loop C keys no_prev [] prev checked =
    Inr \<lparr>cv_ok = True, cv_checked = checked, cv_broken_at = None, cv_expected = None, cv_actual = None\<rparr>"
| "chain_loop C keys no_prev (r # rs) prev checked = (case keys (ar_key_id r) of
     Inl e \<Rightarrow> Inl e
   | Inr key \<Rightarrow>
       if length prev \<noteq> 32 then
         Inr (broken checked r (Some (hex_encode C prev))
           (case ar_prev_hash r of None \<Rightarrow> no_prev | Some h \<Rightarrow> Some (hex_encode C h)))
       else if ar_prev_hash r \<noteq> None \<and> ar_prev_hash r \<noteq> Some prev then
         Inr (broken checked r (Some (hex_encode C prev)) (map_option (hex_encode C) (ar_prev_hash r)))
       else (case compute_row_hash C key prev (ar_event r) (ar_key_id r) of
         Inl e \<Rightarrow> Inl (Hash e)
       | Inr want \<Rightarrow>
           if want \<noteq> ar_row_hash r
           then Inr (broken checked r (Some (hex_encode C want)) (Some (hex_encode C (ar_row_hash r))))
           else chain_loop C keys no_prev rs (ar_row_hash r) (checked + 1)))"

definition chain_seed :: "int \<Rightarrow> audit_row list \<Rightarrow> audit_row list \<Rightarrow> bytes" where
  "chain_seed from rows slice = (case find (\<lambda>r. ar_id r < from) (rev rows) of
     Some before \<Rightarrow> ar_row_hash before
   | None \<Rightarrow>
       if from > 1 then (case slice of [] \<Rightarrow> GENESIS_PREV
         | first # _ \<Rightarrow> (case ar_prev_hash first of None \<Rightarrow> GENESIS_PREV | Some ph \<Rightarrow> ph))
       else GENESIS_PREV)"

definition mem_verify_chain :: "crypto \<Rightarrow> int \<Rightarrow> int \<Rightarrow> mem_audit \<Rightarrow> (audit_error, chain_verdict) result" where
  "mem_verify_chain C from to_id s =
    (let slice = filter (\<lambda>r. from \<le> ar_id r \<and> ar_id r \<le> to_id) (ma_rows s) in
     chain_loop C (resolve_key s) (Some (hex_encode C [])) slice (chain_seed from (ma_rows s) slice) 0)"

section \<open>What verification decides\<close>

fun chained :: "crypto \<Rightarrow> (string \<Rightarrow> (audit_error, bytes) result) \<Rightarrow> audit_row list \<Rightarrow> bytes \<Rightarrow> bool" where
  "chained C keys [] prev \<longleftrightarrow> True"
| "chained C keys (r # rs) prev \<longleftrightarrow> length prev = 32 \<and> (ar_prev_hash r = None \<or> ar_prev_hash r = Some prev) \<and>
     (\<exists>key. keys (ar_key_id r) = Inr key \<and>
        compute_row_hash C key prev (ar_event r) (ar_key_id r) = Inr (ar_row_hash r)) \<and>
     chained C keys rs (ar_row_hash r)"

definition tip :: "bytes \<Rightarrow> audit_row list \<Rightarrow> bytes" where
  "tip prev rs = (if rs = [] then prev else ar_row_hash (last rs))"

lemma tip_simps [simp]:
  "tip prev [] = prev" "tip prev (r # rs) = tip (ar_row_hash r) rs"
  "tip prev (rs @ [r]) = ar_row_hash r"
  by (simp_all add: tip_def)

lemma tip_append [simp]: "tip prev (xs @ ys) = tip (tip prev xs) ys"
  by (induction xs arbitrary: prev) simp_all

lemma chained_append: "chained C keys (xs @ ys) prev \<longleftrightarrow> chained C keys xs prev \<and> chained C keys ys (tip prev xs)"
  by (induction xs arbitrary: prev) auto

lemma chained_drop: "chained C keys xs prev \<Longrightarrow> chained C keys (drop n xs) (tip prev (take n xs))"
  using chained_append [of C keys "take n xs" "drop n xs" prev] by simp

lemma chained_take: "chained C keys xs prev \<Longrightarrow> chained C keys (take n xs) prev"
  using chained_append [of C keys "take n xs" "drop n xs" prev] by simp

lemma chain_loop_chained:
  "chained C keys rs prev \<Longrightarrow> chain_loop C keys np rs prev n =
    Inr \<lparr>cv_ok = True, cv_checked = n + length rs, cv_broken_at = None, cv_expected = None, cv_actual = None\<rparr>"
  by (induction rs arbitrary: prev n) (auto simp: Let_def)

lemma chain_loop_ok:
  "chain_loop C keys np rs prev n = Inr v \<Longrightarrow> cv_ok v \<Longrightarrow> chained C keys rs prev \<and> cv_checked v = n + length rs"
proof (induction rs arbitrary: prev n)
  case (Cons r rs)
  obtain key where key: "keys (ar_key_id r) = Inr key"
    using Cons.prems by (cases "keys (ar_key_id r)") auto
  have len: "length prev = 32" and ph: "ar_prev_hash r = None \<or> ar_prev_hash r = Some prev"
    using Cons.prems key by (auto simp: broken_def split: if_splits sum.splits)
  then obtain h where h: "compute_row_hash C key prev (ar_event r) (ar_key_id r) = Inr h"
    using Cons.prems key by (cases "compute_row_hash C key prev (ar_event r) (ar_key_id r)") auto
  have eq: "h = ar_row_hash r"
    using Cons.prems key len ph h by (auto simp: broken_def split: if_splits)
  then have "chain_loop C keys np rs (ar_row_hash r) (n + 1) = Inr v"
    using Cons.prems key len ph h by auto
  from Cons.IH [OF this Cons.prems(2)] key len ph h eq show ?case
    by auto
qed auto

text \<open>A verdict of broken names the first row that does not continue the chain.\<close>

lemma chain_loop_broken:
  "chain_loop C keys np rs prev n = Inr v \<Longrightarrow> \<not> cv_ok v \<Longrightarrow>
    \<exists>pre r suf. rs = pre @ r # suf \<and> chained C keys pre prev \<and> \<not> chained C keys (pre @ [r]) prev \<and>
      cv_broken_at v = Some (ar_id r) \<and> cv_checked v = n + length pre"
proof (induction rs arbitrary: prev n)
  case (Cons r rs)
  show ?case
  proof (cases "chained C keys [r] prev")
    case True
    then have "chain_loop C keys np rs (ar_row_hash r) (n + 1) = Inr v"
      using Cons.prems by auto
    from Cons.IH [OF this Cons.prems(2)] obtain pre r' suf where
      "rs = pre @ r' # suf" "chained C keys pre (ar_row_hash r)"
      "\<not> chained C keys (pre @ [r']) (ar_row_hash r)" "cv_broken_at v = Some (ar_id r')"
      "cv_checked v = n + 1 + length pre"
      by blast
    with True show ?thesis
      by (intro exI [of _ "r # pre"] exI [of _ r'] exI [of _ suf]) auto
  next
    case False
    have "cv_broken_at v = Some (ar_id r) \<and> cv_checked v = n"
      using Cons.prems False
      by (auto simp: broken_def split: sum.splits if_splits option.splits)
    with False show ?thesis
      by (intro exI [of _ "[]"] exI [of _ r] exI [of _ rs]) auto
  qed
qed auto

section \<open>The in-memory log\<close>

definition hmac_32 :: "crypto \<Rightarrow> bool" where
  "hmac_32 C \<longleftrightarrow> (\<forall>k d h. hmac C k d = Some h \<longrightarrow> length h = 32)"

definition log_ok :: "crypto \<Rightarrow> mem_audit \<Rightarrow> bool" where
  "log_ok C s \<longleftrightarrow> chained C (resolve_key s) (ma_rows s) GENESIS_PREV \<and>
     map ar_id (ma_rows s) = map (\<lambda>i. int i + 1) [0..<length (ma_rows s)] \<and>
     ma_next_id s = int (length (ma_rows s)) + 1 \<and> length (tip GENESIS_PREV (ma_rows s)) = 32 \<and>
     ma_keys s (ma_key_id s) = Some (ma_key s) \<and>
     (\<forall>r \<in> set (ma_rows s). ma_keys s (ar_key_id r) \<noteq> None)"

inductive audit_step :: "crypto \<Rightarrow> mem_audit \<Rightarrow> mem_audit \<Rightarrow> bool" for C where
  append: "audit_step C s (fst (mem_audit_append C e s))"
| rotate: "ma_keys s new_id = None \<Longrightarrow> audit_step C s (register_and_activate new_id new_key s)"

lemma log_ok_new: "log_ok C (mem_audit_new key key_id)"
  by (simp add: log_ok_def mem_audit_new_def GENESIS_PREV_def)

lemma compute_row_hash_32: "hmac_32 C \<Longrightarrow> compute_row_hash C k p e i = Inr h \<Longrightarrow> length h = 32"
  by (auto simp: compute_row_hash_def hmac_32_def split: option.splits)

lemma mem_append_eq:
  "mem_audit_append C e s =
    (if length (tip GENESIS_PREV (ma_rows s)) \<noteq> 32 then (s, Inl Panicked)
     else (case compute_row_hash C (ma_key s) (tip GENESIS_PREV (ma_rows s)) e (ma_key_id s) of
       Inl x \<Rightarrow> (s, Inl (Hash x))
     | Inr h \<Rightarrow> (s\<lparr>ma_next_id := ma_next_id s + 1,
          ma_rows := ma_rows s @ [\<lparr>ar_id = ma_next_id s, ar_event = e, ar_tenant = tenant_of e,
            ar_prev_hash = Some (tip GENESIS_PREV (ma_rows s)), ar_row_hash = h, ar_key_id = ma_key_id s\<rparr>]\<rparr>,
        Inr (ma_next_id s))))"
  unfolding mem_audit_append_def tip_def Let_def by (rule refl)

lemma resolve_key_cong:
  "ma_key_id s' = ma_key_id s \<Longrightarrow> ma_key s' = ma_key s \<Longrightarrow> ma_keys s' = ma_keys s \<Longrightarrow>
    resolve_key s' = resolve_key s"
  by (simp add: fun_eq_iff resolve_key_def)

lemma append_log_ok:
  assumes "hmac_32 C" "log_ok C s"
  shows "log_ok C (fst (mem_audit_append C e s))"
proof (cases "compute_row_hash C (ma_key s) (tip GENESIS_PREV (ma_rows s)) e (ma_key_id s)")
  case (Inl x)
  with assms(2) show ?thesis
    by (simp add: mem_append_eq)
next
  case (Inr h)
  have rk: "resolve_key (s\<lparr>ma_next_id := n, ma_rows := rs\<rparr>) = resolve_key s" for n rs
    by (rule resolve_key_cong) simp_all
  show ?thesis
    using assms(2) Inr compute_row_hash_32 [OF assms(1) Inr]
    by (auto simp: mem_append_eq log_ok_def rk chained_append resolve_key_def)
qed

lemma chained_keys_cong:
  "(\<And>r. r \<in> set rs \<Longrightarrow> keys' (ar_key_id r) = keys (ar_key_id r)) \<Longrightarrow>
    chained C keys' rs prev = chained C keys rs prev"
  by (induction rs arbitrary: prev) auto

lemma rotate_log_ok:
  assumes "log_ok C s" "ma_keys s new_id = None"
  shows "log_ok C (register_and_activate new_id new_key s)"
proof -
  have keys: "resolve_key (register_and_activate new_id new_key s) (ar_key_id r) = resolve_key s (ar_key_id r)"
    if "r \<in> set (ma_rows s)" for r
    using assms that by (auto simp: log_ok_def register_and_activate_def resolve_key_def)
  have "chained C (resolve_key (register_and_activate new_id new_key s)) (ma_rows s) GENESIS_PREV"
    using assms(1) chained_keys_cong [of "ma_rows s" "resolve_key (register_and_activate new_id new_key s)"
        "resolve_key s" C GENESIS_PREV, OF keys] by (simp add: log_ok_def)
  then show ?thesis
    using assms by (auto simp: log_ok_def register_and_activate_def)
qed

lemma audit_steps_ok:
  assumes "(audit_step C)\<^sup>*\<^sup>* s s'" "hmac_32 C" "log_ok C s"
  shows "log_ok C s'"
  using assms by (induction rule: rtranclp_induct)
    (auto elim!: audit_step.cases intro: append_log_ok rotate_log_ok)

lemma id_slice:
  "map ar_id rows = map (\<lambda>i. int i + 1) [0..<length rows] \<Longrightarrow> 1 \<le> from \<Longrightarrow>
    filter (\<lambda>r. from \<le> ar_id r \<and> ar_id r \<le> to_id) rows = drop (nat (from - 1)) (take (nat to_id) rows)"
proof (induction rows rule: rev_induct)
  case (snoc r rows)
  then have id: "ar_id r = int (length rows) + 1" and ids: "map ar_id rows = map (\<lambda>i. int i + 1) [0..<length rows]"
    by simp_all
  note IH = snoc.IH [OF ids snoc.prems(2)]
  show ?case
  proof (cases "ar_id r \<le> to_id")
    case True
    then have "nat to_id \<ge> Suc (length rows)"
      using id by linarith
    then show ?thesis
      using IH True id snoc.prems(2) by (cases "from \<le> ar_id r") (auto simp: nat_le_iff)
  next
    case False
    then have "nat to_id \<le> length rows"
      using id by linarith
    then show ?thesis
      using IH False by simp
  qed
qed simp

lemma seed_slice:
  assumes ids: "map ar_id rows = map (\<lambda>i. int i + 1) [0..<length rows]" and "1 \<le> from" "from \<le> int (length rows) + 1"
  shows "chain_seed from rows slice = tip GENESIS_PREV (take (nat (from - 1)) rows)"
  using assms
proof (induction rows rule: rev_induct)
  case Nil
  then show ?case by (simp add: chain_seed_def)
next
  case (snoc r rows)
  then have id: "ar_id r = int (length rows) + 1" and ids: "map ar_id rows = map (\<lambda>i. int i + 1) [0..<length rows]"
    by simp_all
  show ?case
  proof (cases "from \<le> int (length rows) + 1")
    case True
    then have "nat (from - 1) \<le> length rows"
      by linarith
    with snoc.IH [OF ids snoc.prems(2) True] True id show ?thesis
      by (simp add: chain_seed_def)
  next
    case False
    then have "nat (from - 1) = Suc (length rows)"
      using snoc.prems(3) by simp
    with False id show ?thesis
      by (simp add: chain_seed_def)
  qed
qed

lemma log_ok_verify:
  assumes "log_ok C s" "1 \<le> from"
  shows "mem_verify_chain C from to_id s =
    Inr \<lparr>cv_ok = True, cv_checked = length (filter (\<lambda>r. from \<le> ar_id r \<and> ar_id r \<le> to_id) (ma_rows s)),
      cv_broken_at = None, cv_expected = None, cv_actual = None\<rparr>"
proof -
  let ?rows = "ma_rows s" and ?slice = "filter (\<lambda>r. from \<le> ar_id r \<and> ar_id r \<le> to_id) (ma_rows s)"
  have ids: "map ar_id ?rows = map (\<lambda>i. int i + 1) [0..<length ?rows]"
    and ch: "chained C (resolve_key s) ?rows GENESIS_PREV"
    using assms(1) by (simp_all add: log_ok_def)
  have slice: "?slice = drop (nat (from - 1)) (take (nat to_id) ?rows)"
    by (rule id_slice [OF ids assms(2)])
  have "chained C (resolve_key s) ?slice (chain_seed from ?rows ?slice)"
  proof (cases "?slice = []")
    case False
    then have "nat (from - 1) < length ?rows" "nat (from - 1) \<le> nat to_id"
      unfolding slice by auto
    moreover from this have "from \<le> int (length ?rows) + 1"
      by linarith
    ultimately show ?thesis
      using chained_drop [OF chained_take [OF ch], of "nat (from - 1)" "nat to_id"]
        seed_slice [OF ids assms(2), of ?slice] slice by (simp add: min_def)
  qed simp
  then show ?thesis
    by (simp add: mem_verify_chain_def Let_def chain_loop_chained)
qed

section \<open>Tampering\<close>

text \<open>The keys and inputs the verification of a log feeds to the HMAC, and a clash between two logs.\<close>

fun hash_inputs :: "crypto \<Rightarrow> (string \<Rightarrow> (audit_error, bytes) result) \<Rightarrow> audit_row list \<Rightarrow> bytes \<Rightarrow>
    (bytes \<times> bytes) list" where
  "hash_inputs C keys [] prev = []"
| "hash_inputs C keys (r # rs) prev =
    (case (keys (ar_key_id r), canonical_bytes C (ar_event r) (ar_key_id r)) of
       (Inr k, Some c) \<Rightarrow> [(k, prev @ c)] | _ \<Rightarrow> []) @ hash_inputs C keys rs (ar_row_hash r)"

definition hmac_clash :: "crypto \<Rightarrow> (bytes \<times> bytes) list \<Rightarrow> (bytes \<times> bytes) list \<Rightarrow> bool" where
  "hmac_clash C xs ys \<longleftrightarrow> (\<exists>(k, d) \<in> set xs. \<exists>(k', d') \<in> set ys. d \<noteq> d' \<and> hmac C k d = hmac C k' d')"

lemma hash_inputs_append:
  "hash_inputs C keys (xs @ ys) prev = hash_inputs C keys xs prev @ hash_inputs C keys ys (tip prev xs)"
  by (induction xs arbitrary: prev) simp_all

lemma hmac_clash_append:
  "hmac_clash C xs ys \<Longrightarrow> hmac_clash C (xs @ xs') (ys @ ys')"
  "hmac_clash C xs' ys' \<Longrightarrow> hmac_clash C (xs @ xs') (ys @ ys')"
  unfolding hmac_clash_def set_append by blast+

definition same_row :: "crypto \<Rightarrow> audit_row \<Rightarrow> audit_row \<Rightarrow> bool" where
  "same_row C r r' \<longleftrightarrow> ar_row_hash r = ar_row_hash r' \<and>
     canonical_bytes C (ar_event r) (ar_key_id r) = canonical_bytes C (ar_event r') (ar_key_id r')"

lemma chained_last_agree:
  assumes "chained C ks [r] p" "chained C ks' [r'] p'" "ar_row_hash r = ar_row_hash r'"
    and "\<not> hmac_clash C (hash_inputs C ks [r] p) (hash_inputs C ks' [r'] p')"
  shows "p = p' \<and> same_row C r r'"
proof -
  obtain k c k' c' where c: "ks (ar_key_id r) = Inr k" "ks' (ar_key_id r') = Inr k'"
    "canonical_bytes C (ar_event r) (ar_key_id r) = Some c" "hmac C k (p @ c) = Some (ar_row_hash r)"
    "canonical_bytes C (ar_event r') (ar_key_id r') = Some c'" "hmac C k' (p' @ c') = Some (ar_row_hash r')"
    using assms(1,2) by (auto simp: compute_row_hash_def split: option.splits)
  then have "p @ c = p' @ c'"
    using assms(3,4) by (auto simp: hmac_clash_def)
  then show ?thesis
    using assms(1-3) c by (simp add: same_row_def)
qed

lemma chained_agree:
  "length rs = length rs' \<Longrightarrow> chained C ks rs p \<Longrightarrow> chained C ks' rs' p \<Longrightarrow> tip p rs = tip p rs' \<Longrightarrow>
    \<not> hmac_clash C (hash_inputs C ks rs p) (hash_inputs C ks' rs' p) \<Longrightarrow> list_all2 (same_row C) rs rs'"
proof (induction rs arbitrary: rs' rule: rev_induct)
  case (snoc r rs)
  then obtain xs r' where rs': "rs' = xs @ [r']" "length xs = length rs"
    by (metis length_Suc_conv_rev)
  have clash: "\<not> hmac_clash C (hash_inputs C ks [r] (tip p rs)) (hash_inputs C ks' [r'] (tip p xs))"
    "\<not> hmac_clash C (hash_inputs C ks rs p) (hash_inputs C ks' xs p)"
    using snoc.prems(5) unfolding rs' hash_inputs_append by (blast intro: hmac_clash_append)+
  have "tip p rs = tip p xs \<and> same_row C r r'"
    by (rule chained_last_agree [OF _ _ _ clash(1)])
      (use snoc.prems in \<open>auto simp: rs' chained_append\<close>)
  then show ?case
    using snoc.IH [OF rs'(2) [symmetric] _ _ _ clash(2)] snoc.prems
    by (simp add: rs' chained_append list_all2_appendI)
qed simp

lemma verified_all:
  assumes "mem_verify_chain C 1 to_id s = Inr v" "cv_ok v" "cv_checked v = length (ma_rows s)"
  shows "chained C (resolve_key s) (ma_rows s) GENESIS_PREV"
proof -
  let ?rows = "ma_rows s" and ?slice = "filter (\<lambda>r. 1 \<le> ar_id r \<and> ar_id r \<le> to_id) (ma_rows s)"
  have loop: "chained C (resolve_key s) ?slice (chain_seed 1 ?rows ?slice)" "length ?slice = length ?rows"
    using chain_loop_ok [OF assms(1) [unfolded mem_verify_chain_def Let_def] assms(2)] assms(3) by simp_all
  then have all: "?slice = ?rows"
    by (metis (no_types, lifting) filter_id_conv length_filter_less less_irrefl)
  then have "\<forall>r \<in> set ?rows. 1 \<le> ar_id r"
    by (metis (mono_tags, lifting) filter_id_conv)
  then have "find (\<lambda>r. ar_id r < 1) (rev ?rows) = None"
    by (auto simp: find_None_iff)
  then have "chain_seed 1 ?rows ?slice = GENESIS_PREV"
    by (simp add: chain_seed_def)
  with loop(1) all show ?thesis by simp
qed

definition relabel :: "(audit_row \<Rightarrow> string option) \<Rightarrow> (audit_row \<Rightarrow> string option) \<Rightarrow> mem_audit \<Rightarrow> mem_audit" where
  "relabel tenant role s = s\<lparr>ma_rows := map (\<lambda>r. r\<lparr>ar_tenant := tenant r,
     ar_event := (ar_event r)\<lparr>ev_actor := (ev_actor (ar_event r))\<lparr>actor_role := role r\<rparr>\<rparr>\<rparr>) (ma_rows s)\<rparr>"

lemma chain_loop_relabel:
  assumes "\<And>r. ar_id (f r) = ar_id r" "\<And>r. ar_prev_hash (f r) = ar_prev_hash r"
    "\<And>r. ar_row_hash (f r) = ar_row_hash r" "\<And>r. ar_key_id (f r) = ar_key_id r"
    "\<And>r k. payload_of (ar_event (f r)) k = payload_of (ar_event r) k"
  shows "chain_loop C keys np (map f rs) prev n = chain_loop C keys np rs prev n"
proof (induction rs arbitrary: prev n)
  case (Cons r rs)
  have "compute_row_hash C k p (ar_event (f r)) i = compute_row_hash C k p (ar_event r) i" for k p i
    by (simp add: compute_row_hash_def canonical_bytes_def assms(5))
  then show ?case
    by (simp add: assms(1-4) broken_def Cons.IH cong: sum.case_cong if_cong)
qed simp

section \<open>Properties\<close>

text \<open>C11. A log grown by appends and by rotations to new key ids verifies over every range: all
  its rows in the range are checked, whatever appends failed on the way.\<close>

theorem audit_log_verifies:
  assumes "hmac_32 C" "(audit_step C)\<^sup>*\<^sup>* (mem_audit_new key key_id) s" "1 \<le> from"
  shows "mem_verify_chain C from to_id s =
    Inr \<lparr>cv_ok = True, cv_checked = length (filter (\<lambda>r. from \<le> ar_id r \<and> ar_id r \<le> to_id) (ma_rows s)),
      cv_broken_at = None, cv_expected = None, cv_actual = None\<rparr>"
  by (rule log_ok_verify [OF audit_steps_ok [OF assms(2,1) log_ok_new] assms(3)])

text \<open>C10. The chain is tamper evident: two logs of the same length, however they came about, whose
  rows all verify and whose last rows carry the same hash, hold the same hashed content row by
  row, or the inputs hashed for the two logs contain two different ones with the same HMAC.\<close>

theorem audit_tamper_evident:
  assumes "mem_verify_chain C 1 n s = Inr v" "cv_ok v" "cv_checked v = length (ma_rows s)"
    and "mem_verify_chain C 1 n' s' = Inr v'" "cv_ok v'" "cv_checked v' = length (ma_rows s')"
    and "length (ma_rows s) = length (ma_rows s')" "ma_rows s \<noteq> []"
    and "ar_row_hash (last (ma_rows s)) = ar_row_hash (last (ma_rows s'))"
  shows "list_all2 (same_row C) (ma_rows s) (ma_rows s') \<or>
    hmac_clash C (hash_inputs C (resolve_key s) (ma_rows s) GENESIS_PREV)
      (hash_inputs C (resolve_key s') (ma_rows s') GENESIS_PREV)"
  using chained_agree [OF assms(7) verified_all [OF assms(1-3)] verified_all [OF assms(4-6)]] assms(7-9)
  by (cases "ma_rows s' = []") (auto simp: tip_def)

text \<open>The hash covers neither the role of the actor nor the tenant column: a log in which these
  are rewritten at will gets the same verdict, so rows can be moved out of sight of the
  queries by tenant without breaking the chain.\<close>

theorem audit_relabel_undetected:
  "mem_verify_chain C from to_id (relabel tenant role s) = mem_verify_chain C from to_id s"
proof -
  let ?f = "\<lambda>r. r\<lparr>ar_tenant := tenant r,
     ar_event := (ar_event r)\<lparr>ev_actor := (ev_actor (ar_event r))\<lparr>actor_role := role r\<rparr>\<rparr>\<rparr>"
  let ?P = "\<lambda>r. from \<le> ar_id r \<and> ar_id r \<le> to_id"
  have slice: "filter ?P (map ?f rs) = map ?f (filter ?P rs)" for rs
    by (induction rs) auto
  have seed: "chain_seed from (map ?f rs) (map ?f sl) = chain_seed from rs sl" for rs sl
  proof -
    have "find (\<lambda>r. ar_id r < from) (map ?f xs) = map_option ?f (find (\<lambda>r. ar_id r < from) xs)" for xs
      by (induction xs) auto
    from this [of "rev rs"] show ?thesis
      by (auto simp: chain_seed_def rev_map split: option.splits list.splits)
  qed
  have keys: "resolve_key (relabel tenant role s) = resolve_key s"
    by (rule resolve_key_cong) (simp_all add: relabel_def)
  have "chain_loop C k np (map ?f rs) prev c = chain_loop C k np rs prev c" for k np rs prev c
    by (rule chain_loop_relabel) (simp_all add: payload_of_def)
  then show ?thesis
    unfolding mem_verify_chain_def Let_def keys by (simp add: relabel_def slice seed)
qed

section \<open>Instances\<close>

definition demo_crypto :: crypto where
  "demo_crypto = \<lparr>to_vec = (\<lambda>p. Some (cp_action p @ cp_hmac_key_id p)),
     hmac = (\<lambda>k d. Some (take 32 (rev d @ k @ GENESIS_PREV))), hex_encode = id\<rparr>"

definition demo_log :: mem_audit where
  "demo_log = fst (mem_audit_append demo_crypto (event_success 5 Push ''manifest.push'' actor_system)
     (register_and_activate ''v2'' ''k2''
       (fst (mem_audit_append demo_crypto (event_success 3 Push ''blob.push'' actor_system)
         (mem_audit_new ''k1'' ''v1'')))))"

lemma demo_hmac: "hmac_32 demo_crypto"
  by (auto simp: hmac_32_def demo_crypto_def GENESIS_PREV_def)

lemma demo_log_reachable: "(audit_step demo_crypto)\<^sup>*\<^sup>* (mem_audit_new ''k1'' ''v1'') demo_log"
proof -
  let ?s0 = "mem_audit_new ''k1'' ''v1''"
  let ?s1 = "fst (mem_audit_append demo_crypto (event_success 3 Push ''blob.push'' actor_system) ?s0)"
  have "audit_step demo_crypto ?s0 ?s1"
    by (rule audit_step.append)
  moreover have "audit_step demo_crypto ?s1 (register_and_activate ''v2'' ''k2'' ?s1)"
    by (rule audit_step.rotate) code_simp
  moreover have "audit_step demo_crypto (register_and_activate ''v2'' ''k2'' ?s1) demo_log"
    unfolding demo_log_def by (rule audit_step.append)
  ultimately show ?thesis
    by (meson converse_rtranclp_into_rtranclp r_into_rtranclp)
qed

theorem audit_log_verifies_witness:
  "mem_verify_chain demo_crypto 1 2 demo_log =
    Inr \<lparr>cv_ok = True, cv_checked = 2, cv_broken_at = None, cv_expected = None, cv_actual = None\<rparr>"
proof -
  have "length (filter (\<lambda>r. 1 \<le> ar_id r \<and> ar_id r \<le> 2) (ma_rows demo_log)) = 2"
    by code_simp
  then show ?thesis
    using audit_log_verifies [OF demo_hmac demo_log_reachable, of 1 2] by simp
qed

theorem audit_tamper_evident_witness:
  "list_all2 (same_row demo_crypto) (ma_rows demo_log) (ma_rows (relabel ar_tenant (\<lambda>_. None) demo_log)) \<or>
    hmac_clash demo_crypto (hash_inputs demo_crypto (resolve_key demo_log) (ma_rows demo_log) GENESIS_PREV)
      (hash_inputs demo_crypto (resolve_key (relabel ar_tenant (\<lambda>_. None) demo_log))
        (ma_rows (relabel ar_tenant (\<lambda>_. None) demo_log)) GENESIS_PREV)"
proof (rule audit_tamper_evident)
  let ?v = "\<lparr>cv_ok = True, cv_checked = 2, cv_broken_at = None, cv_expected = None, cv_actual = None\<rparr>"
  show "mem_verify_chain demo_crypto 1 2 demo_log = Inr ?v"
    "mem_verify_chain demo_crypto 1 2 (relabel ar_tenant (\<lambda>_. None) demo_log) = Inr ?v"
    "cv_ok ?v" "cv_ok ?v" "cv_checked ?v = length (ma_rows demo_log)"
    "cv_checked ?v = length (ma_rows (relabel ar_tenant (\<lambda>_. None) demo_log))"
    "length (ma_rows demo_log) = length (ma_rows (relabel ar_tenant (\<lambda>_. None) demo_log))"
    "ma_rows demo_log \<noteq> []"
    "ar_row_hash (last (ma_rows demo_log)) = ar_row_hash (last (ma_rows (relabel ar_tenant (\<lambda>_. None) demo_log)))"
    by code_simp+
qed

end
