(* ===== verification/Audit_Export.thy ===== *)
theory Audit_Export
  imports Audit_Chain Object_Store
begin

text \<open>
  Merkle roots over audit rows (\<open>specton-audit/src/merkle.rs\<close>), the JSONL export
  (\<open>export.rs\<close>) and the checkpoints between exports (\<open>checkpoint.rs\<close>). SHA-256, the JSON
  encoder and decoder of one line, hexadecimal, zstd and the calendar are parameters.
\<close>

section \<open>Merkle roots\<close>

definition hash_pair :: "(bytes \<Rightarrow> bytes) \<Rightarrow> bytes \<Rightarrow> bytes \<Rightarrow> bytes" where
  "hash_pair sha left right = sha (left @ right)"

fun merkle_level :: "(bytes \<Rightarrow> bytes) \<Rightarrow> bytes list \<Rightarrow> bytes list" where
  "merkle_level sha [] = []"
| "merkle_level sha [left] = [hash_pair sha left left]"
| "merkle_level sha (left # right # level) = hash_pair sha left right # merkle_level sha level"

lemma length_merkle_level [simp]: "length (merkle_level sha xs) = (length xs + 1) div 2"
  by (induction sha xs rule: merkle_level.induct) auto

function merkle_loop :: "(bytes \<Rightarrow> bytes) \<Rightarrow> bytes list \<Rightarrow> bytes" where
  "merkle_loop sha level = (if 1 < length level then merkle_loop sha (merkle_level sha level) else hd level)"
  by pat_completeness auto
termination by (relation "measure (\<lambda>(sha, level). length level)") auto

declare merkle_loop.simps [simp del]

definition merkle_root :: "(bytes \<Rightarrow> bytes) \<Rightarrow> bytes list \<Rightarrow> bytes" where
  "merkle_root sha leaves = (if leaves = [] then GENESIS_PREV else merkle_loop sha leaves)"

definition as_hash32 :: "bytes \<Rightarrow> bytes option" where
  "as_hash32 b = (if length b \<noteq> 32 then None else Some b)"

section \<open>Export lines\<close>

datatype export_error =
    ExportAudit audit_error
  | ExportIo
  | ExportObjectStore os_error
  | ExportSerde
  | Empty
  | Zstd

record export_line =
  el_id :: int
  el_at :: int
  el_tenant :: "string option"
  el_category :: string
  el_action :: string
  el_actor_sub :: string
  el_actor_ip :: "string option"
  el_actor_ua :: "string option"
  el_subject :: "json option"
  el_outcome :: string
  el_error_code :: "string option"
  el_attributes :: "string \<rightharpoonup> json"
  el_prev_hash :: "string option"
  el_row_hash :: string
  el_hmac_key_id :: string

record codec =
  line_encode :: "export_line \<Rightarrow> bytes option"
  line_decode :: "bytes \<Rightarrow> export_line option"
  subject_value :: "subject \<Rightarrow> json option"
  hex_of :: "bytes \<Rightarrow> string"
  of_hex :: "string \<Rightarrow> bytes option"
  zstd :: "bytes \<Rightarrow> bytes option"
  sha256 :: "bytes \<Rightarrow> bytes"
  civil :: "int \<Rightarrow> nat \<times> nat \<times> nat \<times> nat"

definition line_of_row :: "codec \<Rightarrow> audit_row \<Rightarrow> export_line" where
  "line_of_row X r = (let e = ar_event r in
    \<lparr>el_id = ar_id r, el_at = ev_at e, el_tenant = ar_tenant r,
     el_category = category_as_str (ev_category e), el_action = ev_action e,
     el_actor_sub = actor_sub (ev_actor e), el_actor_ip = actor_ip (ev_actor e),
     el_actor_ua = actor_ua (ev_actor e),
     el_subject = (case ev_subject e of None \<Rightarrow> None | Some s \<Rightarrow> subject_value X s),
     el_outcome = outcome_as_str (ev_outcome e), el_error_code = outcome_error_code (ev_outcome e),
     el_attributes = ev_attributes e, el_prev_hash = map_option (hex_of X) (ar_prev_hash r),
     el_row_hash = hex_of X (ar_row_hash r), el_hmac_key_id = ar_key_id r\<rparr>)"

abbreviation newline :: char where
  "newline \<equiv> CHR 0x0A"

fun encode_jsonl :: "codec \<Rightarrow> audit_row list \<Rightarrow> (export_error, bytes) result" where
  "encode_jsonl X [] = Inr []"
| "encode_jsonl X (r # rs) = (case line_encode X (line_of_row X r) of
     None \<Rightarrow> Inl ExportSerde
   | Some l \<Rightarrow> map_sum id (\<lambda>rest. l @ newline # rest) (encode_jsonl X rs))"

definition maybe_compress :: "codec \<Rightarrow> bytes \<Rightarrow> bool \<Rightarrow> (export_error, bytes \<times> bool) result" where
  "maybe_compress X jsonl compress =
    (if \<not> compress then Inr (jsonl, False)
     else (case zstd X jsonl of None \<Rightarrow> Inl Zstd | Some b \<Rightarrow> Inr (b, True)))"

fun leaves_of :: "audit_row list \<Rightarrow> (export_error, bytes list) result" where
  "leaves_of [] = Inr []"
| "leaves_of (r # rs) = (case as_hash32 (ar_row_hash r) of
     None \<Rightarrow> Inl (ExportAudit (Unavailable ''non-32-byte hash''))
   | Some h \<Rightarrow> map_sum id (\<lambda>hs. h # hs) (leaves_of rs))"

definition root_for_rows :: "codec \<Rightarrow> audit_row list \<Rightarrow> (export_error, bytes) result" where
  "root_for_rows X rows = map_sum id (merkle_root (sha256 X)) (leaves_of rows)"

fun split_on :: "char \<Rightarrow> bytes \<Rightarrow> bytes list" where
  "split_on c [] = [[]]"
| "split_on c (x # xs) = (if x = c then [] # split_on c xs
     else (case split_on c xs of [] \<Rightarrow> [[x]] | l # ls \<Rightarrow> (x # l) # ls))"

fun parse_lines :: "codec \<Rightarrow> bytes list \<Rightarrow> (export_error, bytes list) result" where
  "parse_lines X [] = Inr []"
| "parse_lines X (l # ls) =
    (if l = [] then parse_lines X ls
     else (case line_decode X l of
       None \<Rightarrow> Inl ExportSerde
     | Some parsed \<Rightarrow> (case of_hex X (el_row_hash parsed) of
         None \<Rightarrow> Inl (ExportAudit (Unavailable ''hex''))
       | Some b \<Rightarrow> (case as_hash32 b of
           None \<Rightarrow> Inl (ExportAudit (Unavailable ''bad row_hash length''))
         | Some h \<Rightarrow> map_sum id (\<lambda>hs. h # hs) (parse_lines X ls)))))"

definition verify_export_bytes :: "codec \<Rightarrow> bytes \<Rightarrow> (export_error, bytes) result" where
  "verify_export_bytes X jsonl = (case parse_lines X (split_on newline jsonl) of
     Inl e \<Rightarrow> Inl e
   | Inr leaves \<Rightarrow> if leaves = [] then Inl Empty else Inr (merkle_root (sha256 X) leaves))"

definition content_digest :: "codec \<Rightarrow> bytes \<Rightarrow> string" where
  "content_digest X body = hex_of X (sha256 X body)"

section \<open>Exporting a range\<close>

definition show_int :: "int \<Rightarrow> string" where
  "show_int n = (if n < 0 then CHR ''-'' # show_nat (nat (- n)) else show_nat (nat n))"

text \<open>\<open>{:02}\<close>, and \<open>%Y\<close> for the years from 1000 on.\<close>

definition pad2 :: "nat \<Rightarrow> string" where
  "pad2 n = (if n < 10 then CHR ''0'' # show_nat n else show_nat n)"

definition export_object_key :: "codec \<Rightarrow> int \<Rightarrow> int \<Rightarrow> int \<Rightarrow> bool \<Rightarrow> string" where
  "export_object_key X at from to_id compressed =
    (let (y, m, d, h) = civil X at in
     ''audit/'' @ show_nat y @ ''/'' @ pad2 m @ ''/'' @ pad2 d @ ''/'' @ pad2 h @ ''-'' @ show_int from @ ''-'' @
     show_int to_id @ ''.'' @ (if compressed then ''jsonl.zst'' else ''jsonl''))"

record export_result =
  er_from :: int
  er_to :: int
  er_root :: string
  er_exported_to :: string
  er_row_count :: nat
  er_compressed :: bool

type_synonym 'w destination = "string \<Rightarrow> bytes \<Rightarrow> 'w \<Rightarrow> 'w \<times> (export_error, string) result"

definition memory_destination :: "(string \<times> bytes) list destination" where
  "memory_destination key body objs = (AList.update key body objs, Inr (''memory://'' @ key))"

definition trim_end_slashes :: "string \<Rightarrow> string" where
  "trim_end_slashes s = rev (dropWhile (\<lambda>c. c = CHR ''/'') (rev s))"

definition object_store_destination :: "('w, 'h, 'u) store_ops \<Rightarrow> string \<Rightarrow> 'w destination" where
  "object_store_destination S uri_prefix key body w = (case os_put S (os_path S key) body w of
     (w', Inl e) \<Rightarrow> (w', Inl (ExportObjectStore e))
   | (w', Inr _) \<Rightarrow> (w', Inr (trim_end_slashes uri_prefix @ ''/'' @ key)))"

fun fetch_rows :: "(int \<Rightarrow> (audit_error, audit_row) result) \<Rightarrow> int list \<Rightarrow> (export_error, audit_row list) result" where
  "fetch_rows get [] = Inr []"
| "fetch_rows get (i # is) = (case get i of
     Inr r \<Rightarrow> map_sum id (\<lambda>rs. r # rs) (fetch_rows get is)
   | Inl (NotFoundId _) \<Rightarrow> fetch_rows get is
   | Inl e \<Rightarrow> Inl (ExportAudit e))"

definition export_range :: "codec \<Rightarrow> (int \<Rightarrow> (audit_error, audit_row) result) \<Rightarrow> 'w destination \<Rightarrow> int \<Rightarrow> int \<Rightarrow>
    int \<Rightarrow> bool \<Rightarrow> 'w \<Rightarrow> 'w \<times> (export_error, export_result \<times> bytes \<times> audit_row list) result" where
  "export_range X get dest now from to_id compress w =
    (if to_id < from then (w, Inl Empty)
     else (case fetch_rows get [from..to_id] of
       Inl e \<Rightarrow> (w, Inl e)
     | Inr fetched \<Rightarrow>
         if fetched = [] then (w, Inl Empty)
         else (let rows = sort_key ar_id fetched; a = ar_id (hd rows); b = ar_id (last rows) in
           case root_for_rows X rows of
             Inl e \<Rightarrow> (w, Inl e)
           | Inr root \<Rightarrow> (case encode_jsonl X rows of
               Inl e \<Rightarrow> (w, Inl e)
             | Inr jsonl \<Rightarrow> (case maybe_compress X jsonl compress of
                 Inl e \<Rightarrow> (w, Inl e)
               | Inr (body, compressed) \<Rightarrow> (case dest (export_object_key X now a b compressed) body w of
                   (w', Inl e) \<Rightarrow> (w', Inl e)
                 | (w', Inr uri) \<Rightarrow> (w', Inr (\<lparr>er_from = a, er_to = b, er_root = hex_of X root,
                     er_exported_to = uri, er_row_count = length rows, er_compressed = compressed\<rparr>,
                     root, rows))))))))"

section \<open>Checkpoints\<close>

record checkpoint =
  cp_id :: int
  cp_from :: int
  cp_to :: int
  cp_root :: bytes
  cp_exported_to :: "string option"
  cp_made_at :: int

record checkpoint_store =
  cs_rows :: "checkpoint list"
  cs_next_id :: int

definition checkpoint_store_default :: checkpoint_store where
  "checkpoint_store_default = \<lparr>cs_rows = [], cs_next_id = 0\<rparr>"

definition checkpoint_last :: "checkpoint_store \<Rightarrow> checkpoint option" where
  "checkpoint_last cs = (if cs_rows cs = [] then None else Some (last (cs_rows cs)))"

definition checkpoint_insert :: "int \<Rightarrow> int \<Rightarrow> int \<Rightarrow> bytes \<Rightarrow> string \<Rightarrow> checkpoint_store \<Rightarrow> checkpoint_store" where
  "checkpoint_insert now from to_id root uri cs =
    (let i = cs_next_id cs + 1 in
     cs\<lparr>cs_next_id := i, cs_rows := cs_rows cs @ [\<lparr>cp_id = i, cp_from = from, cp_to = to_id, cp_root = root,
       cp_exported_to = Some uri, cp_made_at = now\<rparr>]\<rparr>)"

text \<open>The Postgres store: ids come from a sequence, the last checkpoint is the one with the highest id.\<close>

definition pg_checkpoint_last :: "checkpoint_store \<Rightarrow> checkpoint option" where
  "pg_checkpoint_last cs = (if cs_rows cs = [] then None else Some (last (sort_key cp_id (cs_rows cs))))"

definition pg_checkpoint_insert :: "bool \<Rightarrow> int \<Rightarrow> int \<Rightarrow> int \<Rightarrow> bytes \<Rightarrow> string \<Rightarrow> checkpoint_store \<Rightarrow>
    checkpoint_store \<times> (export_error, checkpoint) result" where
  "pg_checkpoint_insert ok now from to_id root uri cs =
    (let i = cs_next_id cs + 1;
         cp = \<lparr>cp_id = i, cp_from = from, cp_to = to_id, cp_root = root, cp_exported_to = Some uri, cp_made_at = now\<rparr> in
     if ok then (cs\<lparr>cs_next_id := i, cs_rows := cs_rows cs @ [cp]\<rparr>, Inr cp)
     else (cs, Inl (ExportAudit AuditSqlx)))"

definition tip_id :: "(audit_query \<Rightarrow> (audit_error, audit_row list) result) \<Rightarrow> (export_error, int option) result" where
  "tip_id query = (case query (query_recent 1) of
     Inl e \<Rightarrow> Inl (ExportAudit e)
   | Inr rows \<Rightarrow> Inr (case rows of [] \<Rightarrow> None | r # _ \<Rightarrow> Some (ar_id r)))"

definition export_pending :: "codec \<Rightarrow> (int \<Rightarrow> (audit_error, audit_row) result) \<Rightarrow>
    (audit_query \<Rightarrow> (audit_error, audit_row list) result) \<Rightarrow> 'w destination \<Rightarrow> int \<Rightarrow> bool \<Rightarrow>
    checkpoint_store \<Rightarrow> 'w \<Rightarrow> checkpoint_store \<times> 'w \<times> (export_error, export_result) result" where
  "export_pending X get query dest now compress cs w =
    (let from = (case checkpoint_last cs of Some cp \<Rightarrow> cp_to cp + 1 | None \<Rightarrow> 1) in
     case tip_id query of
       Inl e \<Rightarrow> (cs, w, Inl e)
     | Inr None \<Rightarrow> (cs, w, Inl Empty)
     | Inr (Some to_id) \<Rightarrow>
         if to_id < from then (cs, w, Inl Empty)
         else (case export_range X get dest now from to_id compress w of
           (w', Inl e) \<Rightarrow> (cs, w', Inl e)
         | (w', Inr (result, root, _)) \<Rightarrow>
             (checkpoint_insert now (er_from result) (er_to result) root (er_exported_to result) cs, w', Inr result)))"

section \<open>What a root binds\<close>

text \<open>The inputs hashed on the way to a root.\<close>

fun level_inputs :: "bytes list \<Rightarrow> bytes list" where
  "level_inputs [] = []"
| "level_inputs [left] = [left @ left]"
| "level_inputs (left # right # level) = (left @ right) # level_inputs level"

function merkle_inputs :: "(bytes \<Rightarrow> bytes) \<Rightarrow> bytes list \<Rightarrow> bytes list" where
  "merkle_inputs sha level =
    (if 1 < length level then level_inputs level @ merkle_inputs sha (merkle_level sha level) else [])"
  by pat_completeness auto
termination by (relation "measure (\<lambda>(sha, level). length level)") auto

declare merkle_inputs.simps [simp del]

definition sha_clash :: "(bytes \<Rightarrow> bytes) \<Rightarrow> bytes list \<Rightarrow> bytes list \<Rightarrow> bool" where
  "sha_clash sha xs ys \<longleftrightarrow> (\<exists>x \<in> set xs. \<exists>y \<in> set ys. x \<noteq> y \<and> sha x = sha y)"

lemma sha_clash_append:
  "sha_clash sha xs ys \<Longrightarrow> sha_clash sha (xs @ xs') (ys @ ys')"
  "sha_clash sha xs' ys' \<Longrightarrow> sha_clash sha (xs @ xs') (ys @ ys')"
  unfolding sha_clash_def set_append by blast+

lemma merkle_level_inj:
  assumes "length xs = length ys" "list_all (\<lambda>x. length x = n) xs" "list_all (\<lambda>x. length x = n) ys"
    and "merkle_level sha xs = merkle_level sha ys" "\<not> sha_clash sha (level_inputs xs) (level_inputs ys)"
  shows "xs = ys"
  using assms
proof (induction xs arbitrary: ys rule: level_inputs.induct)
  case (2 a)
  then obtain b where "ys = [b]"
    by (metis length_0_conv length_Suc_conv)
  with 2 show ?case
    by (auto simp: hash_pair_def sha_clash_def)
next
  case (3 a b level)
  then obtain c d ys' where ys: "ys = c # d # ys'" "length level = length ys'"
    by (auto simp: length_Suc_conv Suc_length_conv)
  have "a @ b = c @ d"
    using 3(5,6) by (auto simp: ys hash_pair_def sha_clash_def)
  moreover have "level = ys'"
    by (rule 3(1)) (use 3(3-6) ys in \<open>auto simp: sha_clash_def\<close>)
  ultimately show ?case
    using 3(3,4) by (simp add: ys)
qed simp

lemma merkle_loop_inj:
  assumes sha: "\<And>x. length (sha x) = 32"
  shows "length xs = length ys \<Longrightarrow> xs \<noteq> [] \<Longrightarrow> list_all (\<lambda>x. length x = 32) xs \<Longrightarrow>
    list_all (\<lambda>x. length x = 32) ys \<Longrightarrow> merkle_loop sha xs = merkle_loop sha ys \<Longrightarrow>
    \<not> sha_clash sha (merkle_inputs sha xs) (merkle_inputs sha ys) \<Longrightarrow> xs = ys"
proof (induction "length xs" arbitrary: xs ys rule: less_induct)
  case less
  have len32: "list_all (\<lambda>x. length x = 32) (merkle_level sha zs)" for zs
    by (induction zs rule: level_inputs.induct) (simp_all add: hash_pair_def sha)
  show ?case
  proof (cases "1 < length xs")
    case True
    then have loops: "merkle_loop sha (merkle_level sha xs) = merkle_loop sha (merkle_level sha ys)"
      using less.prems(1,5) by (simp add: merkle_loop.simps [of sha xs] merkle_loop.simps [of sha ys])
    have clash: "\<not> sha_clash sha (merkle_inputs sha (merkle_level sha xs)) (merkle_inputs sha (merkle_level sha ys))"
      "\<not> sha_clash sha (level_inputs xs) (level_inputs ys)"
      using less.prems(1,6) True
      unfolding merkle_inputs.simps [of sha xs] merkle_inputs.simps [of sha ys]
      by (auto intro: sha_clash_append)
    have "merkle_level sha xs = merkle_level sha ys"
    proof (rule less.hyps [OF _ _ _ len32 len32 loops clash(1)])
      show "merkle_level sha xs \<noteq> []"
        using True by (cases xs rule: level_inputs.cases) auto
    qed (use True less.prems(1) in simp_all)
    then show ?thesis
      by (rule merkle_level_inj [OF less.prems(1,3,4) _ clash(2)])
  next
    case False
    then obtain a b where "xs = [a]" "ys = [b]"
      using less.prems(1,2) by (metis One_nat_def length_0_conv length_Suc_conv less_one linorder_neqE_nat)
    then show ?thesis
      using less.prems(5) by (simp add: merkle_loop.simps)
  qed
qed

lemma merkle_level_odd:
  "odd (length xs) \<Longrightarrow> merkle_level sha (xs @ [last xs]) = merkle_level sha xs"
  by (induction sha xs rule: merkle_level.induct) auto

lemma merkle_root_odd:
  assumes "odd (length xs)" "1 < length xs"
  shows "merkle_root sha (xs @ [last xs]) = merkle_root sha xs"
proof -
  have "merkle_loop sha (xs @ [last xs]) = merkle_loop sha (merkle_level sha xs)"
    using assms(2) merkle_level_odd [OF assms(1)] by (cases xs) (simp_all add: merkle_loop.simps [of sha "_ # _ @ _"])
  also have "\<dots> = merkle_loop sha xs"
    using assms(2) by (simp add: merkle_loop.simps [of sha xs])
  finally show ?thesis
    using assms(2) by (auto simp: merkle_root_def)
qed

section \<open>Round trip\<close>

text \<open>
  What the export relies on: the line of a row serializes to nonempty compact JSON, in which a
  newline is escaped, and reads back; hexadecimal reads back.
\<close>

definition codec_ok :: "codec \<Rightarrow> bool" where
  "codec_ok X \<longleftrightarrow> (\<forall>r b. line_encode X (line_of_row X r) = Some b \<longrightarrow>
       line_decode X b = Some (line_of_row X r) \<and> newline \<notin> set b \<and> b \<noteq> []) \<and>
     (\<forall>b. of_hex X (hex_of X b) = Some b)"

lemma split_on_line: "c \<notin> set l \<Longrightarrow> split_on c (l @ c # rest) = l # split_on c rest"
  by (induction l) auto

lemma leaves_of_eq:
  "leaves_of rs = Inr hs \<Longrightarrow> hs = map ar_row_hash rs \<and> list_all (\<lambda>h. length h = 32) hs"
  by (induction rs arbitrary: hs) (auto simp: as_hash32_def map_sum_def split: option.splits if_splits sum.splits)

lemma leaves_of_ok:
  "list_all (\<lambda>r. length (ar_row_hash r) = 32) rs \<Longrightarrow> leaves_of rs = Inr (map ar_row_hash rs)"
  by (induction rs) (auto simp: as_hash32_def)

lemma parse_encoded:
  assumes "codec_ok X"
  shows "encode_jsonl X rs = Inr b \<Longrightarrow> leaves_of rs = Inr hs \<Longrightarrow> parse_lines X (split_on newline b) = Inr hs"
proof (induction rs arbitrary: b hs)
  case (Cons r rs)
  obtain l b' where l: "line_encode X (line_of_row X r) = Some l" "encode_jsonl X rs = Inr b'"
    "b = l @ newline # b'"
    using Cons.prems(1) by (cases "encode_jsonl X rs") (auto split: option.splits)
  obtain h hs' where h: "as_hash32 (ar_row_hash r) = Some h" "leaves_of rs = Inr hs'" "hs = h # hs'"
    using Cons.prems(2) by (cases "leaves_of rs") (auto split: option.splits)
  have ok: "line_decode X l = Some (line_of_row X r)" "newline \<notin> set l" "l \<noteq> []"
    "of_hex X (el_row_hash (line_of_row X r)) = Some (ar_row_hash r)"
    using assms l(1) unfolding codec_ok_def by (blast, blast, blast, simp add: line_of_row_def Let_def)
  have "split_on newline b = l # split_on newline b'"
    unfolding l(3) by (rule split_on_line [OF ok(2)])
  then show ?case
    using ok h Cons.IH [OF l(2) h(2)] by simp
qed simp

lemma verify_encoded:
  assumes "codec_ok X" "encode_jsonl X rs = Inr b" "root_for_rows X rs = Inr root" "rs \<noteq> []"
  shows "verify_export_bytes X b = Inr root"
proof -
  obtain hs where hs: "leaves_of rs = Inr hs" "root = merkle_root (sha256 X) hs"
    using assms(3) by (cases "leaves_of rs") (auto simp: root_for_rows_def)
  moreover have "hs \<noteq> []"
    using leaves_of_eq [OF hs(1)] assms(4) by simp
  ultimately show ?thesis
    using parse_encoded [OF assms(1,2) hs(1)] by (simp add: verify_export_bytes_def)
qed

section \<open>Pending exports\<close>

lemma fetch_all:
  "(\<And>i. i \<in> set is \<Longrightarrow> get i = Inr (f i)) \<Longrightarrow> fetch_rows get is = Inr (map f is)"
  by (induction "is") auto

lemma mem_audit_get_nth:
  assumes "map ar_id rows = map (\<lambda>i. int i + 1) [0..<length rows]" "j < length rows" "ma_rows s = rows"
  shows "mem_audit_get (int j + 1) s = Inr (rows ! j)"
proof -
  have ids: "ar_id (rows ! k) = int k + 1" if "k < length rows" for k
    using arg_cong [OF assms(1), of "\<lambda>l. l ! k"] that by simp
  have "find (\<lambda>r. ar_id r = int j + 1) rows = Some (rows ! j)"
    unfolding find_Some_iff using assms(2) ids by (auto intro!: exI [of _ j])
  then show ?thesis
    by (simp add: mem_audit_get_def assms(3))
qed

lemma fetch_suffix:
  assumes ids: "map ar_id rows = map (\<lambda>i. int i + 1) [0..<length rows]" and s: "ma_rows s = rows"
    and "k < length rows"
  shows "fetch_rows (\<lambda>i. mem_audit_get i s) [int k + 1..int (length rows)] = Inr (drop k rows)"
proof -
  have "fetch_rows (\<lambda>i. mem_audit_get i s) [int k + 1..int (length rows)] =
      Inr (map (\<lambda>i. rows ! nat (i - 1)) [int k + 1..int (length rows)])"
  proof (rule fetch_all)
    fix i assume "i \<in> set [int k + 1..int (length rows)]"
    then have "nat (i - 1) < length rows" "int (nat (i - 1)) + 1 = i"
      by auto
    with mem_audit_get_nth [OF ids _ s, of "nat (i - 1)"] show "mem_audit_get i s = Inr (rows ! nat (i - 1))"
      by simp
  qed
  also have "map (\<lambda>i. rows ! nat (i - 1)) [int k + 1..int (length rows)] = drop k rows"
    using assms(3) by (intro nth_equalityI) (auto simp: nat_add_distrib)
  finally show ?thesis .
qed

lemma suffix_sorted:
  assumes "map ar_id rows = map (\<lambda>i. int i + 1) [0..<length rows]"
  shows "sort_key ar_id (drop k rows) = drop k rows"
proof -
  have "sorted (map ar_id rows)"
    unfolding assms by (simp add: sorted_map sorted_wrt_mono_rel [of _ "(<)"])
  then have "sorted (map ar_id (drop k rows))"
    by (metis drop_map sorted_wrt_drop)
  then show ?thesis
    by (rule sort_key_id_if_sorted)
qed

lemma chained_hashes_32:
  "chained C keys rs prev \<Longrightarrow> length (tip prev rs) = 32 \<Longrightarrow> list_all (\<lambda>r. length (ar_row_hash r) = 32) rs"
proof (induction rs arbitrary: prev)
  case (Cons r rs)
  then show ?case
    by (cases rs) auto
qed simp

lemma mem_tip_id:
  assumes "log_ok C s" "ma_rows s \<noteq> []"
  shows "tip_id (\<lambda>q. Inr (mem_audit_query q s)) = Inr (Some (int (length (ma_rows s))))"
proof -
  obtain rs r where rows: "ma_rows s = rs @ [r]"
    using assms(2) by (meson rev_exhaust)
  then have "ar_id r = int (length (ma_rows s))"
    using assms(1) by (simp add: log_ok_def)
  then show ?thesis
    by (simp add: tip_id_def mem_audit_query_def query_recent_def query_matches_def rows)
qed

definition pending_from :: "checkpoint_store \<Rightarrow> int" where
  "pending_from cs = (case checkpoint_last cs of Some cp \<Rightarrow> cp_to cp + 1 | None \<Rightarrow> 1)"

lemma pending_after_insert: "pending_from (checkpoint_insert now from to_id root uri cs) = to_id + 1"
  by (simp add: pending_from_def checkpoint_insert_def checkpoint_last_def Let_def)

lemma root_after_insert:
  "\<exists>cp. checkpoint_last (checkpoint_insert now from to_id root uri cs) = Some cp \<and> cp_root cp = root"
  by (simp add: checkpoint_insert_def checkpoint_last_def Let_def)

text \<open>The two stores agree on tables whose ids ascend.\<close>

lemma pg_checkpoint_refines:
  assumes "sorted (map cp_id (cs_rows cs))"
  shows "pg_checkpoint_last cs = checkpoint_last cs"
    and "fst (pg_checkpoint_insert True now from to_id root uri cs) = checkpoint_insert now from to_id root uri cs"
  using sort_key_id_if_sorted [OF assms]
  by (simp_all add: pg_checkpoint_last_def checkpoint_last_def pg_checkpoint_insert_def checkpoint_insert_def Let_def)

lemma export_nothing_pending:
  assumes "log_ok C s" "ma_rows s \<noteq> []" "int (length (ma_rows s)) < pending_from cs"
  shows "export_pending X get (\<lambda>q. Inr (mem_audit_query q s)) dest now compress cs w = (cs, w, Inl Empty)"
  using assms mem_tip_id [OF assms(1,2)] by (simp add: export_pending_def pending_from_def)

lemma export_suffix:
  assumes ok: "log_ok C s" and k: "k < length (ma_rows s)" "pending_from cs = int k + 1"
    and enc: "encode_jsonl X (drop k (ma_rows s)) = Inr b"
    and dest: "dest (export_object_key X now (int k + 1) (int (length (ma_rows s))) False) b w = (w', Inr uri)"
  shows "export_pending X (\<lambda>i. mem_audit_get i s) (\<lambda>q. Inr (mem_audit_query q s)) dest now False cs w =
    (let root = merkle_root (sha256 X) (map ar_row_hash (drop k (ma_rows s))) in
     (checkpoint_insert now (int k + 1) (int (length (ma_rows s))) root uri cs, w',
      Inr \<lparr>er_from = int k + 1, er_to = int (length (ma_rows s)), er_root = hex_of X root,
        er_exported_to = uri, er_row_count = length (ma_rows s) - k, er_compressed = False\<rparr>))"
proof -
  let ?rows = "ma_rows s"
  have ids: "map ar_id ?rows = map (\<lambda>i. int i + 1) [0..<length ?rows]"
    using ok by (simp add: log_ok_def)
  have id: "ar_id (?rows ! j) = int j + 1" if "j < length ?rows" for j
    using arg_cong [OF ids, of "\<lambda>l. l ! j"] that by simp
  have hd: "ar_id (hd (drop k ?rows)) = int k + 1" and last: "ar_id (last (drop k ?rows)) = int (length ?rows)"
    using k(1) id [of k] id [of "length ?rows - 1"] by (simp_all add: hd_drop_conv_nth last_conv_nth)
  have "list_all (\<lambda>r. length (ar_row_hash r) = 32) ?rows"
    using chained_hashes_32 ok by (auto simp: log_ok_def)
  then have "leaves_of (drop k ?rows) = Inr (map ar_row_hash (drop k ?rows))"
    by (intro leaves_of_ok) (auto simp: list_all_iff dest: in_set_dropD)
  then have root: "root_for_rows X (drop k ?rows) = Inr (merkle_root (sha256 X) (map ar_row_hash (drop k ?rows)))"
    by (simp add: root_for_rows_def)
  have range: "export_range X (\<lambda>i. mem_audit_get i s) dest now (int k + 1) (int (length ?rows)) False w =
      (w', Inr (\<lparr>er_from = int k + 1, er_to = int (length ?rows),
         er_root = hex_of X (merkle_root (sha256 X) (map ar_row_hash (drop k ?rows))),
         er_exported_to = uri, er_row_count = length ?rows - k, er_compressed = False\<rparr>,
         merkle_root (sha256 X) (map ar_row_hash (drop k ?rows)), drop k ?rows))"
    using k(1) enc dest root hd last
    by (simp add: export_range_def fetch_suffix [OF ids refl k(1)] suffix_sorted [OF ids] maybe_compress_def Let_def)
  have "?rows \<noteq> []"
    using k(1) by auto
  then show ?thesis
    using k mem_tip_id [OF ok] range by (simp add: export_pending_def pending_from_def Let_def)
qed

section \<open>Properties\<close>

text \<open>C28. Export and check round trip: the body of an export, read back line by line, gives the
  Merkle root that was computed over the rows.\<close>

theorem export_verifies:
  assumes "codec_ok X" "rows \<noteq> []" "encode_jsonl X rows = Inr body" "root_for_rows X rows = Inr root"
  shows "verify_export_bytes X body = Inr root"
  by (rule verify_encoded [OF assms(1,3,4,2)])

text \<open>C29. A Merkle root binds the leaves once their number is known: two lists of 32-byte hashes of
  the same length with the same root are equal, or two of the inputs hashed on the way
  collide.\<close>

theorem merkle_root_binding:
  assumes "\<forall>x. length (sha x) = 32" "length xs = length ys"
    and "list_all (\<lambda>x. length x = 32) xs" "list_all (\<lambda>x. length x = 32) ys"
    and "merkle_root sha xs = merkle_root sha ys"
  shows "xs = ys \<or> sha_clash sha (merkle_inputs sha xs) (merkle_inputs sha ys)"
  using merkle_loop_inj [of sha xs ys] assms
  by (cases "xs = []"; cases "ys = []") (auto simp: merkle_root_def)

text \<open>The root does not bind the number of leaves. Repeating the last line of an export with an
  odd number of rows, more than one, leaves the checked root unchanged.\<close>

theorem duplicated_line_undetected:
  assumes "codec_ok X" "odd (length rows)" "1 < length rows"
    and "encode_jsonl X (rows @ [last rows]) = Inr body" "root_for_rows X rows = Inr root"
  shows "verify_export_bytes X body = Inr root"
proof -
  obtain hs where hs: "leaves_of rows = Inr hs" "root = merkle_root (sha256 X) hs"
    using assms(5) by (cases "leaves_of rows") (auto simp: root_for_rows_def)
  note hs' = leaves_of_eq [OF hs(1)]
  have "list_all (\<lambda>r. length (ar_row_hash r) = 32) (rows @ [last rows])"
    using hs' assms(3) by (cases rows rule: rev_cases) (auto simp: list_all_iff)
  then have "leaves_of (rows @ [last rows]) = Inr (hs @ [last hs])"
    using leaves_of_ok hs' assms(3) by (cases rows rule: rev_cases) auto
  moreover have "merkle_root (sha256 X) (hs @ [last hs]) = merkle_root (sha256 X) hs"
    using assms(2,3) hs' by (intro merkle_root_odd) simp_all
  ultimately have "root_for_rows X (rows @ [last rows]) = Inr root"
    by (simp add: root_for_rows_def hs(2))
  then show ?thesis
    by (rule verify_encoded [OF assms(1,4)]) simp
qed

text \<open>Exports are incremental and complete: with \<open>k\<close> rows exported so far, an export of a
  reachable log covers exactly the rows after them, records a checkpoint with their Merkle
  root, and leaves nothing pending.\<close>

theorem export_pending_exact:
  assumes "hmac_32 C" "(audit_step C)\<^sup>*\<^sup>* (mem_audit_new key key_id) s"
    and "k < length (ma_rows s)" "pending_from cs = int k + 1"
    and "encode_jsonl X (drop k (ma_rows s)) = Inr b"
    and "dest (export_object_key X now (int k + 1) (int (length (ma_rows s))) False) b w = (w', Inr uri)"
  shows "\<exists>cs' result. export_pending X (\<lambda>i. mem_audit_get i s) (\<lambda>q. Inr (mem_audit_query q s)) dest now False cs w =
      (cs', w', Inr result) \<and>
    er_from result = int k + 1 \<and> er_to result = int (length (ma_rows s)) \<and> er_row_count result = length (ma_rows s) - k \<and>
    map_option cp_root (checkpoint_last cs') = Some (merkle_root (sha256 X) (map ar_row_hash (drop k (ma_rows s)))) \<and>
    export_pending X (\<lambda>i. mem_audit_get i s) (\<lambda>q. Inr (mem_audit_query q s)) dest later compress cs' w' = (cs', w', Inl Empty)"
proof -
  have ok: "log_ok C s"
    by (rule audit_steps_ok [OF assms(2,1) log_ok_new])
  have "ma_rows s \<noteq> []"
    using assms(3) by auto
  then show ?thesis
    using export_suffix [where dest = dest and now = now and w = w, OF ok assms(3-6)] export_nothing_pending [OF ok, where X = X and dest = dest and now = later]
    by (simp add: Let_def pending_after_insert root_after_insert)
qed

section \<open>Instances\<close>

definition demo_line :: "string \<Rightarrow> export_line" where
  "demo_line h = \<lparr>el_id = 1, el_at = 5, el_tenant = None, el_category = ''push'', el_action = ''a'',
     el_actor_sub = ''system'', el_actor_ip = None, el_actor_ua = None, el_subject = None,
     el_outcome = ''success'', el_error_code = None, el_attributes = Map.empty, el_prev_hash = None,
     el_row_hash = h, el_hmac_key_id = ''v1''\<rparr>"

definition demo_row :: "bytes \<Rightarrow> audit_row" where
  "demo_row h = \<lparr>ar_id = 1, ar_event = event_success 5 Push ''a'' actor_system, ar_tenant = None,
     ar_prev_hash = None, ar_row_hash = h, ar_key_id = ''v1''\<rparr>"

definition demo_codec :: codec where
  "demo_codec = \<lparr>line_encode = (\<lambda>l. if l = demo_line (el_row_hash l) \<and> newline \<notin> set (el_row_hash l)
       then Some (CHR ''x'' # el_row_hash l) else None),
     line_decode = (\<lambda>b. Some (demo_line (tl b))), subject_value = (\<lambda>_. None), hex_of = id, of_hex = Some,
     zstd = Some, sha256 = (\<lambda>d. take 32 (d @ GENESIS_PREV)), civil = (\<lambda>_. (2026, 1, 2, 3))\<rparr>"

abbreviation demo_hash :: bytes where
  "demo_hash \<equiv> replicate 32 (CHR ''h'')"

lemma demo_codec_ok: "codec_ok demo_codec"
  by (auto simp: codec_ok_def demo_codec_def demo_line_def split: if_splits)

lemma demo_line_of_row: "line_of_row demo_codec (demo_row h) = demo_line h"
  by (simp add: line_of_row_def demo_row_def demo_line_def event_success_def actor_system_def demo_codec_def)

lemma demo_encode: "newline \<notin> set h \<Longrightarrow> line_encode demo_codec (demo_line h) = Some (CHR ''x'' # h)"
  by (simp add: demo_codec_def demo_line_def)

theorem export_verifies_witness:
  "verify_export_bytes demo_codec (CHR ''x'' # demo_hash @ [newline]) = Inr demo_hash"
proof (rule export_verifies [OF demo_codec_ok, where rows = "[demo_row demo_hash]"])
  show "encode_jsonl demo_codec [demo_row demo_hash] = Inr (CHR ''x'' # demo_hash @ [newline])"
    by (simp add: demo_line_of_row demo_encode)
  show "root_for_rows demo_codec [demo_row demo_hash] = Inr demo_hash"
    by (simp add: root_for_rows_def as_hash32_def demo_row_def merkle_root_def merkle_loop.simps)
qed simp

theorem merkle_root_binding_witness:
  "sha_clash (\<lambda>d. take 32 (d @ GENESIS_PREV)) (merkle_inputs (\<lambda>d. take 32 (d @ GENESIS_PREV)) [demo_hash, GENESIS_PREV])
      (merkle_inputs (\<lambda>d. take 32 (d @ GENESIS_PREV)) [demo_hash, demo_hash])"
proof -
  let ?sha = "\<lambda>d. take 32 (d @ GENESIS_PREV)"
  have "merkle_root ?sha [demo_hash, GENESIS_PREV] = merkle_root ?sha [demo_hash, demo_hash]"
    by (simp add: merkle_root_def merkle_loop.simps hash_pair_def)
  moreover have "GENESIS_PREV \<noteq> demo_hash"
    by code_simp
  ultimately show ?thesis
    using merkle_root_binding [of ?sha "[demo_hash, GENESIS_PREV]" "[demo_hash, demo_hash]"]
    by (auto simp: GENESIS_PREV_def min_def)
qed

theorem duplicated_line_undetected_witness:
  "let l = CHR ''x'' # demo_hash @ [newline] in
   verify_export_bytes demo_codec (l @ l @ l @ l) =
     Inr (merkle_root (sha256 demo_codec) [demo_hash, demo_hash, demo_hash])"
proof -
  let ?rows = "replicate 3 (demo_row demo_hash)"
  have "encode_jsonl demo_codec (?rows @ [last ?rows]) =
      (let l = CHR ''x'' # demo_hash @ [newline] in Inr (l @ l @ l @ l))"
    by (simp add: demo_line_of_row demo_encode numeral_3_eq_3)
  moreover have "root_for_rows demo_codec ?rows = Inr (merkle_root (sha256 demo_codec) [demo_hash, demo_hash, demo_hash])"
    by (simp add: root_for_rows_def as_hash32_def demo_row_def numeral_3_eq_3)
  ultimately show ?thesis
    using duplicated_line_undetected [OF demo_codec_ok, of ?rows] by (simp add: Let_def)
qed

definition plain_codec :: codec where
  "plain_codec = \<lparr>line_encode = (\<lambda>l. Some (el_row_hash l)), line_decode = (\<lambda>_. None),
     subject_value = (\<lambda>_. None), hex_of = id, of_hex = Some, zstd = Some, sha256 = id,
     civil = (\<lambda>_. (2026, 1, 2, 3))\<rparr>"

theorem export_pending_exact_witness:
  "\<exists>cs' w' result. export_pending plain_codec (\<lambda>i. mem_audit_get i demo_log) (\<lambda>q. Inr (mem_audit_query q demo_log))
      memory_destination 7 False checkpoint_store_default [] = (cs', w', Inr result) \<and> er_row_count result = 2"
proof -
  have enc: "encode_jsonl plain_codec (drop 0 (ma_rows demo_log)) =
      Inr (concat (map (\<lambda>r. ar_row_hash r @ [newline]) (ma_rows demo_log)))"
    by code_simp
  have len: "length (ma_rows demo_log) = 2" "0 < length (ma_rows demo_log)"
    by code_simp+
  have from_1: "pending_from checkpoint_store_default = int 0 + 1"
    by code_simp
  show ?thesis
    using export_pending_exact [OF demo_hmac demo_log_reachable len(2) from_1 enc,
        where dest = memory_destination and now = 7 and w = "[]", OF memory_destination_def] len(1)
    by fastforce
qed

end
