(* ===== verification/Audit_Postgres.thy ===== *)
theory Audit_Postgres
  imports Audit_Chain
begin

text \<open>
  The Postgres sink of the audit log (\<open>specton-audit/src/postgres.rs\<close>): the keyring,
  the columns of \<open>registry_audit_log\<close>, appending, reading and verification. A
  \<open>TIMESTAMPTZ\<close> holds microseconds, so an event comes back with its nanoseconds
  dropped. An append reads the tip of the chain and then inserts; the two steps are
  separate definitions, since transactions can interleave between them. A failing
  statement leaves the table alone but may have used up ids of the sequence.
\<close>

section \<open>Keyring\<close>

record keyring =
  kr_active :: string
  kr_keys :: "string \<rightharpoonup> bytes"

definition keyring_single :: "string \<Rightarrow> bytes \<Rightarrow> keyring" where
  "keyring_single i key = \<lparr>kr_active = i, kr_keys = [i \<mapsto> key]\<rparr>"

definition keyring_get :: "keyring \<Rightarrow> string \<Rightarrow> (audit_error, bytes) result" where
  "keyring_get kr i = (case kr_keys kr i of None \<Rightarrow> Inl (UnknownKey i) | Some k \<Rightarrow> Inr k)"

definition active_key :: "keyring \<Rightarrow> (audit_error, bytes) result" where
  "active_key kr = (case kr_keys kr (kr_active kr) of None \<Rightarrow> Inl (UnknownKey (kr_active kr)) | Some k \<Rightarrow> Inr k)"

definition keyring_rotate :: "string \<Rightarrow> bytes \<Rightarrow> keyring \<Rightarrow> keyring" where
  "keyring_rotate new_id new_key kr = \<lparr>kr_active = new_id, kr_keys = (kr_keys kr)(new_id \<mapsto> new_key)\<rparr>"

section \<open>The table\<close>

text \<open>\<open>attributes\<close> is \<open>None\<close> for JSON that is not an object.\<close>

record pg_row =
  pr_id :: int
  pr_at :: int
  pr_tenant :: "string option"
  pr_category :: string
  pr_action :: string
  pr_actor_sub :: string
  pr_actor_ip :: "string option"
  pr_actor_ua :: "string option"
  pr_subject :: "json option"
  pr_outcome :: string
  pr_error_code :: "string option"
  pr_attributes :: "(string \<rightharpoonup> json) option"
  pr_prev_hash :: "bytes option"
  pr_row_hash :: bytes
  pr_key_id :: string

record pg_audit =
  pa_rows :: "pg_row list"
  pa_next_id :: int
  pa_keyring :: keyring
  pa_key_rows :: "(string \<times> bool) list"

text \<open>\<open>ensure_key_row\<close>: the active key is the only one marked active.\<close>

definition ensure_key_row :: "pg_audit \<Rightarrow> pg_audit" where
  "ensure_key_row s = (let a = kr_active (pa_keyring s) in
     s\<lparr>pa_key_rows := map (\<lambda>(k, active). if k \<noteq> a then (k, False) else (k, active))
        (AList.update a True (pa_key_rows s))\<rparr>)"

definition rotate_key :: "string \<Rightarrow> bytes \<Rightarrow> pg_audit \<Rightarrow> pg_audit" where
  "rotate_key new_id new_key s = ensure_key_row (s\<lparr>pa_keyring := keyring_rotate new_id new_key (pa_keyring s)\<rparr>)"

definition opt_field :: "string \<Rightarrow> string option \<Rightarrow> (string \<times> json) list" where
  "opt_field k v = (case v of None \<Rightarrow> [] | Some s \<Rightarrow> [(k, String s)])"

definition subject_to_value :: "subject \<Rightarrow> json" where
  "subject_to_value s = Object (opt_field ''tenant'' (sub_tenant s) @ opt_field ''project'' (sub_project s) @
     opt_field ''repo'' (sub_repo s) @ opt_field ''reference'' (sub_reference s) @ opt_field ''digest'' (sub_digest s))"

definition de_opt_string :: "json option \<Rightarrow> (audit_error, string option) result" where
  "de_opt_string v = (case v of None \<Rightarrow> Inr None | Some Null \<Rightarrow> Inr None
     | Some (String s) \<Rightarrow> Inr (Some s) | Some _ \<Rightarrow> Inl Serde)"

definition subject_fields :: "json option \<Rightarrow> json option \<Rightarrow> json option \<Rightarrow> json option \<Rightarrow> json option \<Rightarrow>
    (audit_error, subject) result" where
  "subject_fields t p r f d = (case (de_opt_string t, de_opt_string p, de_opt_string r, de_opt_string f, de_opt_string d) of
     (Inr t', Inr p', Inr r', Inr f', Inr d') \<Rightarrow>
       Inr \<lparr>sub_tenant = t', sub_project = p', sub_repo = r', sub_reference = f', sub_digest = d'\<rparr>
   | _ \<Rightarrow> Inl Serde)"

text \<open>Deserialization of the derived struct, from an object or from an array in field order.\<close>

definition subject_from_value :: "json \<Rightarrow> (audit_error, subject) result" where
  "subject_from_value v = (case v of
     Object _ \<Rightarrow> subject_fields (json_get ''tenant'' v) (json_get ''project'' v) (json_get ''repo'' v)
       (json_get ''reference'' v) (json_get ''digest'' v)
   | Array vs \<Rightarrow> if length vs \<le> 5 then (let f = get_or None (map Some vs) in
       subject_fields (f 0) (f 1) (f 2) (f 3) (f 4)) else Inl Serde
   | _ \<Rightarrow> Inl Serde)"

definition row_from_db :: "pg_row \<Rightarrow> (audit_error, audit_row) result" where
  "row_from_db p = (case category_parse (pr_category p) of
     None \<Rightarrow> Inl (Unavailable ''unknown category'')
   | Some cat \<Rightarrow>
      (case (if pr_outcome p = ''success'' then Some Success
             else if pr_outcome p = ''failure''
             then Some (Failure (case pr_error_code p of None \<Rightarrow> ''unknown'' | Some c \<Rightarrow> c)) else None) of
         None \<Rightarrow> Inl (Unavailable ''unknown outcome'')
       | Some out \<Rightarrow>
          (case (case pr_subject p of None \<Rightarrow> Inr None | Some v \<Rightarrow> map_sum id Some (subject_from_value v)) of
             Inl e \<Rightarrow> Inl e
           | Inr sub \<Rightarrow> Inr \<lparr>ar_id = pr_id p,
               ar_event = \<lparr>ev_at = 1000 * pr_at p, ev_category = cat, ev_action = pr_action p,
                 ev_actor = \<lparr>actor_sub = pr_actor_sub p, actor_role = None, actor_ip = pr_actor_ip p,
                   actor_ua = pr_actor_ua p\<rparr>,
                 ev_subject = sub, ev_outcome = out,
                 ev_attributes = (case pr_attributes p of None \<Rightarrow> Map.empty | Some m \<Rightarrow> m)\<rparr>,
               ar_tenant = pr_tenant p, ar_prev_hash = pr_prev_hash p, ar_row_hash = pr_row_hash p,
               ar_key_id = pr_key_id p\<rparr>)))"

section \<open>Appending\<close>

definition newest :: "pg_row list \<Rightarrow> pg_row option" where
  "newest rows = (if rows = [] then None else Some (last (sort_key pr_id rows)))"

text \<open>
  The query for the tip ends in \<open>FOR UPDATE\<close>. It locks the row it returns: a second transaction waits,
  and at the default isolation level it then goes on with the row it waited for, not with a row inserted
  meanwhile; an empty table has no row to lock. So the model has no lock, and transactions that
  overlap are transactions that have read the same tip.
\<close>

definition pg_tip :: "pg_audit \<Rightarrow> bytes" where
  "pg_tip s = (case newest (pa_rows s) of
     Some p \<Rightarrow> if length (pr_row_hash p) = 32 then pr_row_hash p else GENESIS_PREV
   | None \<Rightarrow> GENESIS_PREV)"

definition stored_row :: "int \<Rightarrow> audit_event \<Rightarrow> bytes \<Rightarrow> bytes \<Rightarrow> string \<Rightarrow> pg_row" where
  "stored_row i e prev h key_id =
    \<lparr>pr_id = i, pr_at = ev_at e div 1000, pr_tenant = tenant_of e,
     pr_category = category_as_str (ev_category e), pr_action = ev_action e,
     pr_actor_sub = actor_sub (ev_actor e), pr_actor_ip = actor_ip (ev_actor e),
     pr_actor_ua = actor_ua (ev_actor e), pr_subject = map_option subject_to_value (ev_subject e),
     pr_outcome = outcome_as_str (ev_outcome e), pr_error_code = outcome_error_code (ev_outcome e),
     pr_attributes = Some (ev_attributes e), pr_prev_hash = Some prev, pr_row_hash = h, pr_key_id = key_id\<rparr>"

definition pg_insert :: "crypto \<Rightarrow> bytes \<Rightarrow> audit_event \<Rightarrow> pg_audit \<Rightarrow> pg_audit \<times> (audit_error, int) result" where
  "pg_insert C prev e s = (case active_key (pa_keyring s) of
     Inl x \<Rightarrow> (s, Inl x)
   | Inr key \<Rightarrow> (case compute_row_hash C key prev e (kr_active (pa_keyring s)) of
       Inl x \<Rightarrow> (s, Inl (Hash x))
     | Inr h \<Rightarrow> (s\<lparr>pa_next_id := pa_next_id s + 1,
          pa_rows := pa_rows s @ [stored_row (pa_next_id s) e prev h (kr_active (pa_keyring s))]\<rparr>,
        Inr (pa_next_id s))))"

text \<open>\<open>answer\<close> is \<open>None\<close> when the database answers, else the number of ids a failed transaction burned.\<close>

definition pg_append :: "crypto \<Rightarrow> nat option \<Rightarrow> audit_event \<Rightarrow> pg_audit \<Rightarrow> pg_audit \<times> (audit_error, int) result" where
  "pg_append C answer e s = (case answer of
     None \<Rightarrow> pg_insert C (pg_tip s) e s
   | Some gap \<Rightarrow> (s\<lparr>pa_next_id := pa_next_id s + int gap\<rparr>, Inl AuditSqlx))"

section \<open>Reading and verifying\<close>

definition pg_matches :: "audit_query \<Rightarrow> pg_row \<Rightarrow> bool" where
  "pg_matches q p \<longleftrightarrow>
    (case q_since q of None \<Rightarrow> True | Some t \<Rightarrow> t div 1000 \<le> pr_at p) \<and>
    (case q_until q of None \<Rightarrow> True | Some t \<Rightarrow> pr_at p \<le> t div 1000) \<and>
    (case q_actor q of None \<Rightarrow> True | Some a \<Rightarrow> pr_actor_sub p = a) \<and>
    (case q_category q of None \<Rightarrow> True | Some c \<Rightarrow> pr_category p = category_as_str c) \<and>
    (case q_tenant q of None \<Rightarrow> True | Some t \<Rightarrow> pr_tenant p = Some t)"

fun rows_from_db :: "pg_row list \<Rightarrow> (audit_error, audit_row list) result" where
  "rows_from_db [] = Inr []"
| "rows_from_db (p # ps) = (case row_from_db p of Inl e \<Rightarrow> Inl e
     | Inr r \<Rightarrow> map_sum id (\<lambda>rs. r # rs) (rows_from_db ps))"

definition pg_query :: "audit_query \<Rightarrow> pg_audit \<Rightarrow> (audit_error, audit_row list) result" where
  "pg_query q s = rows_from_db (take (if q_limit q = 0 then 100 else q_limit q)
     (rev (sort_key pr_id (filter (pg_matches q) (pa_rows s)))))"

definition pg_get :: "int \<Rightarrow> pg_audit \<Rightarrow> (audit_error, audit_row) result" where
  "pg_get i s = (case find (\<lambda>p. pr_id p = i) (pa_rows s) of None \<Rightarrow> Inl (NotFoundId i) | Some p \<Rightarrow> row_from_db p)"

text \<open>Rows are decoded one at a time, so a bad row is met only when the chain is good up to it.\<close>

fun pg_chain_loop :: "crypto \<Rightarrow> keyring \<Rightarrow> pg_row list \<Rightarrow> bytes \<Rightarrow> nat \<Rightarrow> (audit_error, chain_verdict) result" where
  "pg_chain_loop C kr [] prev checked = chain_loop C (keyring_get kr) None [] prev checked"
| "pg_chain_loop C kr (p # ps) prev checked = (case row_from_db p of
     Inl e \<Rightarrow> Inl e
   | Inr r \<Rightarrow> (case chain_loop C (keyring_get kr) None [r] prev checked of
       Inl e \<Rightarrow> Inl e
     | Inr v \<Rightarrow> if cv_ok v then pg_chain_loop C kr ps (ar_row_hash r) (checked + 1) else Inr v))"

definition pg_seed :: "int \<Rightarrow> pg_row list \<Rightarrow> bytes" where
  "pg_seed from rows = (if from > 1 then (case newest (filter (\<lambda>p. pr_id p < from) rows) of
       None \<Rightarrow> GENESIS_PREV | Some p \<Rightarrow> pr_row_hash p) else GENESIS_PREV)"

definition pg_verify_chain :: "crypto \<Rightarrow> int \<Rightarrow> int \<Rightarrow> pg_audit \<Rightarrow> (audit_error, chain_verdict) result" where
  "pg_verify_chain C from to_id s = pg_chain_loop C (pa_keyring s)
     (sort_key pr_id (filter (\<lambda>p. from \<le> pr_id p \<and> pr_id p \<le> to_id) (pa_rows s)))
     (pg_seed from (pa_rows s)) 0"

section \<open>Stored rows read back\<close>

lemma category_roundtrip [simp]: "category_parse (category_as_str c) = Some c"
  by (cases c) (simp_all add: category_parse_def)

lemma subject_roundtrip [simp]: "subject_from_value (subject_to_value s) = Inr s"
  by (cases s) (auto simp: subject_to_value_def subject_from_value_def subject_fields_def json_get_def
      opt_field_def de_opt_string_def split: option.splits)

definition read_back :: "audit_event \<Rightarrow> audit_event" where
  "read_back e = e\<lparr>ev_at := 1000 * (ev_at e div 1000), ev_actor := (ev_actor e)\<lparr>actor_role := None\<rparr>\<rparr>"

lemma row_roundtrip:
  "row_from_db (stored_row i e prev h k) = Inr \<lparr>ar_id = i, ar_event = read_back e, ar_tenant = tenant_of e,
     ar_prev_hash = Some prev, ar_row_hash = h, ar_key_id = k\<rparr>"
  by (cases e; cases "ev_actor e"; cases "ev_outcome e"; cases "ev_subject e")
    (auto simp: row_from_db_def stored_row_def read_back_def)

lemma read_back_payload: "1000 dvd ev_at e \<Longrightarrow> payload_of (read_back e) k = payload_of e k"
  by (auto simp: payload_of_def read_back_def)

lemma read_back_hash:
  "1000 dvd ev_at e \<Longrightarrow> compute_row_hash C key prev (read_back e) k = compute_row_hash C key prev e k"
  by (simp add: compute_row_hash_def canonical_bytes_def read_back_payload)

lemma chain_loop_Cons:
  "chain_loop C keys np (r # rs) prev n = (case chain_loop C keys np [r] prev n of
     Inl e \<Rightarrow> Inl e
   | Inr v \<Rightarrow> if cv_ok v then chain_loop C keys np rs (ar_row_hash r) (n + 1) else Inr v)"
  by (auto simp: broken_def split: sum.splits)

lemma pg_chain_loop_eq:
  "rows_from_db ps = Inr rs \<Longrightarrow> pg_chain_loop C kr ps prev n = chain_loop C (keyring_get kr) None rs prev n"
proof (induction ps arbitrary: rs prev n)
  case (Cons p ps)
  obtain r rs' where r: "row_from_db p = Inr r" "rows_from_db ps = Inr rs'" "rs = r # rs'"
    using Cons.prems by (cases "row_from_db p"; cases "rows_from_db ps") auto
  show ?case
    unfolding r(3) chain_loop_Cons [of C "keyring_get kr" None r rs'] pg_chain_loop.simps(2) r(1) sum.case
      Cons.IH [OF r(2)] by (rule refl)
qed simp

lemma rows_from_db_append:
  "rows_from_db (ps @ qs) = (case rows_from_db ps of Inl e \<Rightarrow> Inl e
     | Inr rs \<Rightarrow> map_sum id (\<lambda>ts. rs @ ts) (rows_from_db qs))"
  by (induction ps) (auto simp: map_sum_def split: sum.splits)

lemma row_from_db_fields:
  "row_from_db p = Inr r \<Longrightarrow> ar_id r = pr_id p \<and> ar_row_hash r = pr_row_hash p \<and> ar_key_id r = pr_key_id p"
  by (auto simp: row_from_db_def split: option.splits sum.splits)

lemma rows_from_db_fields:
  "rows_from_db ps = Inr rs \<Longrightarrow> map ar_id rs = map pr_id ps \<and> map ar_row_hash rs = map pr_row_hash ps"
proof (induction ps arbitrary: rs)
  case (Cons p ps)
  then show ?case
    using row_from_db_fields by (cases "row_from_db p"; cases "rows_from_db ps") force+
qed simp

section \<open>The invariant\<close>

definition pg_ok :: "crypto \<Rightarrow> pg_audit \<Rightarrow> bool" where
  "pg_ok C s \<longleftrightarrow> sorted_wrt (<) (map pr_id (pa_rows s)) \<and>
     list_all (\<lambda>p. 1 \<le> pr_id p \<and> pr_id p < pa_next_id s) (pa_rows s) \<and> 1 \<le> pa_next_id s \<and>
     kr_keys (pa_keyring s) (kr_active (pa_keyring s)) \<noteq> None \<and>
     (\<exists>rs. rows_from_db (pa_rows s) = Inr rs \<and> chained C (keyring_get (pa_keyring s)) rs GENESIS_PREV \<and>
        length (tip GENESIS_PREV rs) = 32 \<and> (\<forall>r \<in> set rs. kr_keys (pa_keyring s) (ar_key_id r) \<noteq> None))"

lemma sorted_rows:
  assumes "sorted_wrt (<) (map pr_id ps)"
  shows "sort_key pr_id ps = ps" "newest ps = (if ps = [] then None else Some (last ps))"
proof -
  have "sorted (map pr_id ps)"
    using assms by (simp add: strict_sorted_iff)
  then show "sort_key pr_id ps = ps"
    by (rule sort_key_id_if_sorted)
  then show "newest ps = (if ps = [] then None else Some (last ps))"
    by (simp add: newest_def)
qed

lemma pg_tip_eq:
  assumes "sorted_wrt (<) (map pr_id (pa_rows s))" "rows_from_db (pa_rows s) = Inr rs"
    and "length (tip GENESIS_PREV rs) = 32"
  shows "pg_tip s = tip GENESIS_PREV rs"
proof -
  have eq: "map ar_row_hash rs = map pr_row_hash (pa_rows s)"
    using rows_from_db_fields [OF assms(2)] by simp
  then have nil: "rs = [] \<longleftrightarrow> pa_rows s = []"
    by (metis map_is_Nil_conv)
  then have "rs \<noteq> [] \<Longrightarrow> ar_row_hash (last rs) = pr_row_hash (last (pa_rows s))"
    using eq by (metis last_map)
  with nil show ?thesis
    using assms(3) sorted_rows(2) [OF assms(1)] by (auto simp: pg_tip_def tip_def)
qed

lemma pg_okE:
  assumes "pg_ok C s"
  obtains rs key where "sorted_wrt (<) (map pr_id (pa_rows s))"
    "list_all (\<lambda>p. 1 \<le> pr_id p \<and> pr_id p < pa_next_id s) (pa_rows s)" "1 \<le> pa_next_id s"
    "kr_keys (pa_keyring s) (kr_active (pa_keyring s)) = Some key"
    "rows_from_db (pa_rows s) = Inr rs" "chained C (keyring_get (pa_keyring s)) rs GENESIS_PREV"
    "length (tip GENESIS_PREV rs) = 32" "\<forall>r \<in> set rs. kr_keys (pa_keyring s) (ar_key_id r) \<noteq> None"
    "pg_tip s = tip GENESIS_PREV rs"
  using assms pg_tip_eq unfolding pg_ok_def by fast

lemma pg_ok_new: "pg_ok C \<lparr>pa_rows = [], pa_next_id = 1, pa_keyring = keyring_single i k, pa_key_rows = ks\<rparr>"
  by (simp add: pg_ok_def keyring_single_def GENESIS_PREV_def)

lemma pg_insert_ok:
  assumes "hmac_32 C" "pg_ok C s" "1000 dvd ev_at e"
  shows "pg_ok C (fst (pg_insert C (pg_tip s) e s))"
  using assms(2)
proof (rule pg_okE)
  fix rs key
  assume inv: "sorted_wrt (<) (map pr_id (pa_rows s))"
    "list_all (\<lambda>p. 1 \<le> pr_id p \<and> pr_id p < pa_next_id s) (pa_rows s)" "1 \<le> pa_next_id s"
    "kr_keys (pa_keyring s) (kr_active (pa_keyring s)) = Some key"
    "rows_from_db (pa_rows s) = Inr rs" "chained C (keyring_get (pa_keyring s)) rs GENESIS_PREV"
    "length (tip GENESIS_PREV rs) = 32" "\<forall>r \<in> set rs. kr_keys (pa_keyring s) (ar_key_id r) \<noteq> None"
    "pg_tip s = tip GENESIS_PREV rs"
  let ?k = "kr_active (pa_keyring s)"
  have key: "active_key (pa_keyring s) = Inr key" "keyring_get (pa_keyring s) ?k = Inr key"
    using inv(4) by (simp_all add: active_key_def keyring_get_def)
  show ?thesis
  proof (cases "compute_row_hash C key (pg_tip s) e ?k")
    case (Inl x)
    with assms(2) key(1) show ?thesis
      by (simp add: pg_insert_def)
  next
    case (Inr h)
    have id: "pr_id (stored_row (pa_next_id s) e p h ?k) = pa_next_id s" for p
      by (simp add: stored_row_def)
    show ?thesis
      using inv key Inr compute_row_hash_32 [OF assms(1) Inr]
      by (auto simp: pg_insert_def pg_ok_def id rows_from_db_append row_roundtrip chained_append
          read_back_hash [OF assms(3)] sorted_wrt_append list_all_iff)
  qed
qed

lemma pg_append_ok:
  assumes "hmac_32 C" "pg_ok C s" "1000 dvd ev_at e"
  shows "pg_ok C (fst (pg_append C answer e s))"
proof (cases answer)
  case None
  then show ?thesis
    using pg_insert_ok [OF assms] by (simp add: pg_append_def)
next
  case (Some gap)
  then show ?thesis
    using assms(2) by (fastforce simp: pg_append_def pg_ok_def list_all_iff)
qed

lemma pg_rotate_ok:
  assumes "pg_ok C s" "kr_keys (pa_keyring s) new_id = None"
  shows "pg_ok C (rotate_key new_id new_key s)"
  using assms(1)
proof (rule pg_okE)
  fix rs key
  assume inv: "sorted_wrt (<) (map pr_id (pa_rows s))"
    "list_all (\<lambda>p. 1 \<le> pr_id p \<and> pr_id p < pa_next_id s) (pa_rows s)" "1 \<le> pa_next_id s"
    "kr_keys (pa_keyring s) (kr_active (pa_keyring s)) = Some key"
    "rows_from_db (pa_rows s) = Inr rs" "chained C (keyring_get (pa_keyring s)) rs GENESIS_PREV"
    "length (tip GENESIS_PREV rs) = 32" "\<forall>r \<in> set rs. kr_keys (pa_keyring s) (ar_key_id r) \<noteq> None"
    "pg_tip s = tip GENESIS_PREV rs"
  let ?kr = "keyring_rotate new_id new_key (pa_keyring s)"
  have keys: "keyring_get ?kr (ar_key_id r) = keyring_get (pa_keyring s) (ar_key_id r)" if "r \<in> set rs" for r
    using that inv(8) assms(2) by (auto simp: keyring_get_def keyring_rotate_def)
  have "chained C (keyring_get ?kr) rs GENESIS_PREV"
    using inv(6) chained_keys_cong [of rs "keyring_get ?kr" "keyring_get (pa_keyring s)" C GENESIS_PREV, OF keys]
    by simp
  moreover have "\<forall>r \<in> set rs. kr_keys ?kr (ar_key_id r) \<noteq> None"
    using inv(8) by (simp add: keyring_rotate_def)
  ultimately show ?thesis
    using inv by (simp add: pg_ok_def rotate_key_def ensure_key_row_def Let_def keyring_rotate_def)
qed

inductive pg_step :: "crypto \<Rightarrow> pg_audit \<Rightarrow> pg_audit \<Rightarrow> bool" for C where
  append: "1000 dvd ev_at e \<Longrightarrow> pg_step C s (fst (pg_append C answer e s))"
| rotate: "kr_keys (pa_keyring s) new_id = None \<Longrightarrow> pg_step C s (rotate_key new_id new_key s)"

definition pg_new :: "string \<Rightarrow> bytes \<Rightarrow> pg_audit" where
  "pg_new i k = \<lparr>pa_rows = [], pa_next_id = 1, pa_keyring = keyring_single i k, pa_key_rows = []\<rparr>"

lemma pg_steps_ok:
  assumes "(pg_step C)\<^sup>*\<^sup>* (pg_new i k) s" "hmac_32 C"
  shows "pg_ok C s"
  using assms(1)
proof (induction rule: rtranclp_induct)
  case base
  then show ?case by (simp add: pg_new_def pg_ok_new)
next
  case (step s s')
  then show ?case
    using pg_append_ok [OF assms(2)] pg_rotate_ok by (auto elim!: pg_step.cases)
qed

lemma pg_verify_eq:
  assumes "sorted_wrt (<) (map pr_id (pa_rows s))" "list_all (\<lambda>p. 1 \<le> pr_id p \<and> pr_id p \<le> n) (pa_rows s)"
    and "rows_from_db (pa_rows s) = Inr rs"
  shows "pg_verify_chain C 1 n s = chain_loop C (keyring_get (pa_keyring s)) None rs GENESIS_PREV 0"
proof -
  have "filter (\<lambda>p. 1 \<le> pr_id p \<and> pr_id p \<le> n) (pa_rows s) = pa_rows s"
    using assms(2) by (simp add: filter_id_conv list_all_iff)
  then show ?thesis
    using pg_chain_loop_eq [OF assms(3)] sorted_rows(1) [OF assms(1)]
    by (simp add: pg_verify_chain_def pg_seed_def)
qed

section \<open>Properties\<close>

text \<open>A sequence of appends, each over before the next begins, and key rotations.\<close>

datatype pg_op = PgAppend "nat option" audit_event | PgRotate string bytes

fun pg_apply :: "crypto \<Rightarrow> pg_op \<Rightarrow> pg_audit \<Rightarrow> pg_audit" where
  "pg_apply C (PgAppend answer e) s = fst (pg_append C answer e s)"
| "pg_apply C (PgRotate new_id new_key) s = rotate_key new_id new_key s"

definition pg_run :: "crypto \<Rightarrow> pg_op list \<Rightarrow> pg_audit \<Rightarrow> pg_audit" where
  "pg_run C ops s = fold (pg_apply C) ops s"

definition rotated_ids :: "pg_op list \<Rightarrow> string list" where
  "rotated_ids ops = filter_map (\<lambda>op. case op of PgRotate new_id _ \<Rightarrow> Some new_id | _ \<Rightarrow> None) ops"

lemma pg_append_keyring: "pa_keyring (fst (pg_append C answer e s)) = pa_keyring s"
  by (simp add: pg_append_def pg_insert_def split: option.split sum.split)

lemma pg_run_ok:
  assumes "hmac_32 C"
  shows "pg_ok C s \<Longrightarrow> \<forall>answer e. PgAppend answer e \<in> set ops \<longrightarrow> 1000 dvd ev_at e \<Longrightarrow> distinct (rotated_ids ops) \<Longrightarrow>
    \<forall>j \<in> set (rotated_ids ops). kr_keys (pa_keyring s) j = None \<Longrightarrow> pg_ok C (pg_run C ops s)"
proof (induction ops arbitrary: s)
  case (Cons op ops)
  show ?case
  proof (cases op)
    case (PgAppend answer e)
    have "pg_ok C (pg_run C ops (fst (pg_append C answer e s)))"
      by (rule Cons.IH) (use Cons.prems pg_append_ok [OF assms] in \<open>auto simp: PgAppend rotated_ids_def pg_append_keyring\<close>)
    then show ?thesis
      by (simp add: PgAppend pg_run_def)
  next
    case (PgRotate new_id new_key)
    have "pg_ok C (pg_run C ops (rotate_key new_id new_key s))"
    proof (rule Cons.IH)
      show "pg_ok C (rotate_key new_id new_key s)"
        using Cons.prems(1,4) by (intro pg_rotate_ok) (auto simp: PgRotate rotated_ids_def)
      show "\<forall>j \<in> set (rotated_ids ops). kr_keys (pa_keyring (rotate_key new_id new_key s)) j = None"
        using Cons.prems(3,4)
        by (auto simp: PgRotate rotated_ids_def rotate_key_def ensure_key_row_def Let_def keyring_rotate_def)
    qed (use Cons.prems in \<open>auto simp: PgRotate rotated_ids_def\<close>)
    then show ?thesis
      by (simp add: PgRotate pg_run_def)
  qed
qed (simp add: pg_run_def)

text \<open>C12. The Postgres log verifies: when appends come one after the other, every event has a time of
  whole microseconds and every key rotation goes to a key id not used before, verification of
  the whole range of the log succeeds and has checked every row, whichever of the appends failed
  and left gaps in the ids.\<close>

theorem pg_log_verifies:
  assumes "hmac_32 C" "\<forall>answer e. PgAppend answer e \<in> set ops \<longrightarrow> 1000 dvd ev_at e"
    and "distinct (i # rotated_ids ops)" "s = pg_run C ops (pg_new i k)"
  shows "pg_verify_chain C 1 (pa_next_id s) s = Inr \<lparr>cv_ok = True, cv_checked = length (pa_rows s),
    cv_broken_at = None, cv_expected = None, cv_actual = None\<rparr>"
proof -
  have "pg_ok C s"
    unfolding assms(4) pg_new_def
    by (rule pg_run_ok [OF assms(1) pg_ok_new assms(2)]) (use assms(3) in \<open>auto simp: keyring_single_def\<close>)
  then show ?thesis
  proof (rule pg_okE)
    fix rs key
    assume inv: "sorted_wrt (<) (map pr_id (pa_rows s))"
      "list_all (\<lambda>p. 1 \<le> pr_id p \<and> pr_id p < pa_next_id s) (pa_rows s)"
      "rows_from_db (pa_rows s) = Inr rs" "chained C (keyring_get (pa_keyring s)) rs GENESIS_PREV"
    have "length rs = length (pa_rows s)"
      using rows_from_db_fields [OF inv(3)] by (metis length_map)
    moreover have "list_all (\<lambda>p. 1 \<le> pr_id p \<and> pr_id p \<le> pa_next_id s) (pa_rows s)"
      using inv(2) by (auto simp: list_all_iff)
    ultimately show ?thesis
      using pg_verify_eq [OF inv(1) _ inv(3)] chain_loop_chained [OF inv(4)] by simp
  qed
qed

lemma chain_loop_after:
  "chained C keys xs prev \<Longrightarrow> chain_loop C keys np (xs @ ys) prev n = chain_loop C keys np ys (tip prev xs) (n + length xs)"
  by (induction xs arbitrary: prev n) auto

lemma pg_insert_row:
  assumes "pg_insert C prev e s = (s', Inr i)"
  obtains key h where "active_key (pa_keyring s) = Inr key" "i = pa_next_id s"
    "compute_row_hash C key prev e (kr_active (pa_keyring s)) = Inr h"
    "pa_rows s' = pa_rows s @ [stored_row i e prev h (kr_active (pa_keyring s))]"
    "pa_next_id s' = pa_next_id s + 1" "pa_keyring s' = pa_keyring s"
  using assms by (auto simp: pg_insert_def split: sum.splits)

lemma pg_verify_inserted:
  assumes ok: "pg_ok C s" and ins: "pg_insert C prev e s = (s', Inr i)"
    and key: "active_key (pa_keyring s) = Inr key"
    and h: "compute_row_hash C key prev e (kr_active (pa_keyring s)) = Inr h"
  shows "pg_verify_chain C 1 (pa_next_id s') s' =
    chain_loop C (keyring_get (pa_keyring s)) None
      [\<lparr>ar_id = i, ar_event = read_back e, ar_tenant = tenant_of e, ar_prev_hash = Some prev,
        ar_row_hash = h, ar_key_id = kr_active (pa_keyring s)\<rparr>] (pg_tip s) (length (pa_rows s))"
  using ok
proof (rule pg_okE)
  fix rs k0
  assume inv: "sorted_wrt (<) (map pr_id (pa_rows s))"
    "list_all (\<lambda>p. 1 \<le> pr_id p \<and> pr_id p < pa_next_id s) (pa_rows s)" "1 \<le> pa_next_id s"
    "rows_from_db (pa_rows s) = Inr rs" "chained C (keyring_get (pa_keyring s)) rs GENESIS_PREV"
    "pg_tip s = tip GENESIS_PREV rs"
  have s': "i = pa_next_id s" "pa_rows s' = pa_rows s @ [stored_row i e prev h (kr_active (pa_keyring s))]"
    "pa_next_id s' = pa_next_id s + 1" "pa_keyring s' = pa_keyring s"
    using ins key h by (auto simp: pg_insert_def)
  have id: "pr_id (stored_row i e prev h (kr_active (pa_keyring s))) = i"
    by (simp add: stored_row_def)
  have len: "length rs = length (pa_rows s)"
    using rows_from_db_fields [OF inv(4)] by (metis length_map)
  have "sorted_wrt (<) (map pr_id (pa_rows s'))"
    using inv(1,2) s'(1,2) id by (auto simp: sorted_wrt_append list_all_iff)
  moreover have "list_all (\<lambda>p. 1 \<le> pr_id p \<and> pr_id p \<le> pa_next_id s') (pa_rows s')"
    using inv(2,3) s' id by (fastforce simp: list_all_iff)
  moreover have "rows_from_db (pa_rows s') = Inr (rs @ [\<lparr>ar_id = i, ar_event = read_back e,
      ar_tenant = tenant_of e, ar_prev_hash = Some prev, ar_row_hash = h, ar_key_id = kr_active (pa_keyring s)\<rparr>])"
    unfolding s'(2) rows_from_db_append inv(4) by (simp add: row_roundtrip)
  ultimately show ?thesis
    using pg_verify_eq chain_loop_after [OF inv(5)] by (simp add: s'(4) inv(6) len)
qed

text \<open>C26. Events carry nanoseconds and are hashed with them, but the column keeps microseconds. An
  event whose canonical bytes change when the nanoseconds are dropped is written without
  error and from then on verification reports the chain broken at its row, unless the two
  inputs collide under HMAC.\<close>

theorem pg_nanoseconds_break_chain:
  assumes "hmac_32 C" "(pg_step C)\<^sup>*\<^sup>* (pg_new i k) s"
    and "pg_append C None e s = (s', Inr n)" "active_key (pa_keyring s) = Inr key"
    and "canonical_bytes C e (kr_active (pa_keyring s)) = Some c" "hmac C key (pg_tip s @ c) = Some h"
    and "canonical_bytes C (read_back e) (kr_active (pa_keyring s)) = Some c'" "hmac C key (pg_tip s @ c') = Some h'"
    and "h' \<noteq> h"
  shows "\<exists>v. pg_verify_chain C 1 (pa_next_id s') s' = Inr v \<and> \<not> cv_ok v \<and> cv_broken_at v = Some n"
proof -
  have ok: "pg_ok C s"
    by (rule pg_steps_ok [OF assms(2,1)])
  then have tip: "length (pg_tip s) = 32"
    by (rule pg_okE) simp
  have hash: "compute_row_hash C key (pg_tip s) e (kr_active (pa_keyring s)) = Inr h"
    "compute_row_hash C key (pg_tip s) (read_back e) (kr_active (pa_keyring s)) = Inr h'"
    using assms(5-8) by (simp_all add: compute_row_hash_def)
  have ins: "pg_insert C (pg_tip s) e s = (s', Inr n)"
    using assms(3) by (simp add: pg_append_def)
  have "keyring_get (pa_keyring s) (kr_active (pa_keyring s)) = Inr key"
    using assms(4) by (auto simp: active_key_def keyring_get_def split: option.splits)
  then show ?thesis
    using pg_verify_inserted [OF ok ins assms(4) hash(1)] hash(2) tip assms(9) by (simp add: broken_def)
qed

text \<open>C27. Appends are not serialized by locking the tip. Two transactions that both read the tip
  before either inserts, as two first appends to an empty table always may, store the same
  predecessor, and verification reports the chain broken at the second row.\<close>

theorem pg_concurrent_appends_fork:
  assumes "hmac_32 C" "(pg_step C)\<^sup>*\<^sup>* (pg_new i k) s" "1000 dvd ev_at e1"
    and "pg_insert C (pg_tip s) e1 s = (s1, Inr n1)" "pg_insert C (pg_tip s) e2 s1 = (s2, Inr n2)"
    and "pg_tip s1 \<noteq> pg_tip s"
  shows "\<exists>v. pg_verify_chain C 1 (pa_next_id s2) s2 = Inr v \<and> \<not> cv_ok v \<and> cv_broken_at v = Some n2"
proof -
  have "pg_ok C s"
    by (rule pg_steps_ok [OF assms(2,1)])
  from pg_insert_ok [OF assms(1) this assms(3)] assms(4) have ok: "pg_ok C s1"
    by simp
  then have tip: "length (pg_tip s1) = 32"
    by (rule pg_okE) simp
  from assms(5) show ?thesis
  proof (rule pg_insert_row)
    fix key h
    assume key: "active_key (pa_keyring s1) = Inr key"
      and h: "compute_row_hash C key (pg_tip s) e2 (kr_active (pa_keyring s1)) = Inr h"
    have "keyring_get (pa_keyring s1) (kr_active (pa_keyring s1)) = Inr key"
      using key by (auto simp: active_key_def keyring_get_def split: option.splits)
    then show ?thesis
      using pg_verify_inserted [OF ok assms(5) key h] tip assms(6) by (auto simp: broken_def)
  qed
qed

section \<open>Instances\<close>

text \<open>A serializer that keeps the time, down to the nanosecond, and an HMAC that is the identity on
  what fits.\<close>

definition time_crypto :: crypto where
  "time_crypto = \<lparr>to_vec = (\<lambda>p. Some (replicate (nat (cp_at p)) (CHR ''t''))),
     hmac = (\<lambda>k d. Some (take 32 (rev d @ GENESIS_PREV))), hex_encode = id\<rparr>"

abbreviation at_nanos :: "int \<Rightarrow> audit_event" where
  "at_nanos t \<equiv> event_success t Push ''manifest.push'' actor_system"

lemma time_hmac: "hmac_32 time_crypto"
  by (auto simp: hmac_32_def time_crypto_def GENESIS_PREV_def)

definition pg_demo_ops :: "pg_op list" where
  "pg_demo_ops = [PgAppend (Some 2) (at_nanos 3000), PgAppend None (at_nanos 4000), PgRotate ''v2'' ''k2'',
     PgAppend None (at_nanos 5000)]"

theorem pg_log_verifies_witness:
  "let s = pg_run demo_crypto pg_demo_ops (pg_new ''v1'' ''k'') in
   pg_verify_chain demo_crypto 1 (pa_next_id s) s = Inr \<lparr>cv_ok = True, cv_checked = 2,
    cv_broken_at = None, cv_expected = None, cv_actual = None\<rparr>"
proof -
  have "distinct (''v1'' # rotated_ids pg_demo_ops)"
    "length (pa_rows (pg_run demo_crypto pg_demo_ops (pg_new ''v1'' ''k''))) = 2"
    by code_simp+
  moreover have "\<forall>answer e. PgAppend answer e \<in> set pg_demo_ops \<longrightarrow> 1000 dvd ev_at e"
    by (auto simp: pg_demo_ops_def event_success_def)
  ultimately show ?thesis
    using pg_log_verifies [OF demo_hmac, of pg_demo_ops "''v1''"] unfolding Let_def by simp
qed

theorem pg_nanoseconds_break_chain_witness:
  "\<exists>v. pg_verify_chain time_crypto 1 2 (fst (pg_append time_crypto None (at_nanos 7) (pg_new ''v1'' ''k''))) = Inr v \<and>
    \<not> cv_ok v \<and> cv_broken_at v = Some 1"
proof -
  let ?s = "pg_new ''v1'' ''k''" and ?e = "at_nanos 7"
  have "pg_append time_crypto None ?e ?s = (fst (pg_append time_crypto None ?e ?s), Inr 1)"
    by (rule prod_eqI) (simp, code_simp)
  moreover have "active_key (pa_keyring ?s) = Inr ''k''"
    by code_simp
  moreover have "canonical_bytes time_crypto ?e ''v1'' = Some (replicate 7 (CHR ''t''))"
    "canonical_bytes time_crypto (read_back ?e) ''v1'' = Some []"
    "kr_active (pa_keyring ?s) = ''v1''" "pa_next_id (fst (pg_append time_crypto None ?e ?s)) = 2"
    "hmac time_crypto ''k'' (pg_tip ?s @ replicate 7 (CHR ''t'')) = Some (replicate 7 (CHR ''t'') @ replicate 25 (CHR 0x00))"
    "hmac time_crypto ''k'' (pg_tip ?s @ []) = Some GENESIS_PREV"
    "GENESIS_PREV \<noteq> replicate 7 (CHR ''t'') @ replicate 25 (CHR 0x00)"
    by code_simp+
  ultimately show ?thesis
    using pg_nanoseconds_break_chain [OF time_hmac rtranclp.rtrancl_refl, where s' = "fst (pg_append time_crypto None ?e ?s)"]
    by metis
qed

theorem pg_concurrent_appends_fork_witness:
  "let s = pg_new ''v1'' ''k''; s1 = fst (pg_insert demo_crypto (pg_tip s) (at_nanos 1000) s);
       s2 = fst (pg_insert demo_crypto (pg_tip s) (at_nanos 2000) s1) in
   \<exists>v. pg_verify_chain demo_crypto 1 (pa_next_id s2) s2 = Inr v \<and> \<not> cv_ok v \<and> cv_broken_at v = Some 2"
proof -
  let ?s = "pg_new ''v1'' ''k''"
  let ?s1 = "fst (pg_insert demo_crypto (pg_tip ?s) (at_nanos 1000) ?s)"
  let ?s2 = "fst (pg_insert demo_crypto (pg_tip ?s) (at_nanos 2000) ?s1)"
  have "pg_insert demo_crypto (pg_tip ?s) (at_nanos 1000) ?s = (?s1, Inr 1)"
    by (rule prod_eqI) (simp, code_simp)
  moreover have "pg_insert demo_crypto (pg_tip ?s) (at_nanos 2000) ?s1 = (?s2, Inr 2)"
    by (rule prod_eqI) (simp, code_simp)
  moreover have "pg_tip ?s1 \<noteq> pg_tip ?s"
    by code_simp
  moreover have "1000 dvd ev_at (at_nanos 1000)"
    by (simp add: event_success_def)
  ultimately show ?thesis
    using pg_concurrent_appends_fork [OF demo_hmac rtranclp.rtrancl_refl] by (simp add: Let_def)
qed

end
