(* ===== verification/Audit_Log.thy ===== *)
theory Audit_Log
  imports Audit_Export Audit_Postgres Complex_Main
begin

text \<open>
  The registry's side of the audit log (\<open>specton-registry/src/audit.rs\<close>): a bounded ring
  of recent events for the dashboard, and a durable sink. The contract of a sink is a
  locale; both sinks of \<open>specton-audit\<close> satisfy it. The random draw that samples pulls
  is an argument.
\<close>

definition MAX_EVENTS :: nat where
  "MAX_EVENTS = 10000"

record registry_event =
  re_timestamp :: int
  re_type :: string
  re_subject :: string
  re_tenant :: string
  re_project :: string
  re_repository :: string
  re_reference :: string
  re_digest :: string
  re_size :: nat
  re_status :: nat
  re_duration :: nat

definition event_category :: "registry_event \<Rightarrow> category" where
  "event_category e =
    (if re_type e \<in> {''manifest.push'', ''blob.push'', ''manifest.replicated''} then Push
     else if re_type e \<in> {''manifest.pull'', ''blob.pull'', ''tag.list'', ''catalog.list''} then Pull
     else if re_type e = ''manifest.delete'' then Delete
     else if re_type e = ''manifest.promote'' then Promote else AdminCat)"

definition is_write :: "registry_event \<Rightarrow> bool" where
  "is_write e \<longleftrightarrow> re_type e \<in> {''manifest.push'', ''blob.push'', ''manifest.delete'', ''manifest.replicated'',
     ''manifest.promote''}"

definition is_pull :: "registry_event \<Rightarrow> bool" where
  "is_pull e \<longleftrightarrow> re_type e \<in> {''manifest.pull'', ''blob.pull'', ''tag.list'', ''catalog.list''}"

definition to_chained :: "registry_event \<Rightarrow> audit_event" where
  "to_chained e =
    \<lparr>ev_at = re_timestamp e, ev_category = event_category e, ev_action = re_type e,
     ev_actor = \<lparr>actor_sub = re_subject e, actor_role = None, actor_ip = None, actor_ua = None\<rparr>,
     ev_subject = Some \<lparr>sub_tenant = Some (re_tenant e), sub_project = Some (re_project e),
       sub_repo = Some (re_repository e), sub_reference = Some (re_reference e), sub_digest = Some (re_digest e)\<rparr>,
     ev_outcome = (if re_status e < 400 then Success else Failure (show_nat (re_status e))),
     ev_attributes = [''size_bytes'' \<mapsto> Number (int (re_size e)), ''status_code'' \<mapsto> Number (int (re_status e)),
       ''duration_ms'' \<mapsto> Number (int (re_duration e))]\<rparr>"

record audit_log =
  al_events :: "registry_event list"
  al_sample_pulls :: real
  al_fail_closed :: bool

definition log_with_sink :: "real \<Rightarrow> bool \<Rightarrow> audit_log" where
  "log_with_sink sample fail_closed =
    \<lparr>al_events = [], al_sample_pulls = max 0 (min 1 sample), al_fail_closed = fail_closed\<rparr>"

definition log_new :: audit_log where
  "log_new = log_with_sink 0 False"

definition push_ring :: "registry_event \<Rightarrow> registry_event list \<Rightarrow> registry_event list" where
  "push_ring e events = (if length events \<ge> MAX_EVENTS then tl events else events) @ [e]"

definition should_persist :: "audit_log \<Rightarrow> real \<Rightarrow> registry_event \<Rightarrow> bool" where
  "should_persist l draw e =
    (if is_write e then True
     else if is_pull e then al_sample_pulls l > 0 \<and> draw < al_sample_pulls l else True)"

definition record_event :: "(audit_event \<Rightarrow> 's \<Rightarrow> 's \<times> (audit_error, int) result) \<Rightarrow> real \<Rightarrow> registry_event \<Rightarrow>
    audit_log \<Rightarrow> 's \<Rightarrow> audit_log \<times> 's \<times> (audit_error, unit) result" where
  "record_event sink_append draw e l s =
    (let l' = l\<lparr>al_events := push_ring e (al_events l)\<rparr> in
     if \<not> should_persist l draw e then (l', s, Inr ())
     else (case sink_append (to_chained e) s of
       (s', Inr _) \<Rightarrow> (l', s', Inr ())
     | (s', Inl x) \<Rightarrow> if is_write e \<and> al_fail_closed l then (l', s', Inl x) else (l', s', Inr ())))"

definition recent :: "nat \<Rightarrow> audit_log \<Rightarrow> registry_event list" where
  "recent n l = take n (rev (al_events l))"

definition event_count :: "audit_log \<Rightarrow> nat" where
  "event_count l = length (al_events l)"

definition by_type :: "string \<Rightarrow> nat \<Rightarrow> audit_log \<Rightarrow> registry_event list" where
  "by_type t n l = take n (filter (\<lambda>e. re_type e = t) (rev (al_events l)))"

definition by_subject :: "string \<Rightarrow> nat \<Rightarrow> audit_log \<Rightarrow> registry_event list" where
  "by_subject t n l = take n (filter (\<lambda>e. re_subject e = t) (rev (al_events l)))"

record audit_stats =
  total_events :: nat
  total_pushes :: nat
  total_pulls :: nat
  total_deletes :: nat
  total_push_bytes :: nat
  avg_latency_ms :: real
  latest_event :: "int option"

definition stats_step :: "registry_event \<Rightarrow> audit_stats \<Rightarrow> audit_stats" where
  "stats_step e st =
    (let st1 = (if re_type e \<in> {''manifest.push'', ''manifest.replicated''}
        then st\<lparr>total_pushes := total_pushes st + 1, total_push_bytes := total_push_bytes st + re_size e\<rparr>
        else if re_type e \<in> {''manifest.pull'', ''blob.pull''} then st\<lparr>total_pulls := total_pulls st + 1\<rparr>
        else if re_type e = ''manifest.delete'' then st\<lparr>total_deletes := total_deletes st + 1\<rparr> else st) in
     st1\<lparr>total_events := total_events st + 1,
       latest_event := (case latest_event st of None \<Rightarrow> Some (re_timestamp e)
         | Some t \<Rightarrow> if re_timestamp e > t then Some (re_timestamp e) else Some t)\<rparr>)"

definition log_stats :: "audit_log \<Rightarrow> audit_stats" where
  "log_stats l =
    (let st = fold stats_step (al_events l) \<lparr>total_events = 0, total_pushes = 0, total_pulls = 0,
           total_deletes = 0, total_push_bytes = 0, avg_latency_ms = 0, latest_event = None\<rparr>;
         newest100 = take 100 (rev (al_events l)) in
     if newest100 = [] then st
     else st\<lparr>avg_latency_ms := real (sum_list (map re_duration newest100)) / real (length newest100)\<rparr>)"

section \<open>The contract of a sink\<close>

text \<open>
  \<open>events\<close> is what the sink holds, \<open>keep\<close> what it keeps of an event; the first argument of
  \<open>sink_append\<close> is what its backend answers.
\<close>

locale audit_sink =
  fixes sink_append :: "'o \<Rightarrow> audit_event \<Rightarrow> 's \<Rightarrow> 's \<times> (audit_error, int) result"
    and events :: "'s \<Rightarrow> audit_event list"
    and keep :: "audit_event \<Rightarrow> audit_event"
  assumes append_ok: "sink_append o' e s = (s', Inr i) \<Longrightarrow> events s' = events s @ [keep e]"
    and append_err: "sink_append o' e s = (s', Inl x) \<Longrightarrow> events s' = events s"
begin

lemma record_write:
  assumes "record_event (sink_append o') draw e l s = (l', s', r)" "is_write e"
  shows "case snd (sink_append o' (to_chained e) s) of
      Inr _ \<Rightarrow> r = Inr () \<and> events s' = events s @ [keep (to_chained e)]
    | Inl x \<Rightarrow> r = (if al_fail_closed l then Inl x else Inr ()) \<and> events s' = events s"
  using assms append_ok append_err
  by (auto simp: record_event_def should_persist_def Let_def split: prod.splits sum.splits if_splits)

lemma record_other:
  assumes "record_event (sink_append o') draw e l s = (l', s', r)" "\<not> is_write e"
  shows "r = Inr ()"
  using assms by (auto simp: record_event_def Let_def split: prod.splits sum.splits if_splits)

lemma record_pull:
  assumes "record_event (sink_append o') draw e l s = (l', s', r)" "is_pull e"
  shows "r = Inr () \<and> (events s' = events s \<or> events s' = events s @ [keep (to_chained e)])"
proof -
  have "\<not> is_write e"
    using assms(2) by (auto simp: is_write_def is_pull_def)
  then show ?thesis
    using assms append_ok append_err
    by (auto simp: record_event_def Let_def split: prod.splits sum.splits if_splits)
qed

end

interpretation mem_sink: audit_sink "\<lambda>C. mem_audit_append C" "\<lambda>s. map ar_event (ma_rows s)" "\<lambda>e. e"
  by unfold_locales (auto simp: mem_audit_append_def Let_def split: if_splits sum.splits)

definition pg_events :: "pg_audit \<Rightarrow> audit_event list" where
  "pg_events s = map (\<lambda>p. ar_event (projr (row_from_db p))) (pa_rows s)"

interpretation pg_sink: audit_sink "\<lambda>(C, answer). pg_append C answer" pg_events read_back
  by unfold_locales
    (auto simp: pg_append_def pg_insert_def pg_events_def row_roundtrip split: option.splits sum.splits)

lemma push_ring_bound: "length events \<le> MAX_EVENTS \<Longrightarrow> length (push_ring e events) \<le> MAX_EVENTS"
  by (auto simp: push_ring_def MAX_EVENTS_def)

text \<open>C30. Recording a write over the Postgres sink: when the append succeeds the sink holds the event and
  the caller gets success; when it fails the sink is unchanged, and the caller gets the error if the
  log fails closed and success if it does not. Recording any other event never fails. The ring takes the
  event every time and stays bounded.\<close>

theorem write_events_fail_closed:
  assumes "record_event (pg_append C answer) draw e l s = (l', s', r)"
  shows "(is_write e \<longrightarrow> (case snd (pg_append C answer (to_chained e) s) of
        Inr _ \<Rightarrow> r = Inr () \<and> pg_events s' = pg_events s @ [read_back (to_chained e)]
      | Inl x \<Rightarrow> r = (if al_fail_closed l then Inl x else Inr ()) \<and> pg_events s' = pg_events s)) \<and>
    (\<not> is_write e \<longrightarrow> r = Inr ()) \<and> last (al_events l') = e \<and>
    (length (al_events l) \<le> MAX_EVENTS \<longrightarrow> length (al_events l') \<le> MAX_EVENTS)"
proof -
  have "al_events l' = push_ring e (al_events l)"
    using assms(1) by (auto simp: record_event_def Let_def split: prod.splits sum.splits if_splits)
  moreover have "last (push_ring e (al_events l)) = e"
    by (simp add: push_ring_def)
  moreover have "is_write e \<longrightarrow> (case snd (pg_append C answer (to_chained e) s) of
        Inr _ \<Rightarrow> r = Inr () \<and> pg_events s' = pg_events s @ [read_back (to_chained e)]
      | Inl x \<Rightarrow> r = (if al_fail_closed l then Inl x else Inr ()) \<and> pg_events s' = pg_events s)"
    using pg_sink.record_write [of "(C, answer)" draw e l s l' s' r] assms unfolding prod.case by blast
  ultimately show ?thesis
    using pg_sink.record_other [of "(C, answer)" draw e l s l' s' r] assms push_ring_bound by simp
qed

definition demo_event :: registry_event where
  "demo_event = \<lparr>re_timestamp = 5, re_type = ''manifest.push'', re_subject = ''ci'', re_tenant = ''t'',
     re_project = ''p'', re_repository = ''r'', re_reference = ''v1'', re_digest = ''sha256:m'', re_size = 1,
     re_status = 201, re_duration = 2\<rparr>"

theorem write_events_fail_closed_witness:
  "snd (snd (record_event (pg_append demo_crypto (Some 1)) 0 demo_event (log_with_sink 0 True) (pg_new ''v1'' ''k''))) =
    Inl AuditSqlx"
proof -
  let ?out = "record_event (pg_append demo_crypto (Some 1)) 0 demo_event (log_with_sink 0 True) (pg_new ''v1'' ''k'')"
  have out: "?out = (fst ?out, fst (snd ?out), snd (snd ?out))"
    by simp
  have "is_write demo_event" "al_fail_closed (log_with_sink 0 True)"
    "snd (pg_append demo_crypto (Some 1) (to_chained demo_event) (pg_new ''v1'' ''k'')) = Inl AuditSqlx"
    by (simp_all add: is_write_def demo_event_def log_with_sink_def pg_append_def)
  with write_events_fail_closed [OF out] show ?thesis
    by simp
qed

end
