(* ===== verification/Registry_State.thy ===== *)
theory Registry_State
  imports Admission Signing Mirror Replication Multipart Ephemeral Gc_Refcount Audit_Log
begin

text \<open>
  What the handlers of \<open>specton-registry/src/main.rs\<close> share: the token and its check, the
  application state, and the helpers that read and write the object store. The state
  record holds everything a request can change (the bucket, the tables, the audit
  ring and sink, the queues); the environment record holds the crates the handlers call and
  the configuration. \<open>rq_*\<close> is what a single request draws from outside: which
  statements succeed, the clocks, fresh ids and the sampling draw. Spawned tasks are
  queued in the state. An outer \<open>None\<close> is a panic of the handler.
\<close>

section \<open>Tokens\<close>

record token_scope =
  ts_repository :: string
  ts_actions :: "action list"

record claims =
  cl_sub :: string
  cl_tenant_id :: string
  cl_tenant_name :: "string option"
  cl_role :: role
  cl_scopes :: "token_scope list"

datatype jwt_error = ExpiredSignature | OtherJwt string

definition show_role :: "role \<Rightarrow> string" where
  "show_role r = (case r of Admin \<Rightarrow> ''Admin'' | Maintainer \<Rightarrow> ''Maintainer'' | Reader \<Rightarrow> ''Reader'')"

definition show_action :: "action \<Rightarrow> string" where
  "show_action a = (case a of action.Pull \<Rightarrow> ''Pull'' | action.Push \<Rightarrow> ''Push'' | action.Delete \<Rightarrow> ''Delete''
     | Tag \<Rightarrow> ''Tag'' | Manage \<Rightarrow> ''Manage'')"

text \<open>
  The extractor \<open>AuthenticatedClaims\<close>: \<open>auth_header\<close> is the header if its bytes are readable,
  \<open>decode\<close> is \<open>jsonwebtoken::decode\<close> with the configured key, audience and issuer.
\<close>

definition authenticate :: "(string \<Rightarrow> string \<Rightarrow> (jwt_error, claims) result) \<Rightarrow> string \<Rightarrow> string option \<Rightarrow>
    (registry_error, claims) result" where
  "authenticate decode signing_algorithm auth_header = (case auth_header of
     None \<Rightarrow> Inl Unauthorized
   | Some h \<Rightarrow> (case strip_prefix ''Bearer '' h of
       None \<Rightarrow> Inl Unauthorized
     | Some jwt \<Rightarrow> (case decode (if signing_algorithm = ''EdDSA'' then ''EdDSA'' else ''RS256'') jwt of
         Inl ExpiredSignature \<Rightarrow> Inl TokenExpired
       | Inl (OtherJwt e) \<Rightarrow> Inl (TokenInvalid e)
       | Inr c \<Rightarrow> Inr c)))"

definition authorize :: "claims \<Rightarrow> string \<Rightarrow> string \<Rightarrow> string \<Rightarrow> action \<Rightarrow> (registry_error, unit) result" where
  "authorize c tenant project name a =
    (let repo_path = tenant @ ''/'' @ project @ ''/'' @ name in
     if \<not> can (cl_role c) a
     then Inl (Forbidden (''role '' @ show_role (cl_role c) @ '' does not permit action '' @ show_action a))
     else if cl_role c = Admin then Inr ()
     else if \<not> list_ex (\<lambda>s. (ts_repository s = repo_path \<or> ts_repository s = ''*'') \<and> List.member (ts_actions s) a) (cl_scopes c)
     then Inl (Forbidden (''token scopes do not grant '' @ show_action a @ '' on '' @ repo_path))
     else Inr ())"

section \<open>State\<close>

record webhook_payload =
  wh_id :: string
  wh_event :: string
  wh_timestamp :: int
  wh_tenant :: string
  wh_project :: string
  wh_repository :: string
  wh_reference :: string
  wh_digest :: string
  wh_size :: nat
  wh_region :: "string option"

datatype usage_op = UPull | UPush | UManifestGet | UManifestPut | UDelete

datatype usage_src = Origin | Cache | Peer | PullThrough

record usage_event =
  us_at :: int
  us_tenant :: string
  us_project :: string
  us_repository :: string
  us_op :: usage_op
  us_bytes :: int
  us_src :: usage_src
  us_status :: nat
  us_sub :: "string option"

record referrer =
  rf_subject :: string
  rf_artifact :: string
  rf_artifact_type :: string
  rf_media_type :: string
  rf_size :: int

datatype task =
    RecordUsage usage_event
  | ValidateArtifact string bytes string
  | CaptureLineage string string string string string
  | EnqueueScan scan_job
  | EnqueueLazy string string string string string

record ('w, 's, 'f) reg_state =
  rg_world :: 'w
  rg_mirror :: "mirror option"
  rg_gc :: gc_db
  rg_tags :: ttl_db
  rg_audit :: "Audit_Log.audit_log"
  rg_sink :: 's
  rg_signatures :: "signature_record list"
  rg_policies :: "policy_row list"
  rg_admission :: "admission_row list"
  rg_decisions :: "admission_decision list"
  rg_cache :: decision_cache
  rg_scans :: "string \<rightharpoonup> 'f scan_result"
  rg_referrers :: "referrer list"
  rg_replication :: "replication_event list"
  rg_hooks :: "webhook_payload list"
  rg_tasks :: "task list"

record ('w, 'h, 'u, 's, 'k, 'v) reg_env =
  en_mirror :: "('w, 'h, 'u) mirror_env"
  en_proxy :: "string \<Rightarrow> string option \<Rightarrow> 'w \<Rightarrow> 'w \<times> (string, nat \<times> (string, bytes) result) result"
  en_failover :: "failover option"
  en_json :: "bytes \<Rightarrow> json option"
  en_json_error :: "bytes \<Rightarrow> string"
  en_os_text :: "os_error \<Rightarrow> string"
  en_mirror_text :: "mirror_error \<Rightarrow> string"
  en_audit_text :: "audit_error \<Rightarrow> string"
  en_verify_text :: "verify_error \<Rightarrow> string"
  en_schedule :: "nat \<Rightarrow> nat list"
  en_append :: "audit_event \<Rightarrow> 's \<Rightarrow> 's \<times> (audit_error, int) result"
  en_chrono :: chrono
  en_sig :: "('k, 'v) sig_services"
  en_file_keys :: key_resolver
  en_policy_decode :: "json \<Rightarrow> (string, policy_spec) result"
  en_policy_encode :: "policy_spec \<Rightarrow> json"
  en_spec_decode :: "json \<Rightarrow> admission_spec option"
  en_parse_event :: "bytes \<Rightarrow> replication_event option"
  en_signing_enabled :: bool
  en_require_for_pull :: bool
  en_admission_enabled :: bool
  en_threshold_mb :: nat
  en_part_size_mb :: nat
  en_concurrency :: nat
  en_pool :: bool
  en_gc_online :: bool
  en_region :: "string option"
  en_webhook :: bool
  en_scanner :: bool
  en_scan_store :: bool
  en_artifacts :: bool
  en_lazy :: "string option"

record request =
  rq_ok :: "string \<Rightarrow> bool"
  rq_now :: int
  rq_db_now :: nat
  rq_uuid :: "string \<Rightarrow> string"
  rq_draw :: real
  rq_clock :: "nat \<Rightarrow> instant"
  rq_ms :: nat

abbreviation en_store :: "('w, 'h, 'u, 's, 'k, 'v) reg_env \<Rightarrow> ('w, 'h, 'u) store_ops" where
  "en_store E \<equiv> me_store (en_mirror E)"

abbreviation en_sha :: "('w, 'h, 'u, 's, 'k, 'v) reg_env \<Rightarrow> bytes \<Rightarrow> string" where
  "en_sha E \<equiv> me_sha (en_mirror E)"

section \<open>Responses\<close>

text \<open>The report of the readiness check: per layer or sub-manifest its digest, size, availability and platform.\<close>

record status_report =
  ir_available :: bool
  ir_image :: string
  ir_manifest :: "(string \<times> string \<times> nat) option"
  ir_layers :: "(string \<times> nat \<times> bool \<times> json option) list"
  ir_config :: "(string \<times> nat \<times> bool) option"
  ir_missing :: nat
  ir_total :: nat
  ir_reason :: "string option"

datatype payload =
    NoBody
  | Raw bytes
  | TagListBody string "string list"
  | CatalogBody "string list"
  | SignatureCreated string string string "string option"
  | SignaturesBody "signature_record list"
  | VerifyListed bool "string list" nat
  | VerifyOutcome verification_outcome
  | VerifyFailed string
  | PolicyBody stored_policy
  | StatusBody status_report

record response =
  rs_status :: nat
  rs_headers :: "(string \<times> string) list"
  rs_body :: payload

type_synonym ('w, 's, 'f) handler =
  "('w, 's, 'f) reg_state \<Rightarrow> ('w, 's, 'f) reg_state \<times> (registry_error, response) result option"

text \<open>\<open>HeaderValue::from_str(..).unwrap()\<close> on the values of a response: a bad one is a panic.\<close>

definition respond :: "nat \<Rightarrow> (string \<times> string) list \<Rightarrow> payload \<Rightarrow> (registry_error, response) result option" where
  "respond code hs body = (if list_all (\<lambda>(_, v). header_ok v) hs
     then Some (Inr \<lparr>rs_status = code, rs_headers = hs, rs_body = body\<rparr>) else None)"

section \<open>Helpers\<close>

definition is_store_not_found :: "os_error \<Rightarrow> bool" where
  "is_store_not_found e \<longleftrightarrow> e = NotFound"

datatype read = Got bytes | GetErr os_error | BytesErr os_error

definition store_read :: "('w, 'h, 'u, 's, 'k, 'v) reg_env \<Rightarrow> string \<Rightarrow> 'w \<Rightarrow> 'w \<times> read" where
  "store_read E key w = (case os_get (en_store E) (os_path (en_store E) key) w of
     (w1, Inl e) \<Rightarrow> (w1, GetErr e)
   | (w1, Inr h) \<Rightarrow> (case os_bytes (en_store E) h w1 of
       (w2, Inl e) \<Rightarrow> (w2, BytesErr e) | (w2, Inr d) \<Rightarrow> (w2, Got d)))"

definition store_put :: "('w, 'h, 'u, 's, 'k, 'v) reg_env \<Rightarrow> string \<Rightarrow> bytes \<Rightarrow> 'w \<Rightarrow> 'w \<times> (registry_error, unit) result" where
  "store_put E key data w = (case os_put (en_store E) (os_path (en_store E) key) data w of
     (w1, Inl e) \<Rightarrow> (w1, Inl (Storage (en_os_text E e))) | (w1, Inr _) \<Rightarrow> (w1, Inr ()))"

definition read_tag_link :: "('w, 'h, 'u, 's, 'k, 'v) reg_env \<Rightarrow> string \<Rightarrow> string \<Rightarrow> string \<Rightarrow> string \<Rightarrow> 'w \<Rightarrow>
    'w \<times> (registry_error, string option) result" where
  "read_tag_link E tenant project repo tag w = (case store_read E (tag_link_path tenant project repo tag) w of
     (w1, Got b) \<Rightarrow> (w1, Inr (Some (utf8_trim (from_utf8_lossy b))))
   | (w1, BytesErr e) \<Rightarrow> (w1, Inl (Storage (en_os_text E e)))
   | (w1, GetErr e) \<Rightarrow> (w1, if is_store_not_found e then Inr None else Inl (Storage (en_os_text E e))))"

text \<open>The loop over the listed links; \<open>removed\<close> collects the tags.\<close>

fun delete_links :: "('w, 'h, 'u, 's, 'k, 'v) reg_env \<Rightarrow> string \<Rightarrow> string \<Rightarrow> string \<Rightarrow> string \<Rightarrow> path list \<Rightarrow> 'w \<Rightarrow>
    'w \<times> (registry_error, string list) result" where
  "delete_links E tenant project repo digest [] w = (w, Inr [])"
| "delete_links E tenant project repo digest (loc # locs) w =
    (case strip_prefix (tags_prefix tenant project repo) loc of
       None \<Rightarrow> delete_links E tenant project repo digest locs w
     | Some tag \<Rightarrow>
        if tag = [] then delete_links E tenant project repo digest locs w
        else (case read_tag_link E tenant project repo tag w of
           (w1, Inl e) \<Rightarrow> (w1, Inl e)
         | (w1, Inr link) \<Rightarrow>
            if link \<noteq> Some digest then delete_links E tenant project repo digest locs w1
            else (case os_delete (en_store E) loc w1 of
               (w2, Inr _) \<Rightarrow> map_prod id (map_sum id (Cons tag)) (delete_links E tenant project repo digest locs w2)
             | (w2, Inl e) \<Rightarrow>
                if is_store_not_found e then delete_links E tenant project repo digest locs w2
                else (w2, Inl (Storage (en_os_text E e))))))"

definition delete_tags_for_digest :: "('w, 'h, 'u, 's, 'k, 'v) reg_env \<Rightarrow> string \<Rightarrow> string \<Rightarrow> string \<Rightarrow> string \<Rightarrow> 'w \<Rightarrow>
    'w \<times> (registry_error, string list) result" where
  "delete_tags_for_digest E tenant project repo digest w =
    (case os_list (en_store E) (os_path (en_store E) (tags_prefix tenant project repo)) w of
       (w1, Inl e) \<Rightarrow> (w1, Inl (Storage (en_os_text E e)))
     | (w1, Inr locs) \<Rightarrow> delete_links E tenant project repo digest locs w1)"

definition normalized_ref :: "string \<Rightarrow> string" where
  "normalized_ref reference = (case strip_prefix ''sha256-'' reference of
     Some rest \<Rightarrow> ''sha256:'' @ rest | None \<Rightarrow> reference)"

definition resolve_manifest_path :: "('w, 'h, 'u, 's, 'k, 'v) reg_env \<Rightarrow> string \<Rightarrow> string \<Rightarrow> string \<Rightarrow> string \<Rightarrow> 'w \<Rightarrow>
    'w \<times> (registry_error, string) result" where
  "resolve_manifest_path E tenant project name reference w =
    (if starts_with ''sha256:'' (normalized_ref reference)
     then (w, Inr (manifest_path tenant project name (normalized_ref reference)))
     else (case store_read E (tag_link_path tenant project name reference) w of
         (w1, GetErr _) \<Rightarrow> (w1, Inl (ManifestUnknown reference))
       | (w1, BytesErr e) \<Rightarrow> (w1, Inl (Storage (en_os_text E e)))
       | (w1, Got b) \<Rightarrow> (w1, case from_utf8 b of
            None \<Rightarrow> Inl (ManifestInvalid ''tag link contains invalid UTF-8'')
          | Some digest \<Rightarrow> Inr (manifest_path tenant project name (utf8_trim digest)))))"

definition OCI_MANIFEST :: string where
  "OCI_MANIFEST = ''application/vnd.oci.image.manifest.v1+json''"

definition OCI_INDEX :: string where
  "OCI_INDEX = ''application/vnd.oci.image.index.v1+json''"

definition detect_manifest_media_type :: "(bytes \<Rightarrow> json option) \<Rightarrow> bytes \<Rightarrow> string" where
  "detect_manifest_media_type from_slice data = (case from_slice data of
     None \<Rightarrow> OCI_MANIFEST
   | Some v \<Rightarrow> (case Option.bind (json_get ''mediaType'' v) as_str of
       Some mt \<Rightarrow> mt
     | None \<Rightarrow> if Option.bind (json_get ''schemaVersion'' v) as_u64 = Some 2 \<and> json_get ''manifests'' v \<noteq> None
         then OCI_INDEX else OCI_MANIFEST))"

definition extract_header :: "(string \<rightharpoonup> string) \<Rightarrow> string \<Rightarrow> (registry_error, string) result" where
  "extract_header hs name = (case hs name of None \<Rightarrow> Inl (Internal (''missing header: '' @ name)) | Some v \<Rightarrow> Inr v)"

definition MB :: nat where
  "MB = 1024 * 1024"

definition saturating_mul_u64 :: "nat \<Rightarrow> nat \<Rightarrow> nat" where
  "saturating_mul_u64 a b = min (a * b) (2 ^ 64 - 1)"

definition put_config :: "('w, 'h, 'u, 's, 'k, 'v) reg_env \<Rightarrow> chunked_put_config" where
  "put_config E = chunked_put_config.make (saturating_mul_u64 (en_threshold_mb E) MB) (saturating_mul_u64 (en_part_size_mb E) MB)
     (en_concurrency E)"

definition store_put_chunked :: "('w, 'h, 'u, 's, 'k, 'v) reg_env \<Rightarrow> string \<Rightarrow> bytes \<Rightarrow> 'w \<Rightarrow>
    ('w \<times> (registry_error, unit) result) option" where
  "store_put_chunked E key data w =
    map_option (map_prod id (map_sum (\<lambda>e. Storage (en_os_text E e)) id))
      (put_chunked (en_store E) (en_schedule E) (os_path (en_store E) key) data (put_config E) w)"

section \<open>Audit, usage and events\<close>

definition mk_event :: "request \<Rightarrow> string \<Rightarrow> string \<Rightarrow> string \<Rightarrow> string \<Rightarrow> string \<Rightarrow> string \<Rightarrow> string \<Rightarrow> nat \<Rightarrow> nat \<Rightarrow> nat \<Rightarrow>
    registry_event" where
  "mk_event q typ sub tenant project repo reference digest len code ms =
    \<lparr>re_timestamp = rq_now q, re_type = typ, re_subject = sub, re_tenant = tenant, re_project = project, re_repository = repo,
     re_reference = reference, re_digest = digest, re_size = len, re_status = code, re_duration = ms\<rparr>"

definition audit_record :: "('w, 'h, 'u, 's, 'k, 'v) reg_env \<Rightarrow> request \<Rightarrow> registry_event \<Rightarrow> ('w, 's, 'f) reg_state \<Rightarrow>
    ('w, 's, 'f) reg_state \<times> (registry_error, unit) result" where
  "audit_record E q e s = (case record_event (en_append E) (rq_draw q) e (rg_audit s) (rg_sink s) of
     (l, sink, r) \<Rightarrow> (s\<lparr>rg_audit := l, rg_sink := sink\<rparr>,
       case r of Inl x \<Rightarrow> Inl (AuditUnavailable (en_audit_text E x)) | Inr _ \<Rightarrow> Inr ()))"

definition sink_append :: "('w, 'h, 'u, 's, 'k, 'v) reg_env \<Rightarrow> audit_event \<Rightarrow> ('w, 's, 'f) reg_state \<Rightarrow> ('w, 's, 'f) reg_state" where
  "sink_append E e s = s\<lparr>rg_sink := fst (en_append E e (rg_sink s))\<rparr>"

definition spawn :: "task \<Rightarrow> ('w, 's, 'f) reg_state \<Rightarrow> ('w, 's, 'f) reg_state" where
  "spawn t s = s\<lparr>rg_tasks := rg_tasks s @ [t]\<rparr>"

definition record_usage :: "request \<Rightarrow> string \<Rightarrow> string \<Rightarrow> string \<Rightarrow> usage_op \<Rightarrow> nat \<Rightarrow> nat \<Rightarrow> string \<Rightarrow>
    ('w, 's, 'f) reg_state \<Rightarrow> ('w, 's, 'f) reg_state" where
  "record_usage q tenant project repo oper len code sub =
    spawn (RecordUsage \<lparr>us_at = rq_now q, us_tenant = tenant, us_project = project, us_repository = repo, us_op = oper,
      us_bytes = int len, us_src = Origin, us_status = code, us_sub = Some sub\<rparr>)"

definition enqueue :: "('w, 'h, 'u, 's, 'k, 'v) reg_env \<Rightarrow> (string \<Rightarrow> replication_event) \<Rightarrow> ('w, 's, 'f) reg_state \<Rightarrow> ('w, 's, 'f) reg_state" where
  "enqueue E ev s = (case en_region E of None \<Rightarrow> s | Some region \<Rightarrow> s\<lparr>rg_replication := rg_replication s @ [ev region]\<rparr>)"

definition notify :: "('w, 'h, 'u, 's, 'k, 'v) reg_env \<Rightarrow> request \<Rightarrow> string \<Rightarrow> string \<Rightarrow> string \<Rightarrow> string \<Rightarrow> string \<Rightarrow> string \<Rightarrow> nat \<Rightarrow>
    ('w, 's, 'f) reg_state \<Rightarrow> ('w, 's, 'f) reg_state" where
  "notify E q event tenant project repo reference digest len s = (if \<not> en_webhook E then s
     else s\<lparr>rg_hooks := rg_hooks s @ [\<lparr>wh_id = rq_uuid q ''webhook'', wh_event = event, wh_timestamp = rq_now q, wh_tenant = tenant,
       wh_project = project, wh_repository = repo, wh_reference = reference, wh_digest = digest, wh_size = len,
       wh_region = en_region E\<rparr>]\<rparr>)"

definition register_referrer :: "bool \<Rightarrow> referrer \<Rightarrow> referrer list \<Rightarrow> referrer list" where
  "register_referrer stmt r rows =
    (if \<not> stmt then rows
     else if list_ex (\<lambda>x. rf_subject x = rf_subject r \<and> rf_artifact x = rf_artifact r) rows
     then map (\<lambda>x. if rf_subject x = rf_subject r \<and> rf_artifact x = rf_artifact r then r else x) rows
     else rows @ [r])"

end
