(* ===== verification/Registry_Gate.thy ===== *)
theory Registry_Gate
  imports Registry_State
begin

text \<open>
  The two gates of a manifest pull in \<open>main.rs\<close>, \<open>enforce_pull_signature_policy\<close> and
  \<open>enforce_admission\<close>, and the handlers for signatures and verification policies. The text of
  a database error is left empty.
\<close>

section \<open>Signature metadata\<close>

definition artifact_of :: "('k, 'v) sig_services \<Rightarrow> bytes \<Rightarrow> signature_artifact option" where
  "artifact_of G b = (case sg_parse_artifact G b of Some a \<Rightarrow> Some a
     | None \<Rightarrow> (case sg_parse_envelope G b of None \<Rightarrow> None
        | Some env \<Rightarrow> Some \<lparr>sa_media_type = MEDIA_TYPE_COSIGN_ENVELOPE_V1, sa_body = b, sa_signer_identity = en_key_ref env,
            sa_signature_type = ''cosign-key''\<rparr>))"

text \<open>What a body declares: the signer, the type of signature and the media type.\<close>

definition declared :: "('k, 'v) sig_services \<Rightarrow> bytes \<Rightarrow> string \<Rightarrow> string option \<times> string \<times> string" where
  "declared G b otherwise = (case sg_parse_artifact G b of
     Some a \<Rightarrow> (Some (sa_signer_identity a), sa_signature_type a, sa_media_type a)
   | None \<Rightarrow> (case sg_parse_envelope G b of
       Some env \<Rightarrow> (Some (en_key_ref env), ''cosign-key'', MEDIA_TYPE_COSIGN_ENVELOPE_V1)
     | None \<Rightarrow> (None, ''cosign-key'', otherwise)))"

definition sink_event :: "request \<Rightarrow> category \<Rightarrow> string \<Rightarrow> string \<Rightarrow> string \<Rightarrow> string \<Rightarrow> string \<Rightarrow> string option \<Rightarrow> string \<Rightarrow> audit_event" where
  "sink_event q cat action_name sub tenant project repo reference digest =
    with_subject (event_success (rq_now q) cat action_name \<lparr>actor_sub = sub, actor_role = None, actor_ip = None, actor_ua = None\<rparr>)
      \<lparr>sub_tenant = Some tenant, sub_project = Some project, sub_repo = Some repo, sub_reference = reference, sub_digest = Some digest\<rparr>"

definition json_opt :: "string option \<Rightarrow> json" where
  "json_opt x = (case x of None \<Rightarrow> Null | Some s \<Rightarrow> String s)"

definition register_signature_metadata :: "('w, 'h, 'u, 's, 'k, 'v) reg_env \<Rightarrow> request \<Rightarrow> string \<Rightarrow> string \<Rightarrow> string \<Rightarrow> string \<Rightarrow>
    string \<Rightarrow> string \<Rightarrow> nat \<Rightarrow> string option \<times> string \<times> string \<Rightarrow> string \<Rightarrow> ('w, 's, 'f) reg_state \<Rightarrow>
    ('w, 's, 'f) reg_state \<times> (registry_error, string) result" where
  "register_signature_metadata E q sub tenant project repo subject_digest signature_digest len decl reference s =
    (case decl of (signer, typ, media) \<Rightarrow>
     if \<not> en_pool E then (s, Inl (Internal ''signature store requires Postgres (enable scanner/GC or audit pool)''))
     else
      (let uuid = rq_uuid q ''signature'';
           rec = \<lparr>sr_id = uuid, sr_subject_digest = subject_digest, sr_tenant = tenant, sr_project = project, sr_repository = repo,
             sr_signature_digest = signature_digest, sr_signer_identity = signer, sr_signature_type = typ, sr_media_type = Some media,
             sr_size_bytes = int len, sr_rekor_log_index = None, sr_signed_at = rq_now q\<rparr> in
       case sig_put (rq_ok q ''signature-put'') rec (rg_signatures s) of
         (rows, Inl _) \<Rightarrow> (s\<lparr>rg_signatures := rows\<rparr>, Inl (Internal ''signature store''))
       | (rows, Inr _) \<Rightarrow>
          (let s1 = s\<lparr>rg_signatures := rows, rg_referrers := register_referrer (rq_ok q ''referrer'')
                 \<lparr>rf_subject = subject_digest, rf_artifact = signature_digest, rf_artifact_type = media, rf_media_type = media,
                  rf_size = int len\<rparr> (rg_referrers s)\<rparr>;
               s2 = fst (audit_record E q (mk_event q ''signature.push'' sub tenant project repo reference signature_digest len 201 0) s1);
               s3 = sink_append E (with_attr (sink_event q Sign ''signature.push'' sub tenant project repo (Some reference) signature_digest)
                 ''signer_identity'' (json_opt signer)) s2 in
           (s3, Inr uuid))))"

definition persist_signature :: "('w, 'h, 'u, 's, 'k, 'v) reg_env \<Rightarrow> request \<Rightarrow> string \<Rightarrow> string \<Rightarrow> string \<Rightarrow> string \<Rightarrow>
    string \<Rightarrow> bytes \<Rightarrow> string option \<times> string \<times> string \<Rightarrow> ('w, 's, 'f) reg_state \<Rightarrow>
    ('w, 's, 'f) reg_state \<times> (registry_error, string \<times> string) result" where
  "persist_signature E q sub tenant project repo subject_digest body decl s =
    (if \<not> en_signing_enabled E then (s, Inl (Forbidden ''signing disabled ([signing].enabled=false)''))
     else
      (let signature_digest = sha256_digest (en_sha E) body in
       case store_put E (blob_path tenant project repo signature_digest) body (rg_world s) of
         (w1, Inl e) \<Rightarrow> (s\<lparr>rg_world := w1\<rparr>, Inl e)
       | (w1, Inr _) \<Rightarrow>
      (case store_put E (manifest_path tenant project repo signature_digest) body w1 of
         (w2, Inl e) \<Rightarrow> (s\<lparr>rg_world := w2\<rparr>, Inl e)
       | (w2, Inr _) \<Rightarrow>
      (case cosign_sig_tag subject_digest of
         None \<Rightarrow> (s\<lparr>rg_world := w2\<rparr>, Inl (ManifestInvalid ''subject digest must be sha256:...''))
       | Some tag \<Rightarrow>
      (case store_put E (tag_link_path tenant project repo tag) signature_digest w2 of
         (w3, Inl e) \<Rightarrow> (s\<lparr>rg_world := w3\<rparr>, Inl e)
       | (w3, Inr _) \<Rightarrow>
      map_prod id (map_sum id (Pair signature_digest))
        (register_signature_metadata E q sub tenant project repo subject_digest signature_digest (length body) decl tag
          (s\<lparr>rg_world := w3\<rparr>)))))))"

definition upload_signature :: "('w, 'h, 'u, 's, 'k, 'v) reg_env \<Rightarrow> request \<Rightarrow> claims \<Rightarrow> string \<Rightarrow> string \<Rightarrow> string \<Rightarrow> string \<Rightarrow> bytes \<Rightarrow>
    ('w, 's, 'f) handler" where
  "upload_signature E q c tenant project name subject_digest body s =
    (case authorize c tenant project name action.Push of
       Inl e \<Rightarrow> (s, Some (Inl e))
     | Inr _ \<Rightarrow>
        if \<not> starts_with ''sha256:'' subject_digest
        then (s, Some (Inl (ManifestInvalid ''subject digest must be sha256:...'')))
        else (case persist_signature E q (cl_sub c) tenant project name subject_digest body
                (declared (en_sig E) body MEDIA_TYPE_COSIGN_SIMPLE) s of
           (s1, Inl e) \<Rightarrow> (s1, Some (Inl e))
         | (s1, Inr (signature_digest, uuid)) \<Rightarrow>
            (let location = ''/v2/'' @ tenant @ ''/'' @ project @ ''/'' @ name @ ''/blobs/'' @ signature_digest in
             (s1, respond 201 (if header_ok location then [(''location'', location)] else [])
               (SignatureCreated uuid subject_digest signature_digest (cosign_sig_tag subject_digest))))))"

definition signing_disabled :: registry_error where
  "signing_disabled = Forbidden ''signing disabled ([signing].enabled=false)''"

definition list_signatures :: "('w, 'h, 'u, 's, 'k, 'v) reg_env \<Rightarrow> request \<Rightarrow> claims \<Rightarrow> string \<Rightarrow> string \<Rightarrow> string \<Rightarrow> string \<Rightarrow>
    ('w, 's, 'f) handler" where
  "list_signatures E q c tenant project name digest s =
    (s, case authorize c tenant project name action.Pull of
       Inl e \<Rightarrow> Some (Inl e)
     | Inr _ \<Rightarrow>
        if \<not> en_signing_enabled E then Some (Inl signing_disabled)
        else if \<not> en_pool E then Some (Inl (Internal ''signature store not configured''))
        else (case list_for_subject (rq_ok q ''signature-list'') tenant project name digest (rg_signatures s) of
           Inl _ \<Rightarrow> Some (Inl (Internal []))
         | Inr rows \<Rightarrow> respond 200 [] (SignaturesBody rows)))"

section \<open>Verification\<close>

definition keys_of :: "('w, 'h, 'u, 's, 'k, 'v) reg_env \<Rightarrow> key_resolver" where
  "keys_of E = composite_resolve None (Some (en_file_keys E)) None"

text \<open>The gate skips artifacts it cannot read; the API returns a read that fails midway as an error.\<close>

fun load_artifacts :: "('w, 'h, 'u, 's, 'k, 'v) reg_env \<Rightarrow> string \<Rightarrow> string \<Rightarrow> string \<Rightarrow> signature_record list \<Rightarrow> 'w \<Rightarrow>
    'w \<times> signature_artifact list" where
  "load_artifacts E tenant project repo [] w = (w, [])"
| "load_artifacts E tenant project repo (rec # recs) w =
    (case store_read E (blob_path tenant project repo (sr_signature_digest rec)) w of
       (w1, r) \<Rightarrow> (case load_artifacts E tenant project repo recs w1 of
         (w2, as) \<Rightarrow> (w2, (case r of Got b \<Rightarrow> (case artifact_of (en_sig E) b of None \<Rightarrow> [] | Some a \<Rightarrow> [a]) | _ \<Rightarrow> []) @ as)))"

fun load_artifacts_strict :: "('w, 'h, 'u, 's, 'k, 'v) reg_env \<Rightarrow> string \<Rightarrow> string \<Rightarrow> string \<Rightarrow> signature_record list \<Rightarrow> 'w \<Rightarrow>
    'w \<times> (registry_error, signature_artifact list) result" where
  "load_artifacts_strict E tenant project repo [] w = (w, Inr [])"
| "load_artifacts_strict E tenant project repo (rec # recs) w =
    (case store_read E (blob_path tenant project repo (sr_signature_digest rec)) w of
       (w1, BytesErr e) \<Rightarrow> (w1, Inl (Storage (en_os_text E e)))
     | (w1, GetErr _) \<Rightarrow> load_artifacts_strict E tenant project repo recs w1
     | (w1, Got b) \<Rightarrow> (case load_artifacts_strict E tenant project repo recs w1 of
         (w2, Inl e) \<Rightarrow> (w2, Inl e)
       | (w2, Inr as) \<Rightarrow> (w2, Inr ((case artifact_of (en_sig E) b of None \<Rightarrow> [] | Some a \<Rightarrow> [a]) @ as))))"

definition verify_image :: "('w, 'h, 'u, 's, 'k, 'v) reg_env \<Rightarrow> request \<Rightarrow> claims \<Rightarrow> string \<Rightarrow> string \<Rightarrow> string \<Rightarrow> string \<Rightarrow> string list \<Rightarrow>
    ('w, 's, 'f) handler" where
  "verify_image E q c digest tenant project repo key_refs s =
    (case authorize c tenant project repo action.Pull of
       Inl e \<Rightarrow> (s, Some (Inl e))
     | Inr _ \<Rightarrow>
        if \<not> en_pool E then (s, Some (Inl (Internal ''signature store not configured'')))
        else (case list_for_subject (rq_ok q ''signature-list'') tenant project repo digest (rg_signatures s) of
           Inl _ \<Rightarrow> (s, Some (Inl (Internal [])))
         | Inr records \<Rightarrow>
            if key_refs = []
            then (s, respond 200 [] (VerifyListed (records \<noteq> []) (filter_map sr_signer_identity records) (length records)))
            else (case load_artifacts_strict E tenant project repo records (rg_world s) of
               (w1, Inl e) \<Rightarrow> (s\<lparr>rg_world := w1\<rparr>, Some (Inl e))
             | (w1, Inr artifacts) \<Rightarrow>
                (s\<lparr>rg_world := w1\<rparr>,
                 if \<not> en_signing_enabled E then Some (Inl signing_disabled)
                 else (case sigstore_verify (en_sig E) (keys_of E) digest artifacts (require_keys (rq_uuid q ''policy'') ''api'' key_refs) of
                    Inr outcome \<Rightarrow> respond 200 [] (VerifyOutcome outcome)
                  | Inl e \<Rightarrow> respond 200 [] (VerifyFailed (en_verify_text E e)))))))"

definition nil_uuid :: string where
  "nil_uuid = ''00000000-0000-0000-0000-000000000000''"

text \<open>The policy that decides a pull; \<open>None\<close> where nothing is demanded.\<close>

definition pull_policy :: "('w, 'h, 'u, 's, 'k, 'v) reg_env \<Rightarrow> request \<Rightarrow> string \<Rightarrow> string \<Rightarrow> string \<Rightarrow> ('w, 's, 'f) reg_state \<Rightarrow>
    (registry_error, verification_policy option) result" where
  "pull_policy E q tenant project repo s =
    (case policy_resolve (rq_ok q ''policy-resolve'') (en_policy_decode E) tenant project repo (rg_policies s) of
       Inl _ \<Rightarrow> Inl (Internal [])
     | Inr stored \<Rightarrow>
        (let policy = (case stored of Some p \<Rightarrow> Some (as_verification_policy p)
            | None \<Rightarrow> if en_require_for_pull E
                then Some \<lparr>vp_id = nil_uuid, vp_name = ''require_for_pull'', vp_required = True, vp_trusted_signers = [],
                  vp_on_violation = Block\<rparr> else None) in
         Inr (case policy of Some p \<Rightarrow> if vp_required p then Some p else None | None \<Rightarrow> None)))"

definition check_signatures :: "('w, 'h, 'u, 's, 'k, 'v) reg_env \<Rightarrow> verification_policy \<Rightarrow> string \<Rightarrow> string \<Rightarrow> string \<Rightarrow> string \<Rightarrow>
    signature_record list \<Rightarrow> 'w \<Rightarrow> 'w \<times> bool \<times> string" where
  "check_signatures E policy tenant project repo subject_digest records w =
    (if trusted_refs_of policy = []
     then (w, if records = [] then (False, ''no signatures registered for digest'') else (True, []))
     else (case load_artifacts E tenant project repo records w of
        (w1, artifacts) \<Rightarrow>
          (w1, case sigstore_verify (en_sig E) (keys_of E) subject_digest artifacts policy of
             Inr outcome \<Rightarrow> (vo_trusted outcome, case vo_reason outcome of None \<Rightarrow> [] | Some r \<Rightarrow> r)
           | Inl e \<Rightarrow> (False, en_verify_text E e))))"

definition enforce_pull_signature_policy :: "('w, 'h, 'u, 's, 'k, 'v) reg_env \<Rightarrow> request \<Rightarrow> string \<Rightarrow> string \<Rightarrow> string \<Rightarrow> string \<Rightarrow>
    string \<Rightarrow> ('w, 's, 'f) reg_state \<Rightarrow> ('w, 's, 'f) reg_state \<times> (registry_error, unit) result" where
  "enforce_pull_signature_policy E q sub tenant project repo subject_digest s =
    (if \<not> en_pool E
     then (s, if en_require_for_pull E then Inl (Forbidden ''signature required but policy store unavailable'') else Inr ())
     else (case pull_policy E q tenant project repo s of
        Inl e \<Rightarrow> (s, Inl e)
      | Inr None \<Rightarrow> (s, Inr ())
      | Inr (Some policy) \<Rightarrow>
         (case list_for_subject (rq_ok q ''signature-list'') tenant project repo subject_digest (rg_signatures s) of
            Inl _ \<Rightarrow> (s, Inl (Internal []))
          | Inr records \<Rightarrow>
             (case check_signatures E policy tenant project repo subject_digest records (rg_world s) of
                (w1, True, _) \<Rightarrow> (s\<lparr>rg_world := w1\<rparr>, Inr ())
              | (w1, False, why) \<Rightarrow>
                 (let ev = with_attr (with_attr (with_attr
                        (sink_event q Policy ''signature.verify.miss'' sub tenant project repo None subject_digest)
                        ''policy'' (String (vp_name policy))) ''reason'' (String why))
                        ''on_violation'' (String (violation_text (vp_on_violation policy)));
                      s1 = sink_append E ev (s\<lparr>rg_world := w1\<rparr>) in
                  (s1, case vp_on_violation policy of
                     Block \<Rightarrow> Inl (Forbidden (''signature policy '' @ quoted (vp_name policy) @ '': '' @ why))
                   | _ \<Rightarrow> Inr ()))))))"

section \<open>Admission\<close>

definition claims_bypass_admission :: "claims \<Rightarrow> bool" where
  "claims_bypass_admission c \<longleftrightarrow> contains_str ''bypass-admission'' (cl_sub c) \<or>
     (cl_role c = Admin \<and> list_ex (\<lambda>s. ts_repository s = ''*'' \<or> List.member (ts_actions s) Manage) (cl_scopes c))"

text \<open>The signature check the admission policies ask for: the pull policy's own answer.\<close>

definition admission_signature :: "('w, 'h, 'u, 's, 'k, 'v) reg_env \<Rightarrow> request \<Rightarrow> string \<Rightarrow> string \<Rightarrow> string \<Rightarrow> string \<Rightarrow> string \<Rightarrow>
    admission_policy list \<Rightarrow> ('w, 's, 'f) reg_state \<Rightarrow> ('w, 's, 'f) reg_state \<times> bool option" where
  "admission_signature E q sub tenant project repo digest policies s =
    (if \<not> list_ex (\<lambda>p. ap_signature_required (pl_spec p)) policies then (s, Some True)
     else if \<not> en_signing_enabled E then (s, Some False)
     else (case enforce_pull_signature_policy E q sub tenant project repo digest s of
        (s1, r) \<Rightarrow> (s1, Some (case r of Inl _ \<Rightarrow> False | Inr _ \<Rightarrow> True))))"

definition enforce_admission :: "('w, 'h, 'u, 's, 'k, 'v) reg_env \<Rightarrow> request \<Rightarrow> claims \<Rightarrow> string \<Rightarrow> string \<Rightarrow> string \<Rightarrow> string \<Rightarrow>
    ('w, 's, 'f) reg_state \<Rightarrow> ('w, 's, 'f) reg_state \<times> (registry_error, unit) result" where
  "enforce_admission E q c tenant project repo digest s =
    (if \<not> en_pool E then (s, Inr ())
     else
      (let policies = (case list_tenant (en_spec_decode E) (rq_ok q ''admission-list'') tenant (rg_admission s) of
           Inl _ \<Rightarrow> [] | Inr ps \<Rightarrow> ps) in
       if policies = [] then (s, Inr ())
       else
        (let scan = fetch_scan (en_scan_store E) (rq_ok q ''scan-get'') digest (rg_scans s);
             (s1, signature_ok) = admission_signature E q (cl_sub c) tenant project repo digest policies s;
             (cache, v) = admission_evaluate (rq_clock q) policies scan
               \<lparr>ai_tenant = tenant, ai_project = project, ai_repository = repo, ai_digest = digest, ai_subject = cl_sub c,
                ai_bypass = claims_bypass_admission c, ai_signature_ok = signature_ok\<rparr> (rg_cache s1);
             s2 = s1\<lparr>rg_cache := cache, rg_decisions := fst (record_decision (rq_ok q ''decision'') digest
               (Some (pl_id (hd policies))) v (cl_sub c) (rg_decisions s1))\<rparr>;
             audited = (\<lambda>typ code. fst (audit_record E q (mk_event q typ (cl_sub c) tenant project repo digest digest 0 code 0) s2)) in
         case v of
           Allow \<Rightarrow> (s2, Inr ())
         | WarnOf _ \<Rightarrow> (audited ''admission.warn'' 200, Inr ())
         | BlockOf why _ \<Rightarrow> (audited ''admission.block'' 403, Inl (ManifestUnverified why)))))"

section \<open>Verification policies\<close>

definition signing_admin_authorize :: "claims \<Rightarrow> (registry_error, unit) result" where
  "signing_admin_authorize c = (if cl_role c \<noteq> Admin then Inl (Forbidden ''signing policy endpoints require Admin role'') else Inr ())"

record policy_upsert_body =
  pu_id :: "string option"
  pu_enabled :: "bool option"
  pu_spec :: policy_spec
  pu_on_violation :: "on_violation option"

definition upsert_verification_policy :: "('w, 'h, 'u, 's, 'k, 'v) reg_env \<Rightarrow> request \<Rightarrow> claims \<Rightarrow> string \<Rightarrow> string \<Rightarrow>
    policy_upsert_body \<Rightarrow> ('w, 's, 'f) handler" where
  "upsert_verification_policy E q c tenant name body s =
    (case signing_admin_authorize c of
       Inl e \<Rightarrow> (s, Some (Inl e))
     | Inr _ \<Rightarrow>
        if \<not> en_signing_enabled E then (s, Some (Inl signing_disabled))
        else if \<not> en_pool E then (s, Some (Inl (Internal ''policy store not configured'')))
        else
         (let p = \<lparr>st_id = (case pu_id body of None \<Rightarrow> rq_uuid q ''policy'' | Some i \<Rightarrow> i), st_name = name, st_tenant = tenant,
                st_spec = pu_spec body, st_enabled = (case pu_enabled body of None \<Rightarrow> True | Some b \<Rightarrow> b),
                st_on_violation = (case pu_on_violation body of None \<Rightarrow> sp_on_violation (pu_spec body) | Some v \<Rightarrow> v)\<rparr> in
          case policy_upsert (rq_ok q ''policy-upsert'') (en_policy_encode E) p (rg_policies s) of
            (rows, Inl _) \<Rightarrow> (s\<lparr>rg_policies := rows\<rparr>, Some (Inl (Internal [])))
          | (rows, Inr _) \<Rightarrow> (s\<lparr>rg_policies := rows\<rparr>, respond 200 [] (PolicyBody p))))"

definition get_verification_policy :: "('w, 'h, 'u, 's, 'k, 'v) reg_env \<Rightarrow> request \<Rightarrow> claims \<Rightarrow> string \<Rightarrow> string \<Rightarrow> ('w, 's, 'f) handler" where
  "get_verification_policy E q c tenant name s =
    (s, case signing_admin_authorize c of
       Inl e \<Rightarrow> Some (Inl e)
     | Inr _ \<Rightarrow> if \<not> en_pool E then Some (Inl (Internal ''policy store not configured''))
        else (case policy_get (rq_ok q ''policy-get'') (en_policy_decode E) tenant name (rg_policies s) of
           Inl _ \<Rightarrow> Some (Inl (Internal []))
         | Inr None \<Rightarrow> Some (Inl (NameUnknown name))
         | Inr (Some p) \<Rightarrow> respond 200 [] (PolicyBody p)))"

definition delete_verification_policy :: "('w, 'h, 'u, 's, 'k, 'v) reg_env \<Rightarrow> request \<Rightarrow> claims \<Rightarrow> string \<Rightarrow> string \<Rightarrow> ('w, 's, 'f) handler" where
  "delete_verification_policy E q c tenant name s =
    (case signing_admin_authorize c of
       Inl e \<Rightarrow> (s, Some (Inl e))
     | Inr _ \<Rightarrow> if \<not> en_pool E then (s, Some (Inl (Internal ''policy store not configured'')))
        else (case policy_delete (rq_ok q ''policy-delete'') tenant name (rg_policies s) of
           (rows, Inl _) \<Rightarrow> (s\<lparr>rg_policies := rows\<rparr>, Some (Inl (Internal [])))
         | (rows, Inr True) \<Rightarrow> (s\<lparr>rg_policies := rows\<rparr>, respond 204 [] NoBody)
         | (rows, Inr False) \<Rightarrow> (s\<lparr>rg_policies := rows\<rparr>, Some (Inl (NameUnknown name)))))"

end
