(* ===== verification/Registry_Manifests.thy ===== *)
theory Registry_Manifests
  imports Registry_Gate
begin

text \<open>
  The manifest handlers of \<open>main.rs\<close> - head, get, put, delete - and the replication
  endpoints that write manifests and blobs for another region.
\<close>

definition api_version :: "string \<times> string" where
  "api_version = (''docker-distribution-api-version'', ''registry/2.0'')"

definition manifest_headers :: "('w, 'h, 'u, 's, 'k, 'v) reg_env \<Rightarrow> bytes \<Rightarrow> (string \<times> string) list" where
  "manifest_headers E data = [(''docker-content-digest'', sha256_digest (en_sha E) data),
     (''content-type'', detect_manifest_media_type (en_json E) data), (''content-length'', show_nat (length data))]"

section \<open>Reading\<close>

definition head_manifest :: "('w, 'h, 'u, 's, 'k, 'v) reg_env \<Rightarrow> claims \<Rightarrow> string \<Rightarrow> string \<Rightarrow> string \<Rightarrow> string \<Rightarrow> ('w, 's, 'f) handler" where
  "head_manifest E c tenant project name reference s =
    (case authorize c tenant project name action.Pull of
       Inl e \<Rightarrow> (s, Some (Inl e))
     | Inr _ \<Rightarrow>
        (case resolve_manifest_path E tenant project name reference (rg_world s) of
           (w1, Inl e) \<Rightarrow> (s\<lparr>rg_world := w1\<rparr>, Some (Inl e))
         | (w1, Inr p) \<Rightarrow>
            (let failed = (\<lambda>e. Inl (if is_store_not_found e then ManifestUnknown reference else Storage (en_os_text E e))) in
             case store_read E p w1 of
               (w2, GetErr e) \<Rightarrow> (s\<lparr>rg_world := w2\<rparr>, Some (failed e))
             | (w2, BytesErr e) \<Rightarrow> (s\<lparr>rg_world := w2\<rparr>, Some (failed e))
             | (w2, Got data) \<Rightarrow> (s\<lparr>rg_world := w2\<rparr>, respond 200 (manifest_headers E data) NoBody))))"

definition local_manifest :: "('w, 'h, 'u, 's, 'k, 'v) reg_env \<Rightarrow> string \<Rightarrow> string \<Rightarrow> string \<Rightarrow> string \<Rightarrow> 'w \<Rightarrow>
    'w \<times> (registry_error, bytes option) result" where
  "local_manifest E tenant project name reference w =
    (case resolve_manifest_path E tenant project name reference w of
       (w1, Inl _) \<Rightarrow> (w1, Inr None)
     | (w1, Inr p) \<Rightarrow> (case store_read E p w1 of
         (w2, Got d) \<Rightarrow> (w2, Inr (Some d))
       | (w2, BytesErr e) \<Rightarrow> (w2, Inl (Storage (en_os_text E e)))
       | (w2, GetErr e) \<Rightarrow> (w2, if is_store_not_found e then Inr None else Inl (Storage (en_os_text E e)))))"

text \<open>
  A local miss: the mirror if there is one, else another region. \<open>fetch\<close> is the mirror's
  \<open>fetch_manifest\<close> or \<open>fetch_blob\<close>.
\<close>

definition remote_read :: "('w, 'h, 'u, 's, 'k, 'v) reg_env \<Rightarrow> ('w, fetch_result) fetch \<Rightarrow> registry_error \<Rightarrow> string \<Rightarrow>
    ('w, 's, 'f) reg_state \<Rightarrow> ('w, 's, 'f) reg_state \<times> (registry_error, bytes) result option" where
  "remote_read E fetch missing url s = (case rg_mirror s of
     Some m \<Rightarrow> (case fetch (m, rg_world s) of
         ((m', w'), None) \<Rightarrow> (s\<lparr>rg_mirror := Some m', rg_world := w'\<rparr>, None)
       | ((m', w'), Some (Inl e)) \<Rightarrow> (s\<lparr>rg_mirror := Some m', rg_world := w'\<rparr>,
           Some (Inl (if mirror_not_found_equivalent e then missing else UpstreamError (en_mirror_text E e))))
       | ((m', w'), Some (Inr r)) \<Rightarrow> (s\<lparr>rg_mirror := Some m', rg_world := w'\<rparr>, Some (Inr (fr_data r))))
   | None \<Rightarrow> (case failover_read (en_proxy E) (en_failover E) url (rg_world s) of
         (w', Some b) \<Rightarrow> (s\<lparr>rg_world := w'\<rparr>, Some (Inr b))
       | (w', None) \<Rightarrow> (s\<lparr>rg_world := w'\<rparr>, Some (Inl missing))))"

definition find_manifest :: "('w, 'h, 'u, 's, 'k, 'v) reg_env \<Rightarrow> string \<Rightarrow> string \<Rightarrow> string \<Rightarrow> string \<Rightarrow>
    ('w, 's, 'f) reg_state \<Rightarrow> ('w, 's, 'f) reg_state \<times> (registry_error, bytes) result option" where
  "find_manifest E tenant project name reference s =
    (case local_manifest E tenant project name reference (rg_world s) of
       (w1, Inl e) \<Rightarrow> (s\<lparr>rg_world := w1\<rparr>, Some (Inl e))
     | (w1, Inr (Some d)) \<Rightarrow> (s\<lparr>rg_world := w1\<rparr>, Some (Inr d))
     | (w1, Inr None) \<Rightarrow> remote_read E (fetch_manifest (en_mirror E) tenant project name reference) (ManifestUnknown reference)
         (''/v2/'' @ tenant @ ''/'' @ project @ ''/'' @ name @ ''/manifests/'' @ reference) (s\<lparr>rg_world := w1\<rparr>))"

text \<open>Both gates, skipped for the tags of signatures.\<close>

definition pull_gates :: "('w, 'h, 'u, 's, 'k, 'v) reg_env \<Rightarrow> request \<Rightarrow> claims \<Rightarrow> string \<Rightarrow> string \<Rightarrow> string \<Rightarrow> string \<Rightarrow> string \<Rightarrow>
    ('w, 's, 'f) reg_state \<Rightarrow> ('w, 's, 'f) reg_state \<times> (registry_error, unit) result" where
  "pull_gates E q c tenant project name reference digest s =
    (if is_cosign_sig_tag reference then (s, Inr ())
     else (case (if en_signing_enabled E then enforce_pull_signature_policy E q (cl_sub c) tenant project name digest s else (s, Inr ())) of
        (s1, Inl e) \<Rightarrow> (s1, Inl e)
      | (s1, Inr _) \<Rightarrow> if en_admission_enabled E then enforce_admission E q c tenant project name digest s1 else (s1, Inr ())))"

definition get_manifest :: "('w, 'h, 'u, 's, 'k, 'v) reg_env \<Rightarrow> request \<Rightarrow> claims \<Rightarrow> string \<Rightarrow> string \<Rightarrow> string \<Rightarrow> string \<Rightarrow>
    ('w, 's, 'f) handler" where
  "get_manifest E q c tenant project name reference s =
    (case authorize c tenant project name action.Pull of
       Inl e \<Rightarrow> (s, Some (Inl e))
     | Inr _ \<Rightarrow>
        (case find_manifest E tenant project name reference s of
           (s1, None) \<Rightarrow> (s1, None)
         | (s1, Some (Inl e)) \<Rightarrow> (s1, Some (Inl e))
         | (s1, Some (Inr data)) \<Rightarrow>
            (let digest = sha256_digest (en_sha E) data in
             case pull_gates E q c tenant project name reference digest s1 of
               (s2, Inl e) \<Rightarrow> (s2, Some (Inl e))
             | (s2, Inr _) \<Rightarrow>
                (case respond 200 (manifest_headers E data @ [api_version]) (Raw data) of
                   None \<Rightarrow> (s2, None)
                 | Some r \<Rightarrow>
                    (record_usage q tenant project name UManifestGet (length data) 200 (cl_sub c)
                      (fst (audit_record E q (mk_event q ''manifest.pull'' (cl_sub c) tenant project name reference digest
                        (length data) 200 (rq_ms q)) s2)), Some r)))))"

section \<open>Pushing\<close>

text \<open>
  The header \<open>X-SpectonCR-TTL\<close>: a row of \<open>tags\<close> and a response header. The duration parser
  can panic, after the manifest and the tag are stored.
\<close>

definition record_ttl :: "('w, 'h, 'u, 's, 'k, 'v) reg_env \<Rightarrow> request \<Rightarrow> string option \<Rightarrow> tag_row \<Rightarrow> ('w, 's, 'f) reg_state \<Rightarrow>
    (('w, 's, 'f) reg_state \<times> (string \<times> string) list) option" where
  "record_ttl E q ttl row s = (case ttl of
     None \<Rightarrow> Some (s, [])
   | Some raw \<Rightarrow>
      if \<not> en_pool E then Some (s, [])
      else (case parse_ttl_header (en_chrono E) (rq_now q) raw of
         None \<Rightarrow> None
       | Some (Inl _) \<Rightarrow> Some (s, [])
       | Some (Inr expires) \<Rightarrow>
          if rq_ok q ''ttl''
          then Some (s\<lparr>rg_tags := upsert_tag (row\<lparr>tg_expires_at := Some expires\<rparr>) (rg_tags s)\<rparr>,
             [(''x-spectoncr-ttl-expires-at'', ch_show_rfc3339 (en_chrono E) expires)])
          else Some (s, [])))"

definition gc_add :: "('w, 'h, 'u, 's, 'k, 'v) reg_env \<Rightarrow> request \<Rightarrow> string \<Rightarrow> string \<Rightarrow> string \<Rightarrow> string \<Rightarrow> bytes \<Rightarrow> gc_db \<Rightarrow> gc_db" where
  "gc_add E q tenant project name digest body db = (case extract_blob_digests (en_json E) body of
     Inl _ \<Rightarrow> db
   | Inr blobs \<Rightarrow> if en_gc_online E then fst (add_refs (rq_ok q ''gc-add'') (rq_db_now q) tenant project name digest blobs db)
       else fst (noop_add_refs tenant project name digest blobs db))"

text \<open>The tasks a push spawns, the replication event and the webhook.\<close>

definition push_tasks :: "('w, 'h, 'u, 's, 'k, 'v) reg_env \<Rightarrow> request \<Rightarrow> string \<Rightarrow> string \<Rightarrow> string \<Rightarrow> string \<Rightarrow> string \<Rightarrow> bytes \<Rightarrow>
    ('w, 's, 'f) reg_state \<Rightarrow> ('w, 's, 'f) reg_state" where
  "push_tasks E q tenant project name reference digest body s =
    (let s1 = (if en_artifacts E \<and> en_pool E
           then spawn (ValidateArtifact (detect_manifest_media_type (en_json E) body) body digest) s else s);
         s2 = (case extract_config_digest (en_json E) body of
           Some cfg \<Rightarrow> if en_pool E then spawn (CaptureLineage tenant project name digest cfg) s1 else s1 | None \<Rightarrow> s1);
         s3 = enqueue E (rv_manifest_push (rq_uuid q ''replication'') (rq_now q) tenant project name reference digest (length body)) s2;
         s4 = notify E q ''manifest.push'' tenant project name reference digest (length body) s3 in
     if en_scanner E then spawn (EnqueueScan \<lparr>jb_id = rq_uuid q ''scan'', jb_digest = digest, jb_tenant = tenant, jb_project = project,
         jb_repository = name, jb_reference = reference\<rparr>) s4 else s4)"

definition register_sig_tag :: "('w, 'h, 'u, 's, 'k, 'v) reg_env \<Rightarrow> request \<Rightarrow> string \<Rightarrow> string \<Rightarrow> string \<Rightarrow> string \<Rightarrow> string \<Rightarrow> string \<Rightarrow>
    bytes \<Rightarrow> ('w, 's, 'f) reg_state \<Rightarrow> ('w, 's, 'f) reg_state" where
  "register_sig_tag E q sub tenant project name reference digest body s =
    (case subject_digest_from_sig_tag reference of
       None \<Rightarrow> s
     | Some subject \<Rightarrow>
        if \<not> en_signing_enabled E then s
        else fst (register_signature_metadata E q sub tenant project name subject digest (length body)
          (declared (en_sig E) body (detect_manifest_media_type (en_json E) body)) reference s))"

text \<open>The two writes of a push: the manifest under its digest, and the link of the tag.\<close>

definition store_manifest :: "('w, 'h, 'u, 's, 'k, 'v) reg_env \<Rightarrow> string \<Rightarrow> string \<Rightarrow> string \<Rightarrow> string \<Rightarrow> string \<Rightarrow> bytes \<Rightarrow>
    'w \<Rightarrow> 'w \<times> (registry_error, unit) result" where
  "store_manifest E tenant project name reference digest body w =
    (case store_put E (manifest_path tenant project name digest) body w of
       (w1, Inl e) \<Rightarrow> (w1, Inl e)
     | (w1, Inr _) \<Rightarrow> if starts_with ''sha256:'' reference then (w1, Inr ())
         else store_put E (tag_link_path tenant project name reference) digest w1)"

definition put_manifest :: "('w, 'h, 'u, 's, 'k, 'v) reg_env \<Rightarrow> request \<Rightarrow> claims \<Rightarrow> string \<Rightarrow> string \<Rightarrow> string \<Rightarrow> string \<Rightarrow>
    string option \<Rightarrow> bytes \<Rightarrow> ('w, 's, 'f) handler" where
  "put_manifest E q c tenant project name reference ttl body s =
    (case authorize c tenant project name action.Push of
       Inl e \<Rightarrow> (s, Some (Inl e))
     | Inr _ \<Rightarrow>
        if en_json E body = None then (s, Some (Inl (ManifestInvalid (en_json_error E body))))
        else
         (let digest = sha256_digest (en_sha E) body in
          case store_manifest E tenant project name reference digest body (rg_world s) of
            (w1, Inl e) \<Rightarrow> (s\<lparr>rg_world := w1\<rparr>, Some (Inl e))
          | (w1, Inr _) \<Rightarrow>
             (let s1 = s\<lparr>rg_world := w1\<rparr>;
                  row = \<lparr>tg_tenant = tenant, tg_project = project, tg_repository = name, tg_tag = reference, tg_digest = digest,
                    tg_pushed_by = Some (cl_sub c), tg_expires_at = None\<rparr> in
              case (if starts_with ''sha256:'' reference then Some (s1, []) else record_ttl E q ttl row s1) of
                None \<Rightarrow> (s1, None)
              | Some (s2, extra) \<Rightarrow>
                 (let s3 = push_tasks E q tenant project name reference digest body
                        (s2\<lparr>rg_gc := gc_add E q tenant project name digest body (rg_gc s2)\<rparr>);
                      location = ''/v2/'' @ tenant @ ''/'' @ project @ ''/'' @ name @ ''/manifests/'' @ digest in
                  case respond 201 ([(''docker-content-digest'', digest), (''location'', location), api_version] @
                      filter (\<lambda>(_, v). header_ok v) extra) NoBody of
                    None \<Rightarrow> (s3, None)
                  | Some r \<Rightarrow>
                     (case audit_record E q (mk_event q ''manifest.push'' (cl_sub c) tenant project name reference digest
                            (length body) 201 (rq_ms q)) s3 of
                        (s4, Inl e) \<Rightarrow> (s4, Some (Inl e))
                      | (s4, Inr _) \<Rightarrow>
                         (register_sig_tag E q (cl_sub c) tenant project name reference digest body
                           (record_usage q tenant project name UManifestPut (length body) 201 (cl_sub c) s4), Some r))))))"

section \<open>Deleting\<close>

text \<open>The digest a reference stands for, and whether it is a tag.\<close>

definition delete_target :: "('w, 'h, 'u, 's, 'k, 'v) reg_env \<Rightarrow> string \<Rightarrow> string \<Rightarrow> string \<Rightarrow> string \<Rightarrow> 'w \<Rightarrow>
    'w \<times> (registry_error, string \<times> bool) result" where
  "delete_target E tenant project name reference w = (case strip_prefix ''sha256-'' reference of
     Some hex \<Rightarrow> (w, Inr (''sha256:'' @ hex, False))
   | None \<Rightarrow>
      if starts_with ''sha256:'' reference then (w, Inr (reference, False))
      else (case read_tag_link E tenant project name reference w of
         (w1, Inl e) \<Rightarrow> (w1, Inl e)
       | (w1, Inr None) \<Rightarrow> (w1, Inl (ManifestUnknown reference))
       | (w1, Inr (Some d)) \<Rightarrow> (w1, Inr (d, True))))"

definition delete_digest :: "('w, 'h, 'u, 's, 'k, 'v) reg_env \<Rightarrow> string \<Rightarrow> string \<Rightarrow> string \<Rightarrow> string \<Rightarrow> string \<Rightarrow> 'w \<Rightarrow>
    'w \<times> (registry_error, unit) result" where
  "delete_digest E tenant project name reference digest w =
    (case os_delete (en_store E) (os_path (en_store E) (manifest_path tenant project name digest)) w of
       (w1, r) \<Rightarrow>
        (case r of
           Inl e \<Rightarrow> if is_store_not_found e
             then (case delete_tags_for_digest E tenant project name digest w1 of
                (w2, Inl x) \<Rightarrow> (w2, Inl x)
              | (w2, Inr removed) \<Rightarrow> (w2, if removed = [] then Inl (ManifestUnknown reference) else Inr ()))
             else (w1, Inl (Storage (en_os_text E e)))
         | Inr _ \<Rightarrow> (case delete_tags_for_digest E tenant project name digest w1 of
                (w2, Inl x) \<Rightarrow> (w2, Inl x)
              | (w2, Inr _) \<Rightarrow> (w2, Inr ()))))"

definition gc_remove :: "('w, 'h, 'u, 's, 'k, 'v) reg_env \<Rightarrow> request \<Rightarrow> string \<Rightarrow> string \<Rightarrow> gc_db \<Rightarrow> gc_db" where
  "gc_remove E q tenant digest db = (if en_gc_online E then fst (remove_refs (rq_ok q ''gc-remove'') (rq_db_now q) tenant digest db)
     else fst (noop_remove_refs tenant digest db))"

definition delete_manifest :: "('w, 'h, 'u, 's, 'k, 'v) reg_env \<Rightarrow> request \<Rightarrow> claims \<Rightarrow> string \<Rightarrow> string \<Rightarrow> string \<Rightarrow> string \<Rightarrow>
    ('w, 's, 'f) handler" where
  "delete_manifest E q c tenant project name reference s =
    (case authorize c tenant project name action.Delete of
       Inl e \<Rightarrow> (s, Some (Inl e))
     | Inr _ \<Rightarrow>
        (case delete_target E tenant project name reference (rg_world s) of
           (w1, Inl e) \<Rightarrow> (s\<lparr>rg_world := w1\<rparr>, Some (Inl e))
         | (w1, Inr (digest, is_tag)) \<Rightarrow>
            (case (if is_tag
                   then map_prod id (map_sum (\<lambda>e. Storage (en_os_text E e)) id)
                     (os_delete (en_store E) (os_path (en_store E) (tag_link_path tenant project name reference)) w1)
                   else delete_digest E tenant project name reference digest w1) of
               (w2, Inl e) \<Rightarrow> (s\<lparr>rg_world := w2\<rparr>, Some (Inl e))
             | (w2, Inr _) \<Rightarrow>
                (let s1 = s\<lparr>rg_world := w2, rg_gc := (if is_tag then rg_gc s else gc_remove E q tenant digest (rg_gc s))\<rparr>;
                     s2 = enqueue E (rv_manifest_delete (rq_uuid q ''replication'') (rq_now q) tenant project name
                       (if is_tag then reference else digest) digest) s1;
                     s3 = notify E q ''manifest.delete'' tenant project name reference reference 0 s2 in
                 case audit_record E q (mk_event q ''manifest.delete'' (cl_sub c) tenant project name reference reference 0 202 (rq_ms q)) s3 of
                   (s4, Inl e) \<Rightarrow> (s4, Some (Inl e))
                 | (s4, Inr _) \<Rightarrow> (record_usage q tenant project name UDelete 0 202 (cl_sub c) s4, respond 202 [] NoBody)))))"

section \<open>Replication from another region\<close>

text \<open>These routes carry no token; they are merged into the public router as well.\<close>

definition internal_replicate_manifest :: "('w, 'h, 'u, 's, 'k, 'v) reg_env \<Rightarrow> request \<Rightarrow> (string \<rightharpoonup> string) \<Rightarrow> bytes \<Rightarrow>
    ('w, 's, 'f) handler" where
  "internal_replicate_manifest E q hs body s =
    (case (extract_header hs ''x-replication-tenant'', extract_header hs ''x-replication-project'',
           extract_header hs ''x-replication-repo'', extract_header hs ''x-replication-reference'',
           extract_header hs ''x-replication-digest'') of
       (Inl e, _) \<Rightarrow> (s, Some (Inl e))
     | (_, Inl e, _) \<Rightarrow> (s, Some (Inl e))
     | (_, _, Inl e, _) \<Rightarrow> (s, Some (Inl e))
     | (_, _, _, Inl e, _) \<Rightarrow> (s, Some (Inl e))
     | (_, _, _, _, Inl e) \<Rightarrow> (s, Some (Inl e))
     | (Inr tenant, Inr project, Inr repo, Inr reference, Inr digest) \<Rightarrow>
        (case store_manifest E tenant project repo reference digest body (rg_world s) of
           (w1, Inl e) \<Rightarrow> (s\<lparr>rg_world := w1\<rparr>, Some (Inl e))
         | (w1, Inr _) \<Rightarrow>
            (let region = (case hs ''x-replication-source-region'' of None \<Rightarrow> [] | Some r \<Rightarrow> r) in
             case audit_record E q (mk_event q ''manifest.replicated'' (''replication:'' @ region) tenant project repo reference digest
                    (length body) 200 0) (s\<lparr>rg_world := w1\<rparr>) of
               (s2, Inl e) \<Rightarrow> (s2, Some (Inl e))
             | (s2, Inr _) \<Rightarrow> (s2, respond 200 [] NoBody))))"

definition internal_replicate_blob :: "('w, 'h, 'u, 's, 'k, 'v) reg_env \<Rightarrow> (string \<rightharpoonup> string) \<Rightarrow> bytes \<Rightarrow> ('w, 's, 'f) handler" where
  "internal_replicate_blob E hs body s =
    (case (extract_header hs ''x-replication-tenant'', extract_header hs ''x-replication-project'',
           extract_header hs ''x-replication-repo'', extract_header hs ''x-replication-digest'') of
       (Inl e, _) \<Rightarrow> (s, Some (Inl e))
     | (_, Inl e, _) \<Rightarrow> (s, Some (Inl e))
     | (_, _, Inl e, _) \<Rightarrow> (s, Some (Inl e))
     | (_, _, _, Inl e) \<Rightarrow> (s, Some (Inl e))
     | (Inr tenant, Inr project, Inr repo, Inr digest) \<Rightarrow>
        (case store_put_chunked E (blob_path tenant project repo digest) body (rg_world s) of
           None \<Rightarrow> (s, None)
         | Some (w1, Inl e) \<Rightarrow> (s\<lparr>rg_world := w1\<rparr>, Some (Inl e))
         | Some (w1, Inr _) \<Rightarrow> (s\<lparr>rg_world := w1\<rparr>, respond 200 [] NoBody)))"

definition internal_replicate_delete :: "('w, 'h, 'u, 's, 'k, 'v) reg_env \<Rightarrow> bytes \<Rightarrow> ('w, 's, 'f) handler" where
  "internal_replicate_delete E body s = (case en_parse_event E body of
     None \<Rightarrow> (s, Some (Inl (Internal ''invalid replication event'')))
   | Some ev \<Rightarrow>
      if starts_with ''sha256:'' (rv_reference ev)
      then (let w1 = fst (os_delete (en_store E) (os_path (en_store E)
               (manifest_path (rv_tenant ev) (rv_project ev) (rv_repo ev) (rv_digest ev))) (rg_world s)) in
            case delete_tags_for_digest E (rv_tenant ev) (rv_project ev) (rv_repo ev) (rv_digest ev) w1 of
              (w2, Inl e) \<Rightarrow> (s\<lparr>rg_world := w2\<rparr>, Some (Inl e))
            | (w2, Inr _) \<Rightarrow> (s\<lparr>rg_world := w2\<rparr>, respond 200 [] NoBody))
      else (s\<lparr>rg_world := fst (os_delete (en_store E) (os_path (en_store E)
               (tag_link_path (rv_tenant ev) (rv_project ev) (rv_repo ev) (rv_reference ev))) (rg_world s))\<rparr>,
            respond 200 [] NoBody))"

end
