(* ===== verification/Registry_Blobs.thy ===== *)
theory Registry_Blobs
  imports Registry_Manifests
begin

text \<open>
  The blob, upload and listing handlers of \<open>main.rs\<close> and the readiness check of an image.
\<close>

section \<open>Blobs\<close>

definition blob_headers :: "string \<Rightarrow> nat \<Rightarrow> (string \<times> string) list" where
  "blob_headers digest len = [(''docker-content-digest'', digest), (''content-length'', show_nat len),
     (''content-type'', ''application/octet-stream'')]"

definition head_blob :: "('w, 'h, 'u, 's, 'k, 'v) reg_env \<Rightarrow> claims \<Rightarrow> string \<Rightarrow> string \<Rightarrow> string \<Rightarrow> string \<Rightarrow> ('w, 's, 'f) handler" where
  "head_blob E c tenant project name digest s =
    (case authorize c tenant project name action.Pull of
       Inl e \<Rightarrow> (s, Some (Inl e))
     | Inr _ \<Rightarrow> (case os_head (en_store E) (os_path (en_store E) (blob_path tenant project name digest)) (rg_world s) of
         (w1, Inl _) \<Rightarrow> (s\<lparr>rg_world := w1\<rparr>, Some (Inl (BlobUnknown digest)))
       | (w1, Inr len) \<Rightarrow> (s\<lparr>rg_world := w1\<rparr>, respond 200 (blob_headers digest len) NoBody)))"

definition find_blob :: "('w, 'h, 'u, 's, 'k, 'v) reg_env \<Rightarrow> string \<Rightarrow> string \<Rightarrow> string \<Rightarrow> string \<Rightarrow>
    ('w, 's, 'f) reg_state \<Rightarrow> ('w, 's, 'f) reg_state \<times> (registry_error, bytes) result option" where
  "find_blob E tenant project name digest s =
    (case store_read E (blob_path tenant project name digest) (rg_world s) of
       (w1, Got d) \<Rightarrow> (s\<lparr>rg_world := w1\<rparr>, Some (Inr d))
     | (w1, BytesErr e) \<Rightarrow> (s\<lparr>rg_world := w1\<rparr>, Some (Inl (Storage (en_os_text E e))))
     | (w1, GetErr e) \<Rightarrow>
        if \<not> is_store_not_found e then (s\<lparr>rg_world := w1\<rparr>, Some (Inl (Storage (en_os_text E e))))
        else remote_read E (fetch_blob (en_mirror E) tenant project name digest) (BlobUnknown digest)
          (''/v2/'' @ tenant @ ''/'' @ project @ ''/'' @ name @ ''/blobs/'' @ digest) (s\<lparr>rg_world := w1\<rparr>))"

definition get_blob :: "('w, 'h, 'u, 's, 'k, 'v) reg_env \<Rightarrow> request \<Rightarrow> claims \<Rightarrow> string \<Rightarrow> string \<Rightarrow> string \<Rightarrow> string \<Rightarrow>
    ('w, 's, 'f) handler" where
  "get_blob E q c tenant project name digest s =
    (case authorize c tenant project name action.Pull of
       Inl e \<Rightarrow> (s, Some (Inl e))
     | Inr _ \<Rightarrow>
        (case find_blob E tenant project name digest s of
           (s1, None) \<Rightarrow> (s1, None)
         | (s1, Some (Inl e)) \<Rightarrow> (s1, Some (Inl e))
         | (s1, Some (Inr data)) \<Rightarrow>
            (case respond 200 (blob_headers digest (length data)) (Raw data) of
               None \<Rightarrow> (s1, None)
             | Some r \<Rightarrow>
                (record_usage q tenant project name UPull (length data) 200 (cl_sub c)
                  (fst (audit_record E q (mk_event q ''blob.pull'' (cl_sub c) tenant project name [] digest (length data) 200 (rq_ms q)) s1)),
                 Some r))))"

section \<open>Uploads\<close>

definition upload_location :: "string \<Rightarrow> string \<Rightarrow> string \<Rightarrow> string \<Rightarrow> string" where
  "upload_location tenant project name uuid = ''/v2/'' @ tenant @ ''/'' @ project @ ''/'' @ name @ ''/blobs/uploads/'' @ uuid"

definition initiate_blob_upload :: "('w, 'h, 'u, 's, 'k, 'v) reg_env \<Rightarrow> request \<Rightarrow> claims \<Rightarrow> string \<Rightarrow> string \<Rightarrow> string \<Rightarrow>
    ('w, 's, 'f) handler" where
  "initiate_blob_upload E q c tenant project name s =
    (case authorize c tenant project name action.Push of
       Inl e \<Rightarrow> (s, Some (Inl e))
     | Inr _ \<Rightarrow>
        (let uuid = rq_uuid q ''upload'' in
         case store_put E (upload_path tenant project name uuid) [] (rg_world s) of
           (w1, Inl e) \<Rightarrow> (s\<lparr>rg_world := w1\<rparr>, Some (Inl e))
         | (w1, Inr _) \<Rightarrow> (s\<lparr>rg_world := w1\<rparr>, respond 202 [(''location'', upload_location tenant project name uuid),
             (''docker-upload-uuid'', uuid), (''range'', ''0-0''), (''content-length'', ''0''), api_version] NoBody)))"

text \<open>The bytes uploaded so far; any error of the first read means there is no such upload.\<close>

definition read_upload :: "('w, 'h, 'u, 's, 'k, 'v) reg_env \<Rightarrow> string \<Rightarrow> string \<Rightarrow> string \<Rightarrow> string \<Rightarrow> 'w \<Rightarrow>
    'w \<times> (registry_error, bytes) result" where
  "read_upload E tenant project name uuid w = (case store_read E (upload_path tenant project name uuid) w of
     (w1, Got d) \<Rightarrow> (w1, Inr d)
   | (w1, BytesErr e) \<Rightarrow> (w1, Inl (Storage (en_os_text E e)))
   | (w1, GetErr _) \<Rightarrow> (w1, Inl BlobUploadInvalid))"

definition upload_blob_chunk :: "('w, 'h, 'u, 's, 'k, 'v) reg_env \<Rightarrow> claims \<Rightarrow> string \<Rightarrow> string \<Rightarrow> string \<Rightarrow> string \<Rightarrow> bytes \<Rightarrow>
    ('w, 's, 'f) handler" where
  "upload_blob_chunk E c tenant project name uuid body s =
    (case authorize c tenant project name action.Push of
       Inl e \<Rightarrow> (s, Some (Inl e))
     | Inr _ \<Rightarrow>
        (case read_upload E tenant project name uuid (rg_world s) of
           (w1, Inl e) \<Rightarrow> (s\<lparr>rg_world := w1\<rparr>, Some (Inl e))
         | (w1, Inr existing) \<Rightarrow>
            (case store_put_chunked E (upload_path tenant project name uuid) (existing @ body) w1 of
               None \<Rightarrow> (s\<lparr>rg_world := w1\<rparr>, None)
             | Some (w2, Inl e) \<Rightarrow> (s\<lparr>rg_world := w2\<rparr>, Some (Inl e))
             | Some (w2, Inr _) \<Rightarrow> (s\<lparr>rg_world := w2\<rparr>, respond 202 [(''location'', upload_location tenant project name uuid),
                 (''docker-upload-uuid'', uuid), (''range'', ''0-'' @ show_nat (length (existing @ body) - 1)),
                 (''content-length'', ''0''), api_version] NoBody))))"

text \<open>What follows the write of the blob.\<close>

definition finish_upload :: "('w, 'h, 'u, 's, 'k, 'v) reg_env \<Rightarrow> request \<Rightarrow> claims \<Rightarrow> string \<Rightarrow> string \<Rightarrow> string \<Rightarrow> string \<Rightarrow> nat \<Rightarrow>
    ('w, 's, 'f) handler" where
  "finish_upload E q c tenant project name digest len s =
    (let s1 = enqueue E (rv_blob_push (rq_uuid q ''replication'') (rq_now q) tenant project name digest len) s;
         s2 = notify E q ''blob.push'' tenant project name [] digest len s1 in
     case respond 201 [(''location'', ''/v2/'' @ tenant @ ''/'' @ project @ ''/'' @ name @ ''/blobs/'' @ digest),
         (''docker-content-digest'', digest), (''content-length'', ''0''), api_version] NoBody of
       None \<Rightarrow> (s2, None)
     | Some r \<Rightarrow>
        (case audit_record E q (mk_event q ''blob.push'' (cl_sub c) tenant project name [] digest len 201 (rq_ms q)) s2 of
           (s3, Inl e) \<Rightarrow> (s3, Some (Inl e))
         | (s3, Inr _) \<Rightarrow>
            (let s4 = record_usage q tenant project name UPush len 201 (cl_sub c) s3 in
             (case en_lazy E of
                Some format \<Rightarrow> if en_pool E then spawn (EnqueueLazy digest format tenant project name) s4 else s4
              | None \<Rightarrow> s4, Some r))))"

definition complete_blob_upload :: "('w, 'h, 'u, 's, 'k, 'v) reg_env \<Rightarrow> request \<Rightarrow> claims \<Rightarrow> string \<Rightarrow> string \<Rightarrow> string \<Rightarrow> string \<Rightarrow>
    string option \<Rightarrow> bytes \<Rightarrow> ('w, 's, 'f) handler" where
  "complete_blob_upload E q c tenant project name uuid digest_query body s =
    (case authorize c tenant project name action.Push of
       Inl e \<Rightarrow> (s, Some (Inl e))
     | Inr _ \<Rightarrow>
        (case digest_query of
           None \<Rightarrow> (s, Some (Inl (DigestInvalid ''sha256:...'' ''<missing>'')))
         | Some expected \<Rightarrow>
            (case read_upload E tenant project name uuid (rg_world s) of
               (w1, Inl e) \<Rightarrow> (s\<lparr>rg_world := w1\<rparr>, Some (Inl e))
             | (w1, Inr existing) \<Rightarrow>
                (let data = existing @ body; actual = sha256_digest (en_sha E) data in
                 if actual \<noteq> expected then (s\<lparr>rg_world := w1\<rparr>, Some (Inl (DigestInvalid expected actual)))
                 else (case store_put_chunked E (blob_path tenant project name expected) data w1 of
                    None \<Rightarrow> (s\<lparr>rg_world := w1\<rparr>, None)
                  | Some (w2, Inl e) \<Rightarrow> (s\<lparr>rg_world := w2\<rparr>, Some (Inl e))
                  | Some (w2, Inr _) \<Rightarrow>
                     (let w3 = fst (os_delete (en_store E) (os_path (en_store E) (upload_path tenant project name uuid)) w2) in
                      finish_upload E q c tenant project name expected (length data) (s\<lparr>rg_world := w3\<rparr>)))))))"

section \<open>Listings\<close>

definition page :: "string option \<Rightarrow> nat option \<Rightarrow> string list \<Rightarrow> string list" where
  "page last_seen n xs =
    (let ys = (case last_seen of None \<Rightarrow> xs | Some l \<Rightarrow> dropWhile (\<lambda>t. t \<le> l) xs) in
     case n of None \<Rightarrow> ys | Some k \<Rightarrow> take k ys)"

definition tags_of :: "string \<Rightarrow> path list \<Rightarrow> string list" where
  "tags_of prefix locs = filter (\<lambda>t. t \<noteq> []) (filter_map (strip_prefix prefix) locs)"

definition list_tags :: "('w, 'h, 'u, 's, 'k, 'v) reg_env \<Rightarrow> claims \<Rightarrow> string \<Rightarrow> string \<Rightarrow> string \<Rightarrow> nat option \<Rightarrow> string option \<Rightarrow>
    ('w, 's, 'f) handler" where
  "list_tags E c tenant project name n last_seen s =
    (case authorize c tenant project name action.Pull of
       Inl e \<Rightarrow> (s, Some (Inl e))
     | Inr _ \<Rightarrow>
        (let prefix = tags_prefix tenant project name in
         case os_list (en_store E) (os_path (en_store E) prefix) (rg_world s) of
           (w1, Inl e) \<Rightarrow> (s\<lparr>rg_world := w1\<rparr>, Some (Inl (Storage (en_os_text E e))))
         | (w1, Inr locs) \<Rightarrow> (s\<lparr>rg_world := w1\<rparr>, respond 200 []
             (TagListBody (tenant @ ''/'' @ project @ ''/'' @ name) (page last_seen n (sort (tags_of prefix locs)))))))"

fun catalog_projects :: "('w, 'h, 'u, 's, 'k, 'v) reg_env \<Rightarrow> path list \<Rightarrow> 'w \<Rightarrow> 'w \<times> string list" where
  "catalog_projects E [] w = (w, [])"
| "catalog_projects E (p # ps) w = (case os_list_dir (en_store E) p w of
     (w1, r) \<Rightarrow> (case catalog_projects E ps w1 of
       (w2, rest) \<Rightarrow> (w2, (case r of Inl _ \<Rightarrow> [] | Inr (repos, _) \<Rightarrow>
           filter (\<lambda>x. x \<noteq> []) (map (\<lambda>x. rev (dropWhile (\<lambda>ch. ch = CHR ''/'') (rev x))) repos)) @ rest)))"

definition catalog :: "('w, 'h, 'u, 's, 'k, 'v) reg_env \<Rightarrow> claims \<Rightarrow> nat option \<Rightarrow> string option \<Rightarrow> ('w, 's, 'f) handler" where
  "catalog E c n last_seen s =
    (let tenant = (case cl_tenant_name c of None \<Rightarrow> cl_tenant_id c | Some t \<Rightarrow> t) in
     case os_list_dir (en_store E) (os_path (en_store E) tenant) (rg_world s) of
       (w1, Inl e) \<Rightarrow> (s\<lparr>rg_world := w1\<rparr>, Some (Inl (Storage (en_os_text E e))))
     | (w1, Inr (projects, _)) \<Rightarrow>
        (case catalog_projects E projects w1 of
           (w2, repos) \<Rightarrow> (s\<lparr>rg_world := w2\<rparr>, respond 200 [] (CatalogBody (page last_seen n (sort repos))))))"

section \<open>Image status\<close>

definition add_u64 :: "nat \<Rightarrow> nat \<Rightarrow> nat" where
  "add_u64 a b = (a + b) mod 2 ^ 64"

text \<open>The digest and size of a descriptor, if it has both.\<close>

definition sized :: "json \<Rightarrow> (string \<times> nat) option" where
  "sized v = (case (Option.bind (json_get ''digest'' v) as_str, Option.bind (json_get ''size'' v) as_u64) of
     (Some d, Some n) \<Rightarrow> Some (d, n) | _ \<Rightarrow> None)"

definition object_exists :: "('w, 'h, 'u, 's, 'k, 'v) reg_env \<Rightarrow> string \<Rightarrow> 'w \<Rightarrow> 'w \<times> bool" where
  "object_exists E key w = (case os_head (en_store E) (os_path (en_store E) key) w of
     (w1, Inl _) \<Rightarrow> (w1, False) | (w1, Inr _) \<Rightarrow> (w1, True))"

fun check_descriptors :: "('w, 'h, 'u, 's, 'k, 'v) reg_env \<Rightarrow> (string \<Rightarrow> string) \<Rightarrow> bool \<Rightarrow> json list \<Rightarrow> status_report \<Rightarrow> 'w \<Rightarrow>
    'w \<times> status_report" where
  "check_descriptors E key sub [] r w = (w, r)"
| "check_descriptors E key sub (v # vs) r w = (case sized v of
     None \<Rightarrow> check_descriptors E key sub vs r w
   | Some (d, n) \<Rightarrow> (case object_exists E (key d) w of
       (w1, found) \<Rightarrow> check_descriptors E key sub vs
         (r\<lparr>ir_missing := (if found then ir_missing r else inc_u32 (ir_missing r)), ir_total := add_u64 (ir_total r) n,
            ir_layers := ir_layers r @ [(d, n, found, if sub
              then Some (case json_get ''platform'' v of None \<Rightarrow> Null | Some x \<Rightarrow> x) else None)]\<rparr>) w1))"

definition array_at :: "string \<Rightarrow> json \<Rightarrow> json list" where
  "array_at k v = (case Option.bind (json_get k v) as_array of None \<Rightarrow> [] | Some vs \<Rightarrow> vs)"

definition unavailable :: "string \<Rightarrow> string \<Rightarrow> status_report" where
  "unavailable img why = \<lparr>ir_available = False, ir_image = img, ir_manifest = None, ir_layers = [], ir_config = None,
     ir_missing = 0, ir_total = 0, ir_reason = Some why\<rparr>"

text \<open>The checks on a manifest that was read: its config, its layers, its sub-manifests.\<close>

definition check_image :: "('w, 'h, 'u, 's, 'k, 'v) reg_env \<Rightarrow> string \<Rightarrow> string \<Rightarrow> string \<Rightarrow> string \<Rightarrow> bytes \<Rightarrow> json \<Rightarrow> 'w \<Rightarrow>
    'w \<times> status_report" where
  "check_image E tenant project name img data v w =
    (let r0 = \<lparr>ir_available = True, ir_image = img,
           ir_manifest = Some (sha256_digest (en_sha E) data, detect_manifest_media_type (en_json E) data, length data),
           ir_layers = [], ir_config = None, ir_missing = 0, ir_total = length data, ir_reason = None\<rparr>;
         (w1, r1) = (case Option.bind (json_get ''config'' v) sized of
            None \<Rightarrow> (w, r0)
          | Some (d, n) \<Rightarrow> (case object_exists E (blob_path tenant project name d) w of
              (w1, found) \<Rightarrow> (w1, r0\<lparr>ir_missing := (if found then ir_missing r0 else inc_u32 (ir_missing r0)),
                 ir_total := add_u64 (ir_total r0) n, ir_config := Some (d, n, found)\<rparr>)));
         (w2, r2) = check_descriptors E (blob_path tenant project name) False (array_at ''layers'' v) r1 w1;
         (w3, r3) = check_descriptors E (manifest_path tenant project name) True (array_at ''manifests'' v) r2 w2 in
     (w3, r3\<lparr>ir_available := (ir_missing r3 = 0)\<rparr>))"

definition image_status :: "('w, 'h, 'u, 's, 'k, 'v) reg_env \<Rightarrow> claims \<Rightarrow> string \<Rightarrow> string \<Rightarrow> string \<Rightarrow> string \<Rightarrow> ('w, 's, 'f) handler" where
  "image_status E c tenant project name reference s =
    (case authorize c tenant project name action.Pull of
       Inl e \<Rightarrow> (s, Some (Inl e))
     | Inr _ \<Rightarrow>
        (let img = tenant @ ''/'' @ project @ ''/'' @ name @ '':'' @ reference in
         case resolve_manifest_path E tenant project name reference (rg_world s) of
           (w1, Inl _) \<Rightarrow> (s\<lparr>rg_world := w1\<rparr>, respond 200 [] (StatusBody (unavailable img ''manifest not found'')))
         | (w1, Inr p) \<Rightarrow> (case store_read E p w1 of
             (w2, GetErr _) \<Rightarrow> (s\<lparr>rg_world := w2\<rparr>, respond 200 [] (StatusBody (unavailable img ''manifest not found'')))
           | (w2, BytesErr _) \<Rightarrow> (s\<lparr>rg_world := w2\<rparr>, respond 200 [] (StatusBody (unavailable img ''manifest not readable'')))
           | (w2, Got data) \<Rightarrow> (case en_json E data of
               None \<Rightarrow> (s\<lparr>rg_world := w2\<rparr>, Some (Inl (ManifestInvalid (en_json_error E data))))
             | Some v \<Rightarrow> (case check_image E tenant project name img data v w2 of
                 (w3, report) \<Rightarrow> (s\<lparr>rg_world := w3\<rparr>, respond 200 [] (StatusBody report)))))))"

end
