(* ===== verification/Registry_Routes.thy ===== *)
theory Registry_Routes
  imports Registry_Blobs
begin

text \<open>
  The router of \<open>main.rs\<close>: the repository routes with a tenant segment and without one,
  the routes that name no repository, and the replication routes, which take no
  token. A request is served by the extractor of the token and then the handler.
\<close>

datatype repo_op =
    HeadManifest string
  | GetManifest string
  | PutManifest string "string option" bytes
  | DeleteManifest string
  | HeadBlob string
  | GetBlob string
  | InitiateUpload
  | UploadChunk string bytes
  | CompleteUpload string "string option" bytes
  | ListTags "nat option" "string option"
  | ImageStatus string
  | UploadSignature string bytes
  | ListSignatures string

fun handle :: "('w, 'h, 'u, 's, 'k, 'v) reg_env \<Rightarrow> request \<Rightarrow> claims \<Rightarrow> string \<Rightarrow> string \<Rightarrow> string \<Rightarrow> repo_op \<Rightarrow> ('w, 's, 'f) handler" where
  "handle E q c t p n (HeadManifest r) s = head_manifest E c t p n r s"
| "handle E q c t p n (GetManifest r) s = get_manifest E q c t p n r s"
| "handle E q c t p n (PutManifest r ttl body) s = put_manifest E q c t p n r ttl body s"
| "handle E q c t p n (DeleteManifest r) s = delete_manifest E q c t p n r s"
| "handle E q c t p n (HeadBlob d) s = head_blob E c t p n d s"
| "handle E q c t p n (GetBlob d) s = get_blob E q c t p n d s"
| "handle E q c t p n InitiateUpload s = initiate_blob_upload E q c t p n s"
| "handle E q c t p n (UploadChunk u body) s = upload_blob_chunk E c t p n u body s"
| "handle E q c t p n (CompleteUpload u d body) s = complete_blob_upload E q c t p n u d body s"
| "handle E q c t p n (ListTags k l) s = list_tags E c t p n k l s"
| "handle E q c t p n (ImageStatus r) s = image_status E c t p n r s"
| "handle E q c t p n (UploadSignature d body) s = upload_signature E q c t p n d body s"
| "handle E q c t p n (ListSignatures d) s = list_signatures E q c t p n d s"

definition DEFAULT_TENANT :: string where
  "DEFAULT_TENANT = ''_''"

text \<open>The wrappers of the two-segment routes: those for signatures use another tenant.\<close>

fun tenant_2seg :: "repo_op \<Rightarrow> string" where
  "tenant_2seg (UploadSignature _ _) = ''default''"
| "tenant_2seg (ListSignatures _) = ''default''"
| "tenant_2seg _ = DEFAULT_TENANT"

datatype route =
    Repo string string string repo_op
  | Repo2 string string repo_op
  | Catalog "nat option" "string option"
  | Verify string string string string "string list"
  | UpsertPolicy string string policy_upsert_body
  | GetPolicy string string
  | DeletePolicy string string
  | ReplicateManifest "string \<rightharpoonup> string" bytes
  | ReplicateBlob "string \<rightharpoonup> string" bytes
  | ReplicateDelete bytes

record http_call =
  hc_auth :: "string option"
  hc_route :: route
  hc_request :: request

text \<open>A route that takes a token.\<close>

fun route_handler :: "('w, 'h, 'u, 's, 'k, 'v) reg_env \<Rightarrow> request \<Rightarrow> claims \<Rightarrow> route \<Rightarrow> ('w, 's, 'f) handler" where
  "route_handler E q c (Repo t p n oper) s = handle E q c t p n oper s"
| "route_handler E q c (Repo2 p n oper) s = handle E q c (tenant_2seg oper) p n oper s"
| "route_handler E q c (Catalog n l) s = catalog E c n l s"
| "route_handler E q c (Verify d t p r ks) s = verify_image E q c d t p r ks s"
| "route_handler E q c (UpsertPolicy t n b) s = upsert_verification_policy E q c t n b s"
| "route_handler E q c (GetPolicy t n) s = get_verification_policy E q c t n s"
| "route_handler E q c (DeletePolicy t n) s = delete_verification_policy E q c t n s"
| "route_handler E q c (ReplicateManifest hs b) s = internal_replicate_manifest E q hs b s"
| "route_handler E q c (ReplicateBlob hs b) s = internal_replicate_blob E hs b s"
| "route_handler E q c (ReplicateDelete b) s = internal_replicate_delete E b s"

fun is_internal :: "route \<Rightarrow> bool" where
  "is_internal (ReplicateManifest _ _) = True"
| "is_internal (ReplicateBlob _ _) = True"
| "is_internal (ReplicateDelete _) = True"
| "is_internal _ = False"

definition anonymous :: claims where
  "anonymous = \<lparr>cl_sub = [], cl_tenant_id = [], cl_tenant_name = None, cl_role = Reader, cl_scopes = []\<rparr>"

definition serve :: "('w, 'h, 'u, 's, 'k, 'v) reg_env \<Rightarrow> (string \<Rightarrow> string \<Rightarrow> (jwt_error, claims) result) \<Rightarrow> string \<Rightarrow> http_call \<Rightarrow>
    ('w, 's, 'f) handler" where
  "serve E decode alg call s =
    (if is_internal (hc_route call) then route_handler E (hc_request call) anonymous (hc_route call) s
     else (case authenticate decode alg (hc_auth call) of
        Inl e \<Rightarrow> (s, Some (Inl e))
      | Inr c \<Rightarrow> route_handler E (hc_request call) c (hc_route call) s))"

end
