(* ===== verification/Registry_Writes.thy ===== *)
theory Registry_Writes
  imports Registry_Routes
begin

text \<open>
  What the handlers of \<open>main.rs\<close> may do to the bucket. The locale \<open>repo_rel\<close> is the
  contract a relation on buckets has to meet to hold across every handler of a
  repository: it allows writes of blobs and manifests under their own digest, of links and uploads,
  and deletes below the repository. Every repository handler is proved against it once;
  the instances are confinement to the repository and content addressing.
\<close>

section \<open>State the bucket does not depend on\<close>

lemma audit_record_keeps: "audit_record E q e s = (s', r) \<Longrightarrow> rg_world s' = rg_world s \<and> rg_mirror s' = rg_mirror s"
  by (auto simp: audit_record_def split: prod.splits)

lemma audit_record_fst [simp]:
  "rg_world (fst (audit_record E q e s)) = rg_world s" "rg_mirror (fst (audit_record E q e s)) = rg_mirror s"
  by (auto simp: audit_record_def split: prod.splits)

lemma quiet_helpers [simp]:
  "rg_world (record_usage q t p n oper len code sub s) = rg_world s"
  "rg_mirror (record_usage q t p n oper len code sub s) = rg_mirror s"
  "rg_world (spawn k s) = rg_world s" "rg_mirror (spawn k s) = rg_mirror s"
  "rg_world (enqueue E ev s) = rg_world s" "rg_mirror (enqueue E ev s) = rg_mirror s"
  "rg_world (notify E q v t p n x d len s) = rg_world s" "rg_mirror (notify E q v t p n x d len s) = rg_mirror s"
  "rg_world (sink_append E a s) = rg_world s" "rg_mirror (sink_append E a s) = rg_mirror s"
  by (auto simp: record_usage_def spawn_def enqueue_def notify_def sink_append_def split: option.splits)

lemma push_tasks_quiet [simp]:
  "rg_world (push_tasks E q t p n x d body s) = rg_world s" "rg_mirror (push_tasks E q t p n x d body s) = rg_mirror s"
  by (simp_all add: push_tasks_def Let_def split: option.splits)

lemma record_ttl_quiet:
  "record_ttl E q ttl row s = Some (s', hs) \<Longrightarrow> rg_world s' = rg_world s \<and> rg_mirror s' = rg_mirror s"
  by (auto simp: record_ttl_def split: option.splits sum.splits if_splits)

lemma register_signature_metadata_quiet:
  "register_signature_metadata E q sub t p n d g len decl x s = (s', r) \<Longrightarrow> rg_world s' = rg_world s \<and> rg_mirror s' = rg_mirror s"
  by (auto simp: register_signature_metadata_def Let_def split: prod.splits sum.splits if_splits)

lemma register_sig_tag_quiet [simp]:
  "rg_world (register_sig_tag E q sub t p n x d body s) = rg_world s"
  "rg_mirror (register_sig_tag E q sub t p n x d body s) = rg_mirror s"
  by (simp_all add: register_sig_tag_def register_signature_metadata_quiet [OF prod.collapse [symmetric]] split: option.split)

text \<open>A step of a handler under a relation on buckets; where there is no mirror there is none after.\<close>

definition bucket_step :: "((path \<rightharpoonup> bytes) \<Rightarrow> (path \<rightharpoonup> bytes) \<Rightarrow> bool) \<Rightarrow> 'w view \<Rightarrow> ('w, 's, 'f) reg_state \<Rightarrow>
    ('w, 's, 'f) reg_state \<Rightarrow> bool" where
  "bucket_step R view s s' \<longleftrightarrow> R (view (rg_world s)) (view (rg_world s')) \<and> (rg_mirror s = None \<longrightarrow> rg_mirror s' = None)"

text \<open>The mirror keeps to the relation when it fetches for a repository.\<close>

definition mirror_keeps :: "((path \<rightharpoonup> bytes) \<Rightarrow> (path \<rightharpoonup> bytes) \<Rightarrow> bool) \<Rightarrow> 'w view \<Rightarrow> ('w, 'h, 'u, 's, 'k, 'v) reg_env \<Rightarrow>
    string \<Rightarrow> string \<Rightarrow> string \<Rightarrow> bool" where
  "mirror_keeps R view E t p n \<longleftrightarrow> (\<forall>x m w.
     R (view w) (view (snd (fst (fetch_manifest (en_mirror E) t p n x (m, w))))) \<and>
     R (view w) (view (snd (fst (fetch_blob (en_mirror E) t p n x (m, w))))))"

section \<open>Reads and writes of the store\<close>

text \<open>What the handlers rely on of their environment beyond the store: asking another region
  changes no object here, and the part uploads of a multipart write run each once.\<close>

definition env_quiet :: "('w, 'h, 'u, 's, 'k, 'v) reg_env \<Rightarrow> 'w view \<Rightarrow> bool" where
  "env_quiet E view \<longleftrightarrow> (\<forall>url tok w. view (fst (en_proxy E url tok w)) = view w) \<and> (\<forall>n. set (en_schedule E n) = {..<n})"

lemma split_parts_concat:
  "split_parts psz data offset = Some ps \<Longrightarrow> offset \<le> length data \<Longrightarrow> concat ps = drop offset data"
proof (induction psz data offset arbitrary: ps rule: split_parts.induct)
  case (1 psz data offset)
  let ?e = "min ((offset + psz) mod 2 ^ 64) (length data)"
  show ?case
  proof (cases "offset < length data")
    case True
    then obtain qs where e: "\<not> ?e \<le> offset" and qs: "split_parts psz data ?e = Some qs"
      and ps: "ps = take (?e - offset) (drop offset data) # qs"
      using 1(2) by (auto simp: split_parts.simps [of psz data offset] Let_def split: if_splits)
    have "concat qs = drop ?e data"
      by (rule 1(1) [OF True refl e qs]) simp
    moreover have "drop ?e data = drop (?e - offset) (drop offset data)"
      using e by (metis drop_drop le_add_diff_inverse2 nat_le_linear)
    ultimately show ?thesis
      unfolding ps by (simp only: concat.simps append_take_drop_id)
  qed (use 1(2) in \<open>simp add: split_parts.simps [of psz data offset]\<close>)
qed

lemma map_sum_Inr_iff: "map_sum f id r = Inr u \<longleftrightarrow> r = Inr u"
  by (cases r) auto

locale registry_store = object_store "en_store E" view content target parts
  for E :: "('w, 'h, 'u, 's, 'k, 'v) reg_env" and view :: "'w view" and content :: "'h \<Rightarrow> bytes"
    and target :: "'u \<Rightarrow> path" and parts :: "'w \<Rightarrow> 'u \<Rightarrow> nat \<Rightarrow> bytes option" +
  assumes quiet: "env_quiet E view"
begin

lemma store_read_view: "store_read E key w = (w', r) \<Longrightarrow> view w' = view w"
  by (auto simp: store_read_def split: prod.splits sum.splits dest!: get_view bytes_view)

lemma store_read_got: "store_read E key w = (w', Got d) \<Longrightarrow> view w (os_path (en_store E) key) = Some d"
  by (auto simp: store_read_def split: prod.splits sum.splits dest!: get_ok bytes_ok)

lemma store_read_absent: "store_read E key w = (w', GetErr NotFound) \<Longrightarrow> view w (os_path (en_store E) key) = None"
  by (auto simp: store_read_def split: prod.splits sum.splits dest!: get_absent)

lemma store_put_ok:
  "store_put E key d w = (w', Inr u) \<Longrightarrow> view w' = (view w)(os_path (en_store E) key \<mapsto> d)"
  by (auto simp: store_put_def split: prod.splits sum.splits dest!: put_ok)

lemma store_put_any:
  "store_put E key d w = (w', r) \<Longrightarrow> maybe_put (os_path (en_store E) key) d (view w) (view w')"
  by (auto simp: store_put_def maybe_put_def split: prod.splits sum.splits dest!: put_ok put_err)

lemma os_put_any: "os_put (en_store E) k d w = (w', r) \<Longrightarrow> maybe_put k d (view w) (view w')"
  by (cases r) (auto simp: maybe_put_def dest!: put_ok put_err)

lemma os_delete_any: "os_delete (en_store E) k w = (w', r) \<Longrightarrow> maybe_delete k (view w) (view w')"
  by (cases r) (auto simp: maybe_delete_def dest!: delete_ok delete_err)

lemma put_chunked_any:
  assumes "put_chunked (en_store E) sched k d cfg w = Some (w', r)" "\<And>n. set (sched n) = {..<n}"
  shows "maybe_put k d (view w) (view w')" "r = Inr u \<Longrightarrow> view w' = (view w)(k \<mapsto> d)"
proof -
  have "maybe_put k d (view w) (view w') \<and> (r = Inr u \<longrightarrow> view w' = (view w)(k \<mapsto> d))"
  proof (cases "length d \<le> threshold (sanitized cfg (length d))")
    case True
    then have "os_put (en_store E) k d w = (w', r)"
      using assms(1) by (simp add: put_chunked_def Let_def)
    then show ?thesis
      using os_put_any put_ok by blast
  next
    case False
    then obtain ps where ps: "split_parts (part_size (sanitized cfg (length d))) d 0 = Some ps"
      "upload_parts (en_store E) sched k ps w = (w', r)"
      using assms(1) by (auto simp: put_chunked_def Let_def split: option.splits)
    have "concat ps = d"
      using split_parts_concat [OF ps(1)] by simp
    then show ?thesis
      using upload_parts_spec [OF assms(2) ps(2)] by (cases r) (auto simp: maybe_put_def)
  qed
  then show "maybe_put k d (view w) (view w')" "r = Inr u \<Longrightarrow> view w' = (view w)(k \<mapsto> d)"
    by blast+
qed

lemma store_put_chunked_any:
  assumes "store_put_chunked E key d w = Some (w', r)"
  shows "maybe_put (os_path (en_store E) key) d (view w) (view w')" "r = Inr u \<Longrightarrow> view w' = (view w)(os_path (en_store E) key \<mapsto> d)"
  using assms quiet put_chunked_any [of "en_schedule E" "os_path (en_store E) key" d "put_config E" w]
  by (auto simp: store_put_chunked_def env_quiet_def map_prod_def map_sum_Inr_iff)

lemma read_tag_link_view: "read_tag_link E t p n tag w = (w', r) \<Longrightarrow> view w' = view w"
  by (auto simp: read_tag_link_def split: prod.splits read.splits dest!: store_read_view)

lemma resolve_manifest_path_view:
  "resolve_manifest_path E t p n x w = (w', r) \<Longrightarrow> view w' = view w"
  by (auto simp: resolve_manifest_path_def split: prod.splits read.splits if_splits dest!: store_read_view)

lemma local_manifest_view: "local_manifest E t p n x w = (w', r) \<Longrightarrow> view w' = view w"
  by (auto simp: local_manifest_def split: prod.splits read.splits sum.splits
      dest!: store_read_view resolve_manifest_path_view)

lemma read_upload_view: "read_upload E t p n u w = (w', r) \<Longrightarrow> view w' = view w"
  by (auto simp: read_upload_def split: prod.splits read.splits dest!: store_read_view)

lemma load_artifacts_view: "load_artifacts E t p n recs w = (w', as) \<Longrightarrow> view w' = view w"
  by (induction recs arbitrary: w as) (auto split: prod.splits dest!: store_read_view)

lemma load_artifacts_strict_view: "load_artifacts_strict E t p n recs w = (w', r) \<Longrightarrow> view w' = view w"
proof (induction recs arbitrary: w r)
  case (Cons rec recs)
  obtain w1 x where "store_read E (blob_path t p n (sr_signature_digest rec)) w = (w1, x)"
    by force
  then show ?case
    using Cons store_read_view by (cases x) (auto split: prod.splits sum.splits)
qed simp

lemma failover_read_view: "failover_read (en_proxy E) fo url w = (w', r) \<Longrightarrow> view w' = view w"
  using quiet unfolding failover_read_def proxy_get_def env_quiet_def
  by (auto split: prod.splits sum.splits option.splits if_splits; metis fst_conv)

lemma object_exists_view: "object_exists E key w = (w', b) \<Longrightarrow> view w' = view w"
  by (auto simp: object_exists_def split: prod.splits sum.splits dest!: head_view)

lemma check_descriptors_view:
  "check_descriptors E key sub vs r w = (w', r') \<Longrightarrow> view w' = view w"
  by (induction vs arbitrary: r w) (auto split: option.splits prod.splits dest: object_exists_view)

lemma check_image_view: "check_image E t p n img d v w = (w', r) \<Longrightarrow> view w' = view w"
  by (auto simp: check_image_def Let_def split: option.splits prod.splits dest!: object_exists_view check_descriptors_view)

lemma catalog_projects_view: "catalog_projects E ps w = (w', r) \<Longrightarrow> view w' = view w"
  by (induction ps arbitrary: w r) (auto split: prod.splits dest!: list_dir_view)

end

section \<open>The contract of a relation\<close>

locale repo_rel = registry_store E view content target parts
  for E :: "('w, 'h, 'u, 's, 'k, 'v) reg_env" and view :: "'w view" and content :: "'h \<Rightarrow> bytes"
    and target :: "'u \<Rightarrow> path" and parts :: "'w \<Rightarrow> 'u \<Rightarrow> nat \<Rightarrow> bytes option" +
  fixes t p n :: string
    and R :: "(path \<rightharpoonup> bytes) \<Rightarrow> (path \<rightharpoonup> bytes) \<Rightarrow> bool"
  assumes repo_plain: "plain_key (repo_key t p n)"
    and R_refl: "R m m"
    and R_trans: "R m m' \<Longrightarrow> R m' m'' \<Longrightarrow> R m m''"
    and R_blob: "R m (m(os_path (en_store E) (blob_path t p n (sha256_digest (en_sha E) b)) \<mapsto> b))"
    and R_manifest: "R m (m(os_path (en_store E) (manifest_path t p n (sha256_digest (en_sha E) b)) \<mapsto> b))"
    and R_tag: "R m (m(os_path (en_store E) (tag_link_path t p n x) \<mapsto> b))"
    and R_upload: "R m (m(os_path (en_store E) (upload_path t p n x) \<mapsto> b))"
    and R_delete: "inside (repo_key t p n) k \<Longrightarrow> R m (m(k := None))"
begin

lemma R_maybe_put: "maybe_put k b m m' \<Longrightarrow> R m (m(k \<mapsto> b)) \<Longrightarrow> R m m'"
  by (auto simp: maybe_put_def R_refl)

lemma R_maybe_delete: "maybe_delete k m m' \<Longrightarrow> inside (repo_key t p n) k \<Longrightarrow> R m m'"
  by (auto simp: maybe_delete_def R_refl R_delete)

lemma tag_loc_inside:
  assumes "loc \<in> under (os_path (en_store E) (tags_prefix t p n)) m"
  shows "inside (repo_key t p n) loc"
proof -
  let ?d = "os_path (en_store E) (tags_prefix t p n)"
  have d: "inside (repo_key t p n) ?d"
    by (rule repo_paths_inside(5) [OF repo_plain])
  then have "?d \<noteq> []"
    by (auto simp: inside_def repo_key_def starts_with_iff)
  then obtain r where "loc = ?d @ ''/'' @ r"
    using assms by (auto simp: under_def dir_prefix_def starts_with_iff)
  then show ?thesis
    using d unfolding inside_def starts_with_iff by (metis append.assoc)
qed

lemma delete_links_rel:
  "delete_links E t p n d locs w = (w', r) \<Longrightarrow> \<forall>loc \<in> set locs. inside (repo_key t p n) loc \<Longrightarrow> R (view w) (view w')"
proof (induction locs arbitrary: w w' r)
  case (Cons loc locs)
  show ?case
  proof (cases "strip_prefix (tags_prefix t p n) loc")
    case (Some tag)
    obtain w1 x where link: "read_tag_link E t p n tag w = (w1, x)"
      by force
    obtain w2 y where del: "os_delete (en_store E) loc w1 = (w2, y)"
      by force
    obtain w3 z where rest: "delete_links E t p n d locs w2 = (w3, z)"
      by force
    have v: "view w1 = view w" "R (view w) (view w2)"
      using read_tag_link_view [OF link] R_maybe_delete [OF os_delete_any [OF del]] Cons.prems(2) by simp_all
    have "R (view w) (view w3)"
      using Cons.IH [OF rest] Cons.prems(2) v(2) R_trans by fastforce
    moreover have "R (view w) (view w')" if "delete_links E t p n d locs w1 = (w', r)"
      using Cons.IH [OF that] Cons.prems(2) v(1) by simp
    ultimately show ?thesis
      using Cons Some link del rest v R_refl by (auto split: sum.splits if_splits)
  qed (use Cons in auto)
qed (simp add: R_refl)

lemma delete_tags_for_digest_rel:
  assumes "delete_tags_for_digest E t p n d w = (w', r)"
  shows "R (view w) (view w')"
proof -
  obtain w1 l where ls: "os_list (en_store E) (os_path (en_store E) (tags_prefix t p n)) w = (w1, l)"
    by force
  note v = list_view [OF ls]
  show ?thesis
  proof (cases l)
    case (Inr locs)
    have "\<forall>loc \<in> set locs. inside (repo_key t p n) loc"
      using list_ok [OF ls [unfolded Inr]] tag_loc_inside by blast
    with assms ls Inr v show ?thesis
      using delete_links_rel [of d locs w1 w' r] by (simp add: delete_tags_for_digest_def)
  qed (use assms ls v in \<open>simp add: delete_tags_for_digest_def R_refl\<close>)
qed

lemma delete_digest_rel:
  assumes "delete_digest E t p n x d w = (w', r)"
  shows "R (view w) (view w')"
proof -
  obtain w1 y where del: "os_delete (en_store E) (os_path (en_store E) (manifest_path t p n d)) w = (w1, y)"
    by force
  have "R (view w) (view w1)"
    by (rule R_maybe_delete [OF os_delete_any [OF del] repo_paths_inside(2) [OF repo_plain]])
  then show ?thesis
    using assms del R_trans delete_tags_for_digest_rel
    by (auto simp: delete_digest_def split: sum.splits prod.splits if_splits)
qed

lemma store_manifest_rel:
  assumes "store_manifest E t p n x (sha256_digest (en_sha E) b) b w = (w', r)"
  shows "R (view w) (view w')"
proof -
  obtain w1 y where put: "store_put E (manifest_path t p n (sha256_digest (en_sha E) b)) b w = (w1, y)"
    by force
  have "R (view w) (view w1)"
    by (rule R_maybe_put [OF store_put_any [OF put] R_manifest])
  moreover have "R (view w1) (view w')" if "store_put E (tag_link_path t p n x) d w1 = (w', r)" for d
    by (rule R_maybe_put [OF store_put_any [OF that] R_tag])
  ultimately show ?thesis
    using assms put by (auto simp: store_manifest_def split: sum.splits if_splits intro: R_trans)
qed

lemma put_blob_rel:
  "store_put E (blob_path t p n (sha256_digest (en_sha E) b)) b w = (w', r) \<Longrightarrow> R (view w) (view w')"
  "store_put_chunked E (blob_path t p n (sha256_digest (en_sha E) b)) b w = Some (w', r) \<Longrightarrow> R (view w) (view w')"
  by (auto intro: R_maybe_put [OF store_put_any R_blob] R_maybe_put [OF store_put_chunked_any(1) R_blob])

lemma put_upload_rel:
  "store_put E (upload_path t p n u) b w = (w', r) \<Longrightarrow> R (view w) (view w')"
  "store_put_chunked E (upload_path t p n u) b w = Some (w', r) \<Longrightarrow> R (view w) (view w')"
  by (auto intro: R_maybe_put [OF store_put_any R_upload] R_maybe_put [OF store_put_chunked_any(1) R_upload])

lemma put_other_rel:
  "store_put E (tag_link_path t p n x) b w = (w', r) \<Longrightarrow> R (view w) (view w')"
  "store_put E (manifest_path t p n (sha256_digest (en_sha E) b)) b w = (w', r) \<Longrightarrow> R (view w) (view w')"
  by (auto intro: R_maybe_put [OF store_put_any R_tag] R_maybe_put [OF store_put_any R_manifest])

lemma os_delete_rel:
  "os_delete (en_store E) (os_path (en_store E) (tag_link_path t p n x)) w = (w', r) \<Longrightarrow> R (view w) (view w')"
  "R (view w) (view (fst (os_delete (en_store E) (os_path (en_store E) (upload_path t p n u)) w)))"
  by (auto intro: R_maybe_delete [OF os_delete_any repo_paths_inside(3) [OF repo_plain]]
      R_maybe_delete [OF os_delete_any [OF prod.collapse [symmetric]] repo_paths_inside(4) [OF repo_plain]])

section \<open>Handlers\<close>

lemma remote_read_step:
  assumes "remote_read E fetch missing url s = (s', r)"
    and "rg_mirror s = None \<or> (\<forall>m w. R (view w) (view (snd (fst (fetch (m, w))))))"
  shows "bucket_step R view s s'"
proof (cases "rg_mirror s")
  case None
  obtain w' x where fo: "failover_read (en_proxy E) (en_failover E) url (rg_world s) = (w', x)"
    by force
  then show ?thesis
    using assms(1) None failover_read_view [OF fo]
    by (auto simp: remote_read_def bucket_step_def R_refl split: option.splits)
next
  case (Some m)
  obtain m' w' x where f: "fetch (m, rg_world s) = ((m', w'), x)"
    by (metis surj_pair)
  then have "R (view (rg_world s)) (view w')"
    using assms(2) Some by (metis fst_conv option.distinct(1) snd_conv)
  then show ?thesis
    using assms(1) Some f by (auto simp: remote_read_def bucket_step_def split: option.splits sum.splits)
qed

lemma bucket_step_world: "R (view (rg_world s)) (view w) \<Longrightarrow> bucket_step R view s (s\<lparr>rg_world := w\<rparr>)"
  by (simp add: bucket_step_def)

lemma bucket_step_refl: "bucket_step R view s s"
  by (simp add: bucket_step_def R_refl)

lemma bucket_step_trans: "bucket_step R view s s' \<Longrightarrow> bucket_step R view s' s'' \<Longrightarrow> bucket_step R view s s''"
  by (auto simp: bucket_step_def intro: R_trans)

lemma bucket_step_view: "view w = view (rg_world s) \<Longrightarrow> bucket_step R view s (s\<lparr>rg_world := w\<rparr>)"
  by (simp add: bucket_step_def R_refl)

lemma bucket_step_same: "rg_world s' = rg_world s \<and> rg_mirror s' = rg_mirror s \<Longrightarrow> bucket_step R view s s'"
  by (simp add: bucket_step_def R_refl)

end

end
