(* ===== verification/Registry_Handlers.thy ===== *)
theory Registry_Handlers
  imports Registry_Writes
begin

text \<open>
  Every repository handler of \<open>main.rs\<close> against the contract \<open>repo_rel\<close>, and the calls
  of the router: a refused call changes nothing, an authorized one is a step of the relation.
\<close>

section \<open>The gates\<close>

context repo_rel
begin

lemma check_signatures_view: "check_signatures E pol t' p' n' d recs w = (w', b) \<Longrightarrow> view w' = view w"
  by (auto simp: check_signatures_def split: if_splits prod.splits dest: load_artifacts_view)

lemma enforce_pull_step:
  assumes "enforce_pull_signature_policy E q sub t' p' n' d s = (s', r)"
  shows "bucket_step R view s s'"
proof -
  have "bucket_step R view s (sink_append E a (s\<lparr>rg_world := w\<rparr>))" if "view w = view (rg_world s)" for a w
    using that by (simp add: bucket_step_def R_refl)
  then show ?thesis
    using assms
    by (auto simp: enforce_pull_signature_policy_def Let_def bucket_step_refl
        split: if_splits sum.splits option.splits prod.splits bool.splits
        dest!: check_signatures_view intro: bucket_step_view)
qed

lemma enforce_admission_step:
  assumes "enforce_admission E q c t' p' n' d s = (s', r)"
  shows "bucket_step R view s s'"
proof -
  have sig: "bucket_step R view s s1" if "admission_signature E q sub t' p' n' d ps s = (s1, b)" for sub ps s1 b
    using that by (auto simp: admission_signature_def bucket_step_refl split: if_splits prod.splits intro: enforce_pull_step)
  have "rg_world s2 = rg_world s1 \<and> rg_mirror s2 = rg_mirror s1 \<Longrightarrow> bucket_step R view s s1 \<Longrightarrow> bucket_step R view s s2" for s1 s2
    by (auto simp: bucket_step_def)
  note carry = this
  show ?thesis
    using assms
    by (auto simp: enforce_admission_def Let_def bucket_step_refl split: if_splits sum.splits prod.splits verdict.splits
        dest!: sig elim!: carry [rotated])
qed

lemma pull_gates_step:
  assumes "pull_gates E q c t p n x d s = (s', r)"
  shows "bucket_step R view s s'"
  using assms
  by (auto simp: pull_gates_def bucket_step_refl split: if_splits prod.splits sum.splits
      intro: enforce_admission_step enforce_pull_step bucket_step_trans [OF enforce_pull_step enforce_admission_step])

section \<open>Manifests\<close>

lemma head_manifest_step:
  assumes "head_manifest E c t p n x s = (s', r)"
  shows "bucket_step R view s s'"
  using assms
  by (auto simp: head_manifest_def Let_def bucket_step_refl split: sum.splits prod.splits read.splits
      dest!: resolve_manifest_path_view store_read_view intro: bucket_step_view)

lemma find_manifest_step:
  assumes "find_manifest E t p n x s = (s', r)" "rg_mirror s = None \<or> mirror_keeps R view E t p n"
  shows "bucket_step R view s s'"
proof -
  obtain w1 y where l: "local_manifest E t p n x (rg_world s) = (w1, y)"
    by force
  let ?s1 = "s\<lparr>rg_world := w1\<rparr>"
  have s1: "bucket_step R view s ?s1"
    by (rule bucket_step_view [OF local_manifest_view [OF l]])
  have "bucket_step R view s s'"
    if "remote_read E (fetch_manifest (en_mirror E) t p n x) e url ?s1 = (s', r)" for e url
    by (rule bucket_step_trans [OF s1 remote_read_step [OF that]]) (use assms(2) in \<open>auto simp: mirror_keeps_def\<close>)
  then show ?thesis
    using assms(1) l s1 by (auto simp: find_manifest_def split: sum.splits option.splits)
qed


text \<open>A state that differs only in queues and tables.\<close>

lemma bucket_step_carry:
  "bucket_step R view s s1 \<Longrightarrow> rg_world s2 = rg_world s1 \<and> rg_mirror s2 = rg_mirror s1 \<Longrightarrow> bucket_step R view s s2"
  by (auto simp: bucket_step_def)

lemma get_manifest_step:
  assumes "get_manifest E q c t p n x s = (s', r)" "rg_mirror s = None \<or> mirror_keeps R view E t p n"
  shows "bucket_step R view s s'"
proof -
  obtain s1 f where f: "find_manifest E t p n x s = (s1, f)"
    by force
  have s1: "bucket_step R view s s1"
    by (rule find_manifest_step [OF f assms(2)])
  have s2: "bucket_step R view s s2" if "pull_gates E q c t p n x d s1 = (s2, g)" for d s2 g
    by (rule bucket_step_trans [OF s1 pull_gates_step [OF that]])
  show ?thesis
    using assms(1) f s1 [unfolded bucket_step_def]
    by (auto simp: get_manifest_def Let_def bucket_step_def R_refl split: sum.splits option.splits prod.splits
        dest!: s2 [unfolded bucket_step_def])
qed

lemma put_manifest_step:
  assumes "put_manifest E q c t p n x ttl body s = (s', r)"
  shows "bucket_step R view s s'"
proof -
  obtain w1 y where st: "store_manifest E t p n x (sha256_digest (en_sha E) body) body (rg_world s) = (w1, y)"
    by force
  have s1: "bucket_step R view s (s\<lparr>rg_world := w1\<rparr>)"
    by (rule bucket_step_world [OF store_manifest_rel [OF st]])
  show ?thesis
    using assms st s1
    by (auto simp: put_manifest_def Let_def bucket_step_refl
        split: sum.splits option.splits prod.splits if_splits
        dest!: record_ttl_quiet audit_record_keeps elim!: bucket_step_carry)
qed

lemma delete_target_view: "delete_target E t p n x w = (w', r) \<Longrightarrow> view w' = view w"
  by (auto simp: delete_target_def split: option.splits if_splits prod.splits sum.splits dest: read_tag_link_view)

lemma delete_manifest_step:
  assumes "delete_manifest E q c t p n x s = (s', r)"
  shows "bucket_step R view s s'"
proof -
  obtain w1 y where tg: "delete_target E t p n x (rg_world s) = (w1, y)"
    by force
  have v: "view w1 = view (rg_world s)"
    by (rule delete_target_view [OF tg])
  have del: "R (view (rg_world s)) (view w2)"
    if "(if is_tag then map_prod id (map_sum (\<lambda>e. Storage (en_os_text E e)) id)
          (os_delete (en_store E) (os_path (en_store E) (tag_link_path t p n x)) w1)
        else delete_digest E t p n x d w1) = (w2, z)" for is_tag d w2 z
    using that v os_delete_rel(1) [of x w1 w2] delete_digest_rel [of x d w1 w2]
    by (auto simp: map_prod_def split: if_splits prod.splits)
  show ?thesis
    using assms tg v
    by (auto simp: delete_manifest_def Let_def bucket_step_def R_refl split: sum.splits prod.splits
        dest!: del audit_record_keeps)
qed

section \<open>Blobs\<close>

lemma head_blob_step: "head_blob E c t p n d s = (s', r) \<Longrightarrow> bucket_step R view s s'"
  by (auto simp: head_blob_def bucket_step_refl split: sum.splits prod.splits dest!: head_view intro: bucket_step_view)

lemma find_blob_step:
  assumes "find_blob E t p n d s = (s', r)" "rg_mirror s = None \<or> mirror_keeps R view E t p n"
  shows "bucket_step R view s s'"
proof -
  obtain w1 y where l: "store_read E (blob_path t p n d) (rg_world s) = (w1, y)"
    by force
  let ?s1 = "s\<lparr>rg_world := w1\<rparr>"
  have s1: "bucket_step R view s ?s1"
    by (rule bucket_step_view [OF store_read_view [OF l]])
  have "bucket_step R view s s'"
    if "remote_read E (fetch_blob (en_mirror E) t p n d) e url ?s1 = (s', r)" for e url
    by (rule bucket_step_trans [OF s1 remote_read_step [OF that]]) (use assms(2) in \<open>auto simp: mirror_keeps_def\<close>)
  then show ?thesis
    using assms(1) l s1 by (auto simp: find_blob_def split: read.splits if_splits)
qed

lemma get_blob_step:
  assumes "get_blob E q c t p n d s = (s', r)" "rg_mirror s = None \<or> mirror_keeps R view E t p n"
  shows "bucket_step R view s s'"
proof -
  obtain s1 f where f: "find_blob E t p n d s = (s1, f)"
    by force
  show ?thesis
    using assms(1) f find_blob_step [OF f assms(2), unfolded bucket_step_def]
    by (auto simp: get_blob_def bucket_step_def R_refl split: sum.splits option.splits)
qed

lemma initiate_step: "initiate_blob_upload E q c t p n s = (s', r) \<Longrightarrow> bucket_step R view s s'"
  by (auto simp: initiate_blob_upload_def Let_def bucket_step_refl split: sum.splits prod.splits
      dest!: put_upload_rel(1) intro: bucket_step_world)

lemma upload_chunk_step: "upload_blob_chunk E c t p n u body s = (s', r) \<Longrightarrow> bucket_step R view s s'"
  by (auto simp: upload_blob_chunk_def bucket_step_refl bucket_step_def R_refl split: sum.splits prod.splits option.splits
      dest!: read_upload_view put_upload_rel(2))

lemma finish_upload_keeps:
  "finish_upload E q c t p n d len s = (s', r) \<Longrightarrow> rg_world s' = rg_world s \<and> rg_mirror s' = rg_mirror s"
  by (auto simp: finish_upload_def Let_def split: option.splits sum.splits prod.splits if_splits dest!: audit_record_keeps)

lemma complete_step:
  assumes "complete_blob_upload E q c t p n u dq body s = (s', r)"
  shows "bucket_step R view s s'"
proof -
  obtain w1 y where rd: "read_upload E t p n u (rg_world s) = (w1, y)"
    by force
  have v: "view w1 = view (rg_world s)"
    by (rule read_upload_view [OF rd])
  have put: "R (view (rg_world s)) (view w2)"
    if "store_put_chunked E (blob_path t p n (sha256_digest (en_sha E) d)) d w1 = Some (w2, z)" for d w2 z
    using put_blob_rel(2) [OF that] v by simp
  have "R (view (rg_world s)) (view (fst (os_delete (en_store E) (os_path (en_store E) (upload_path t p n u)) w2)))"
    if "R (view (rg_world s)) (view w2)" for w2
    by (rule R_trans [OF that os_delete_rel(2)])
  then show ?thesis
    using assms rd v
    by (auto simp: complete_blob_upload_def Let_def bucket_step_def R_refl
        split: sum.splits prod.splits option.splits if_splits dest!: put finish_upload_keeps)
qed

section \<open>Listings, status and signatures\<close>

lemma list_tags_step: "list_tags E c t p n k l s = (s', r) \<Longrightarrow> bucket_step R view s s'"
  by (auto simp: list_tags_def Let_def bucket_step_refl split: sum.splits prod.splits dest!: list_view intro: bucket_step_view)

lemma image_status_step: "image_status E c t p n x s = (s', r) \<Longrightarrow> bucket_step R view s s'"
  by (auto simp: image_status_def Let_def bucket_step_def R_refl split: sum.splits prod.splits read.splits option.splits
      dest!: resolve_manifest_path_view store_read_view check_image_view)

lemma persist_signature_step:
  assumes "persist_signature E q sub t p n d body decl s = (s', r)"
  shows "bucket_step R view s s'"
proof -
  let ?d = "sha256_digest (en_sha E) body"
  obtain w1 y where b: "store_put E (blob_path t p n ?d) body (rg_world s) = (w1, y)"
    by force
  obtain w2 z where m: "store_put E (manifest_path t p n ?d) body w1 = (w2, z)"
    by force
  have r1: "R (view (rg_world s)) (view w1)" and r2: "R (view (rg_world s)) (view w2)"
    using put_blob_rel(1) [OF b] put_other_rel(2) [OF m] R_trans by blast+
  have r3: "R (view (rg_world s)) (view w3)" if "store_put E (tag_link_path t p n tag) ?d w2 = (w3, v)" for tag w3 v
    by (rule R_trans [OF r2 put_other_rel(1) [OF that]])
  show ?thesis
    using assms b m r1 r2
    by (auto simp: persist_signature_def Let_def bucket_step_def R_refl map_prod_def
        split: if_splits sum.splits option.splits prod.splits dest!: r3 register_signature_metadata_quiet)
qed

lemma upload_signature_step: "upload_signature E q c t p n d body s = (s', r) \<Longrightarrow> bucket_step R view s s'"
  by (auto simp: upload_signature_def Let_def bucket_step_refl split: sum.splits prod.splits if_splits
      dest!: persist_signature_step)

lemma list_signatures_step: "list_signatures E q c t p n d s = (s', r) \<Longrightarrow> bucket_step R view s s'"
  by (simp add: list_signatures_def bucket_step_refl)

lemmas handler_steps = head_manifest_step put_manifest_step delete_manifest_step head_blob_step initiate_step
  upload_chunk_step complete_step list_tags_step image_status_step upload_signature_step list_signatures_step

theorem handle_step:
  assumes "handle E q c t p n oper s = (s', r)" "rg_mirror s = None \<or> mirror_keeps R view E t p n"
  shows "bucket_step R view s s'"
  using assms by (cases oper) (auto dest: handler_steps get_manifest_step get_blob_step)

end

end
