(* ===== verification/Registry_Demo.thy ===== *)
theory Registry_Demo
  imports Registry_Writes
begin

text \<open>
  A concrete registry over the in-memory store, on which the contracts of
  the environment are discharged and the properties of the handlers are applied. Paths lose
  a trailing slash, as \<open>Path::from\<close> drops empty segments; a token names the
  repository it grants all actions on.
\<close>

definition trim_slash :: "string \<Rightarrow> string" where
  "trim_slash k = (if k \<noteq> [] \<and> last k = CHR ''/'' then butlast k else k)"

definition dir_store :: "(mem_world, bytes, nat \<times> path) store_ops" where
  "dir_store = mem_store\<lparr>os_path := trim_slash\<rparr>"

lemma last_join_path: "segs \<noteq> [] \<Longrightarrow> list_all plain_seg segs \<Longrightarrow> join_path segs \<noteq> [] \<and> last (join_path segs) \<noteq> CHR ''/''"
proof (induction segs rule: join_path.induct)
  case (2 s)
  then show ?case
    using plain_seg_no_slash [of s] last_in_set [of s] by (force simp: plain_seg_def simp del: last_in_set)
qed auto

lemma trim_slash_plain: "plain_key k \<Longrightarrow> trim_slash k = k"
  by (auto simp: plain_key_def trim_slash_def dest: last_join_path)

lemma trim_slash_under: "k = trim_slash (k @ ''/'' @ y) \<or> starts_with (k @ ''/'') (trim_slash (k @ ''/'' @ y))"
  by (auto simp: trim_slash_def starts_with_iff butlast_append)

lemma dir_store_sel:
  "os_path dir_store = trim_slash" "os_get dir_store = os_get mem_store" "os_bytes dir_store = os_bytes mem_store"
  "os_head dir_store = os_head mem_store" "os_put dir_store = os_put mem_store" "os_delete dir_store = os_delete mem_store"
  "os_list dir_store = os_list mem_store" "os_list_dir dir_store = os_list_dir mem_store" "os_copy dir_store = os_copy mem_store"
  "os_multipart dir_store = os_multipart mem_store" "os_put_part dir_store = os_put_part mem_store"
  "os_complete dir_store = os_complete mem_store" "os_abort dir_store = os_abort mem_store"
  by (simp_all add: dir_store_def)

interpretation dir: object_store dir_store mem_view "\<lambda>h. h" snd mem_parts
  unfolding object_store_def dir_store_sel
  using mem.object_store_axioms [unfolded object_store_def]
  by (elim conjE) (intro conjI; (assumption | intro allI impI trim_slash_plain trim_slash_under; assumption))

definition demo_sha :: "bytes \<Rightarrow> string" where
  "demo_sha b = CHR ''h'' # filter seg_char b"

lemma demo_sha_plain: "plain_seg (demo_sha b)"
proof -
  have "seg_char CHR ''h''"
    by code_simp
  then show ?thesis
    by (simp add: demo_sha_def plain_seg_def list_all_iff)
qed

definition demo_reg :: "(mem_world, bytes, nat \<times> path, audit_event list, string, string) reg_env" where
  "demo_reg = \<lparr>en_mirror = (demo_env (\<lambda>_. answer 404 [] []))\<lparr>me_store := dir_store, me_sha := demo_sha\<rparr>,
     en_proxy = (\<lambda>_ _ w. (w, Inl [])), en_failover = None, en_json = (\<lambda>_. Some Null), en_json_error = (\<lambda>_. []),
     en_os_text = (\<lambda>_. []), en_mirror_text = (\<lambda>_. []), en_audit_text = (\<lambda>_. []), en_verify_text = (\<lambda>_. []),
     en_schedule = (\<lambda>n. [0..<n]), en_append = (\<lambda>e s. (s @ [e], Inr (int (length s)))), en_chrono = demo_chrono,
     en_sig = demo_sig, en_file_keys = demo_keys, en_policy_decode = (\<lambda>_. Inl []), en_policy_encode = (\<lambda>_. Null),
     en_spec_decode = (\<lambda>_. None), en_parse_event = (\<lambda>_. None), en_signing_enabled = False, en_require_for_pull = False,
     en_admission_enabled = False, en_threshold_mb = 64, en_part_size_mb = 16, en_concurrency = 4, en_pool = True,
     en_gc_online = False, en_region = None, en_webhook = False, en_scanner = False, en_scan_store = False, en_artifacts = False,
     en_lazy = None\<rparr>"

definition demo_state :: "mem_world \<Rightarrow> (mem_world, audit_event list, unit) reg_state" where
  "demo_state w = \<lparr>rg_world = w, rg_mirror = None, rg_gc = empty_db, rg_tags = \<lparr>tags_table = [], ttl_reaps = []\<rparr>,
     rg_audit = log_with_sink 0 True, rg_sink = [], rg_signatures = [], rg_policies = [], rg_admission = [], rg_decisions = [],
     rg_cache = cache_new 0, rg_scans = Map.empty, rg_referrers = [], rg_replication = [], rg_hooks = [], rg_tasks = []\<rparr>"

definition demo_request :: request where
  "demo_request = \<lparr>rq_ok = (\<lambda>_. True), rq_now = 0, rq_db_now = 0, rq_uuid = (\<lambda>k. k), rq_draw = 0, rq_clock = (\<lambda>_. 0), rq_ms = 0\<rparr>"

definition demo_claims :: "string \<Rightarrow> claims" where
  "demo_claims repo = \<lparr>cl_sub = ''sub'', cl_tenant_id = ''t'', cl_tenant_name = None, cl_role = Maintainer,
     cl_scopes = [\<lparr>ts_repository = repo, ts_actions = [action.Pull, action.Push, action.Delete]\<rparr>]\<rparr>"

definition demo_decode :: "string \<Rightarrow> string \<Rightarrow> (jwt_error, claims) result" where
  "demo_decode alg jwt = Inr (demo_claims jwt)"

definition demo_call :: "string option \<Rightarrow> route \<Rightarrow> http_call" where
  "demo_call auth r = \<lparr>hc_auth = auth, hc_route = r, hc_request = demo_request\<rparr>"

lemma demo_env_quiet: "env_quiet demo_reg mem_view"
  by (auto simp: env_quiet_def demo_reg_def)

lemma demo_store: "en_store demo_reg = dir_store" "en_sha demo_reg = demo_sha"
  by (simp_all add: demo_reg_def)

lemma demo_reg_http_quiet: "http_quiet (me_http (en_mirror demo_reg)) mem_view"
  by (simp add: demo_reg_def demo_env_def demo_http_quiet)

interpretation demo: registry_store demo_reg mem_view "\<lambda>h. h" snd mem_parts
  unfolding registry_store_def registry_store_axioms_def demo_store
  using dir.object_store_axioms demo_env_quiet by simp

end
