(* ===== verification/Registry_Push.thy ===== *)
theory Registry_Push
  imports Registry_Demo
begin

text \<open>
  A push followed by a pull: the manifest that \<open>put_manifest\<close> acknowledged is what \<open>get_manifest\<close>
  returns under its tag and under its digest.
\<close>

section \<open>Names and headers\<close>

lemma seg_chars_ascii: "list_all seg_char v \<Longrightarrow> ascii v"
  by (auto simp: list_all_iff ascii_def byte_def seg_char_def is_ascii_alphanumeric_def is_ascii_alphabetic_def
      is_ascii_lowercase_def is_ascii_uppercase_def is_ascii_digit_def less_eq_char_def)

lemma seg_char_visible: "seg_char c \<Longrightarrow> CHR 0x20 \<le> c \<and> c \<noteq> CHR 0x7F \<and> \<not> is_whitespace c"
  by (auto simp: seg_char_def is_ascii_alphanumeric_def is_ascii_alphabetic_def is_whitespace_def
      is_ascii_lowercase_def is_ascii_uppercase_def is_ascii_digit_def less_eq_char_def)

lemma seg_chars_header_ok: "list_all seg_char v \<Longrightarrow> header_ok v"
  using seg_char_visible by (auto simp: header_ok_def list_all_iff)

lemma plain_seg_trim:
  assumes "plain_seg v"
  shows "from_utf8 v = Some v" "utf8_trim v = v" "from_utf8_lossy v = v"
proof -
  have "ascii v" "v \<noteq> []"
    using assms seg_chars_ascii by (auto simp: plain_seg_def)
  moreover have "\<not> is_whitespace (hd v)" "\<not> is_whitespace (last v)"
    using assms seg_char_visible by (auto simp: plain_seg_def list_all_iff)
  ultimately show "from_utf8 v = Some v" "utf8_trim v = v" "from_utf8_lossy v = v"
    by (simp_all add: from_utf8_ascii utf8_trim_ascii trim_id from_utf8_lossy_ascii)
qed

lemma header_ok_show_nat: "header_ok (show_nat k)"
proof -
  have "list_all seg_char (show_nat k)"
    using show_nat_digits [of k] by (auto simp: list_all_iff seg_char_def is_ascii_alphanumeric_def)
  then show ?thesis
    by (rule seg_chars_header_ok)
qed

lemma plain_digest: "plain_seg h \<Longrightarrow> plain_seg (''sha256:'' @ h)"
  by (simp add: plain_seg_def seg_char_def is_ascii_alphanumeric_def is_ascii_alphabetic_def is_ascii_lowercase_def
      is_ascii_digit_def)

section \<open>What a push leaves behind\<close>

lemma put_manifest_stored:
  assumes "put_manifest E q c t p n x ttl body s = (s', Some (Inr r))"
  shows "store_manifest E t p n x (sha256_digest (en_sha E) body) body (rg_world s) = (rg_world s', Inr ())"
    "rg_mirror s' = rg_mirror s"
  using assms
  by (auto simp: put_manifest_def Let_def split: sum.splits option.splits prod.splits if_splits
      dest!: record_ttl_quiet audit_record_keeps)

text \<open>A world in which reads of present objects succeed, and go on doing so.\<close>

definition calm_reads :: "('w, 'h, 'u) store_ops \<Rightarrow> 'w view \<Rightarrow> ('w \<Rightarrow> bool) \<Rightarrow> bool" where
  "calm_reads S view calm \<longleftrightarrow> (\<forall>w k d. calm w \<and> view w k = Some d \<longrightarrow>
     (\<exists>w1 h w2. os_get S k w = (w1, Inr h) \<and> os_bytes S h w1 = (w2, Inr d) \<and> calm w2))"

lemma calm_store_read:
  assumes "calm_reads (en_store E) view calm" "calm w" "view w (os_path (en_store E) key) = Some d"
  shows "\<exists>w'. store_read E key w = (w', Got d) \<and> calm w'"
proof -
  obtain w1 h w2 where "os_get (en_store E) (os_path (en_store E) key) w = (w1, Inr h)"
    "os_bytes (en_store E) h w1 = (w2, Inr d)" "calm w2"
    using assms unfolding calm_reads_def by blast
  then show ?thesis
    by (simp add: store_read_def)
qed

context registry_store
begin

lemma store_manifest_ok:
  assumes "store_manifest E t p n x d b w = (w', Inr u)"
  shows "view w' = (if starts_with ''sha256:'' x then (view w)(os_path (en_store E) (manifest_path t p n d) \<mapsto> b)
    else (view w)(os_path (en_store E) (manifest_path t p n d) \<mapsto> b, os_path (en_store E) (tag_link_path t p n x) \<mapsto> d))"
  using assms by (auto simp: store_manifest_def split: prod.splits sum.splits if_splits dest!: store_put_ok)

lemma local_manifest_tag:
  assumes "calm_reads (en_store E) view calm" "calm w" "plain_seg d" "\<not> starts_with ''sha256:'' x" "\<not> starts_with ''sha256-'' x"
    and "view w (os_path (en_store E) (tag_link_path t p n x)) = Some d"
    and "view w (os_path (en_store E) (manifest_path t p n d)) = Some b"
  shows "\<exists>w'. local_manifest E t p n x w = (w', Inr (Some b)) \<and> view w' = view w"
proof -
  obtain w1 where link: "store_read E (tag_link_path t p n x) w = (w1, Got d)" "calm w1"
    using calm_store_read [OF assms(1,2,6)] by blast
  have "view w1 (os_path (en_store E) (manifest_path t p n d)) = Some b"
    using store_read_view [OF link(1)] assms(7) by simp
  then obtain w2 where body: "store_read E (manifest_path t p n d) w1 = (w2, Got b)" "calm w2"
    using calm_store_read [OF assms(1) link(2)] by blast
  have "normalized_ref x = x"
    using assms(5) by (simp add: normalized_ref_def starts_with_def)
  then show ?thesis
    using link body assms(4) store_read_view [OF link(1)] store_read_view [OF body(1)]
    by (simp add: local_manifest_def resolve_manifest_path_def plain_seg_trim [OF assms(3)])
qed

lemma local_manifest_digest:
  assumes "calm_reads (en_store E) view calm" "calm w" "normalized_ref x = d" "starts_with ''sha256:'' d"
    and "view w (os_path (en_store E) (manifest_path t p n d)) = Some b"
  shows "\<exists>w'. local_manifest E t p n x w = (w', Inr (Some b)) \<and> view w' = view w"
proof -
  obtain w' where "store_read E (manifest_path t p n d) w = (w', Got b)" "calm w'"
    using calm_store_read [OF assms(1,2,5)] by blast
  then show ?thesis
    using assms(3,4) store_read_view [of "manifest_path t p n d" w] by (simp add: local_manifest_def resolve_manifest_path_def)
qed

end

lemma normalized_digest: "normalized_ref (''sha256:'' @ h) = ''sha256:'' @ h" "normalized_ref (''sha256-'' @ h) = ''sha256:'' @ h"
  by (simp_all add: normalized_ref_def)

lemma get_manifest_found:
  assumes "authorize c t p n action.Pull = Inr ()" "local_manifest E t p n x (rg_world s) = (w', Inr (Some b))"
    and "plain_seg (en_sha E b)"
  shows "case pull_gates E q c t p n x (sha256_digest (en_sha E) b) (s\<lparr>rg_world := w'\<rparr>) of
      (s2, Inl e) \<Rightarrow> get_manifest E q c t p n x s = (s2, Some (Inl e))
    | (s2, Inr _) \<Rightarrow>
        if header_ok (detect_manifest_media_type (en_json E) b)
        then \<exists>s3 r. get_manifest E q c t p n x s = (s3, Some (Inr r)) \<and> rs_status r = 200 \<and> rs_body r = Raw b \<and>
          (''docker-content-digest'', sha256_digest (en_sha E) b) \<in> set (rs_headers r)
        else get_manifest E q c t p n x s = (s2, None)"
proof -
  have "header_ok (sha256_digest (en_sha E) b)"
    using plain_digest [OF assms(3)] seg_chars_header_ok by (simp add: sha256_digest_def plain_seg_def)
  moreover have "header_ok ''registry/2.0''"
    by code_simp
  ultimately show ?thesis
    using assms header_ok_show_nat
    by (simp add: get_manifest_def find_manifest_def respond_def manifest_headers_def api_version_def Let_def
        split: prod.split sum.split)
qed

lemma gates_off: "\<not> en_signing_enabled E \<Longrightarrow> \<not> en_admission_enabled E \<Longrightarrow> pull_gates E q c t p n x d s = (s, Inr ())"
  by (simp add: pull_gates_def)

lemma stored_locally:
  assumes "object_store (en_store E) view content target parts" "env_quiet E view" "calm_reads (en_store E) view calm"
    and "plain_seg t" "plain_seg p" "plain_seg n" "plain_seg x" "plain_seg (''sha256:'' @ h)"
    and "store_manifest E t p n x (''sha256:'' @ h) body w = (w1, Inr ())" "calm w1"
    and "y = x \<and> \<not> starts_with ''sha256:'' x \<and> \<not> starts_with ''sha256-'' x \<or> y = ''sha256:'' @ h \<or> y = ''sha256-'' @ h"
  shows "\<exists>w'. local_manifest E t p n y w1 = (w', Inr (Some body)) \<and> view w' = view w1"
proof -
  have store: "registry_store E view content target parts"
    using assms(1,2) by (simp add: registry_store_def registry_store_axioms_def)
  let ?d = "''sha256:'' @ h"
  let ?m = "join_path [t, p, n, ''manifests'', ?d]" and ?l = "join_path [t, p, n, ''tags'', x]"
  have keys: "os_path (en_store E) (manifest_path t p n ?d) = ?m" "os_path (en_store E) (tag_link_path t p n x) = ?l"
    using object_store.path_plain [OF assms(1) plain_key_join, of "[t, p, n, ''manifests'', ?d]"]
      object_store.path_plain [OF assms(1) plain_key_join, of "[t, p, n, ''tags'', x]"] assms(4-8)
    by (simp_all add: manifest_path_join tag_link_path_join)
  have "?m \<noteq> ?l"
    using join_path_inj [of "[t, p, n, ''manifests'', ?d]" "[t, p, n, ''tags'', x]"] assms(4-8)
    by (auto simp: plain_seg_no_slash)
  then have stored: "view w1 ?m = Some body" "\<not> starts_with ''sha256:'' x \<Longrightarrow> view w1 ?l = Some ?d"
    using registry_store.store_manifest_ok [OF store assms(9)] keys
    by (simp_all del: join_path.simps)
  have digest: "starts_with ''sha256:'' ?d"
    by (simp add: starts_with_def)
  from assms(11) show ?thesis
  proof (elim disjE conjE)
    assume "y = x" "\<not> starts_with ''sha256:'' x" "\<not> starts_with ''sha256-'' x"
    then show ?thesis
      using registry_store.local_manifest_tag [OF store assms(3,10,8), of x t p n body] stored keys by (simp del: join_path.simps)
  qed (use registry_store.local_manifest_digest [OF store assms(3,10) _ digest] normalized_digest [of h] stored(1) keys(1)
      in \<open>simp_all del: join_path.simps\<close>)
qed

text \<open>
  C6. Push, then pull: once \<open>put_manifest\<close> has answered a push, a pull of the tag, and a pull of the digest in
  either of its spellings, by anyone who may pull, whatever was stored before, goes to the pull gates with the
  pushed manifest. Where a gate refuses, its error is the answer. Where none does, the answer is 200 with exactly
  the pushed bytes and their digest - unless the media type the manifest names is no header value, when the
  handler panics. The names and the tag are plain, the tag does not start with \<open>sha256:\<close> or \<open>sha256-\<close> where it
  is what is pulled, digests are plain strings, and reads of objects that are there succeed.
\<close>

theorem push_then_pull:
  assumes "object_store (en_store E) view content target parts" "env_quiet E view" "calm_reads (en_store E) view calm"
    and "plain_seg t" "plain_seg p" "plain_seg n" "plain_seg x" "plain_seg (en_sha E body)"
    and "put_manifest E q c t p n x ttl body s = (s1, Some (Inr r))" "calm (rg_world s1)"
    and "authorize c' t p n action.Pull = Inr ()"
    and "y = x \<and> \<not> starts_with ''sha256:'' x \<and> \<not> starts_with ''sha256-'' x \<or>
      y = ''sha256:'' @ en_sha E body \<or> y = ''sha256-'' @ en_sha E body"
  shows "\<exists>w'. view w' = view (rg_world s1) \<and>
    (case pull_gates E q' c' t p n y (sha256_digest (en_sha E) body) (s1\<lparr>rg_world := w'\<rparr>) of
       (s2, Inl e) \<Rightarrow> get_manifest E q' c' t p n y s1 = (s2, Some (Inl e))
     | (s2, Inr _) \<Rightarrow>
         if header_ok (detect_manifest_media_type (en_json E) body)
         then \<exists>s3 r2. get_manifest E q' c' t p n y s1 = (s3, Some (Inr r2)) \<and> rs_status r2 = 200 \<and> rs_body r2 = Raw body \<and>
           (''docker-content-digest'', sha256_digest (en_sha E) body) \<in> set (rs_headers r2)
         else get_manifest E q' c' t p n y s1 = (s2, None))"
proof -
  have "store_manifest E t p n x (''sha256:'' @ en_sha E body) body (rg_world s) = (rg_world s1, Inr ())"
    using put_manifest_stored(1) [OF assms(9)] by (simp add: sha256_digest_def)
  from stored_locally [OF assms(1-7) plain_digest [OF assms(8)] this assms(10,12)]
  obtain w' where found: "local_manifest E t p n y (rg_world s1) = (w', Inr (Some body))" "view w' = view (rg_world s1)"
    by blast
  show ?thesis
    by (intro exI [of _ w'] conjI found(2) get_manifest_found [OF assms(11) found(1) assms(8)])
qed

lemma mem_calm: "calm_reads dir_store mem_view (\<lambda>w. faults w = [])"
  by (auto simp: calm_reads_def dir_store_def mem_store_def mem_io_def mem_get_def next_fault_def mem_view_def
      split: option.splits)

text \<open>A push to the concrete registry.\<close>

lemma demo_push:
  "\<exists>s1 r. put_manifest demo_reg demo_request (demo_claims ''_/p/n'') ''_'' ''p'' ''n'' ''v1'' None ''m''
      (demo_state (mem_init [] [])) = (s1, Some (Inr r)) \<and> faults (rg_world s1) = []"
proof -
  have headers: "header_ok ''sha256:hm''" "header_ok ''/v2/_/p/n/manifests/sha256:hm''" "header_ok ''registry/2.0''"
    by code_simp+
  have sha: "demo_sha ''m'' = ''hm''" "trim_slash ''_/p/n/manifests/sha256:hm'' = ''_/p/n/manifests/sha256:hm''"
    "trim_slash ''_/p/n/tags/v1'' = ''_/p/n/tags/v1''"
    by code_simp+
  have wr: "is_write (mk_event demo_request ''manifest.push'' sub t p n x d len code ms)" for sub t p n x d len code ms
    by (simp add: is_write_def mk_event_def)
  show ?thesis
    using headers sha wr
    by (simp add: put_manifest_def demo_claims_def authorize_def can_def demo_reg_def store_manifest_def store_put_def
        dir_store_def mem_store_def mem_io_def next_fault_def mem_init_def demo_state_def manifest_path_def tag_link_path_def
        starts_with_def record_ttl_def respond_def audit_record_def record_event_def should_persist_def log_with_sink_def
        push_tasks_def extract_config_digest_def enqueue_def notify_def register_sig_tag_def sha256_digest_def api_version_def
        Let_def split: option.split)
qed

lemma demo_push_facts:
  "plain_seg ''_''" "plain_seg ''p''" "plain_seg ''n''" "plain_seg ''v1''" "plain_seg ''hm''" "\<not> starts_with ''sha256'' ''v1''"
  "plain_seg (en_sha demo_reg b)" "authorize (demo_claims ''_/p/n'') ''_'' ''p'' ''n'' action.Pull = Inr ()"
  "\<not> en_signing_enabled demo_reg" "\<not> en_admission_enabled demo_reg"
  "header_ok (detect_manifest_media_type (en_json demo_reg) b)" "sha256_digest (en_sha demo_reg) ''m'' = ''sha256:hm''"
  "calm_reads (en_store demo_reg) mem_view (\<lambda>w. faults w = [])"
proof -
  show "plain_seg ''_''" "plain_seg ''p''" "plain_seg ''n''" "plain_seg ''v1''" "plain_seg ''hm''" "\<not> starts_with ''sha256'' ''v1''"
    by code_simp+
  show "plain_seg (en_sha demo_reg b)" "calm_reads (en_store demo_reg) mem_view (\<lambda>w. faults w = [])"
    by (simp_all add: demo_store demo_sha_plain mem_calm)
  show "authorize (demo_claims ''_/p/n'') ''_'' ''p'' ''n'' action.Pull = Inr ()"
    by (simp add: authorize_def demo_claims_def can_def Let_def)
  show "\<not> en_signing_enabled demo_reg" "\<not> en_admission_enabled demo_reg"
    by (simp_all add: demo_reg_def)
  have "header_ok OCI_MANIFEST"
    by code_simp
  then show "header_ok (detect_manifest_media_type (en_json demo_reg) b)"
    by (simp add: demo_reg_def detect_manifest_media_type_def json_get_def)
  have "demo_sha ''m'' = ''hm''"
    by code_simp
  then show "sha256_digest (en_sha demo_reg) ''m'' = ''sha256:hm''"
    by (simp add: demo_store sha256_digest_def)
qed

theorem push_then_pull_witness:
  "\<exists>s1 r s2 r2. put_manifest demo_reg demo_request (demo_claims ''_/p/n'') ''_'' ''p'' ''n'' ''v1'' None ''m''
      (demo_state (mem_init [] [])) = (s1, Some (Inr r)) \<and>
    get_manifest demo_reg demo_request (demo_claims ''_/p/n'') ''_'' ''p'' ''n'' ''v1'' s1 = (s2, Some (Inr r2)) \<and>
    rs_body r2 = Raw ''m''"
proof -
  obtain s1 r where push: "put_manifest demo_reg demo_request (demo_claims ''_/p/n'') ''_'' ''p'' ''n'' ''v1'' None ''m''
      (demo_state (mem_init [] [])) = (s1, Some (Inr r))" and calm: "faults (rg_world s1) = []"
    using demo_push by blast
  have tag: "''v1'' = ''v1'' \<and> \<not> starts_with ''sha256:'' ''v1'' \<and> \<not> starts_with ''sha256-'' ''v1'' \<or>
      ''v1'' = ''sha256:'' @ en_sha demo_reg ''m'' \<or> ''v1'' = ''sha256-'' @ en_sha demo_reg ''m''"
    by (simp add: starts_with_def)
  from push_then_pull [OF demo.object_store_axioms demo_env_quiet demo_push_facts(13) demo_push_facts(1-4,7) push calm
      demo_push_facts(8) tag, where q' = demo_request]
  obtain s2 r2 where "get_manifest demo_reg demo_request (demo_claims ''_/p/n'') ''_'' ''p'' ''n'' ''v1'' s1 = (s2, Some (Inr r2))"
    "rs_body r2 = Raw ''m''"
    unfolding gates_off [OF demo_push_facts(9,10)] prod.case sum.case if_P [OF demo_push_facts(11)] by blast
  then show ?thesis
    using push by blast
qed

text \<open>The concrete pull by digest after that push.\<close>

lemma demo_pull:
  assumes "put_manifest demo_reg demo_request (demo_claims ''_/p/n'') ''_'' ''p'' ''n'' ''v1'' None ''m''
      (demo_state (mem_init [] [])) = (s1, Some (Inr r))" "faults (rg_world s1) = []"
  shows "\<exists>s2 r2. get_manifest demo_reg demo_request (demo_claims ''_/p/n'') ''_'' ''p'' ''n'' ''sha256:hm'' s1 = (s2, Some (Inr r2))"
proof -
  have "trim_slash ''_/p/n/manifests/sha256:hm'' = ''_/p/n/manifests/sha256:hm''"
    by code_simp
  then have "mem_view (rg_world s1) (os_path (en_store demo_reg) (manifest_path ''_'' ''p'' ''n'' ''sha256:hm'')) = Some ''m''"
    using demo.store_manifest_ok [OF put_manifest_stored(1) [OF assms(1)]] demo_push_facts(12)
    by (simp add: demo_store dir_store_sel manifest_path_def tag_link_path_def starts_with_def trim_slash_def)
  from demo.local_manifest_digest [OF demo_push_facts(13) assms(2) _ _ this]
  obtain w' where "local_manifest demo_reg ''_'' ''p'' ''n'' ''sha256:hm'' (rg_world s1) = (w', Inr (Some ''m''))"
    using normalized_digest(1) [of "''hm''"] by (auto simp: starts_with_def)
  from get_manifest_found [OF demo_push_facts(8) this demo_push_facts(7), where q = demo_request] show ?thesis
    unfolding gates_off [OF demo_push_facts(9,10)] prod.case sum.case if_P [OF demo_push_facts(11)] by blast
qed

end
