(* ===== verification/Registry_Isolation.thy ===== *)
theory Registry_Isolation
  imports Registry_Handlers Registry_Push
begin

text \<open>
  Two consequences of the contract for any sequence of calls: tokens that grant nothing on a
  repository leave its objects alone, and without a mirror the bucket stays
  content-addressed, so that a pull by digest returns bytes with that digest.
\<close>

section \<open>Keys of different repositories\<close>

lemma inside_cases: "inside k q \<longleftrightarrow> q = k \<or> (\<exists>r. q = k @ CHR ''/'' # r)"
  by (auto simp: inside_def starts_with_iff)

lemma inside_Cons:
  "inside (join_path (s # u # ss)) q \<longleftrightarrow> (\<exists>r. q = s @ CHR ''/'' # r \<and> inside (join_path (u # ss)) r)"
  by (auto simp: inside_cases)

lemma inside_same_segs:
  assumes "\<forall>s \<in> set as. CHR ''/'' \<notin> set s" "\<forall>s \<in> set bs. CHR ''/'' \<notin> set s"
    and "length as = length bs" "as \<noteq> []" "inside (join_path as) q" "inside (join_path bs) q"
  shows "as = bs"
  using assms
proof (induction as arbitrary: bs q rule: join_path.induct)
  case (2 s)
  from 2(3) obtain b where b: "bs = [b]"
    by (cases bs) auto
  have "s = b" if "s @ CHR ''/'' # r = b @ CHR ''/'' # r'" for r r'
    using append_sep_inj [OF _ _ that] 2(1,2) b by simp
  then show ?case
    using 2(1,2,5,6) unfolding b by (auto simp: inside_cases)
next
  case (3 s u ss)
  from 3(4) obtain b c cs where bs: "bs = b # c # cs"
    by (cases bs rule: join_path.cases) auto
  from 3(6) obtain r where r: "q = s @ CHR ''/'' # r" "inside (join_path (u # ss)) r"
    unfolding inside_Cons by blast
  from 3(7) obtain r' where r': "q = b @ CHR ''/'' # r'" "inside (join_path (c # cs)) r'"
    unfolding bs inside_Cons by blast
  have "s = b \<and> r = r'"
    by (rule append_sep_inj [of "CHR ''/''"]) (use 3(2,3) bs r(1) r'(1) in auto)
  moreover have "u # ss = c # cs"
    by (rule 3(1) [of _ r]) (use 3(2-4) bs r(2) r'(2) calculation in auto)
  ultimately show ?case
    using bs by simp
qed simp

lemma inside_prefix: "as \<noteq> [] \<Longrightarrow> inside (join_path as) (join_path (as @ bs))"
proof (induction as rule: join_path.induct)
  case (2 s)
  then show ?case by (cases bs) (auto simp: inside_cases)
next
  case (3 s u ss)
  then show ?case
    unfolding append_Cons inside_Cons by auto
qed simp

lemma inside_repos:
  assumes "plain_seg t" "plain_seg p" "plain_seg n" "plain_seg t'" "plain_seg p'" "plain_seg n'"
    and "inside (repo_key t p n) q" "inside (repo_key t' p' n') q"
  shows "t' = t \<and> p' = p \<and> n' = n"
  using inside_same_segs [of "[t, p, n]" "[t', p', n']" q] assms
  by (simp add: repo_key_def plain_seg_no_slash)

section \<open>Calls that name no repository\<close>

context registry_store
begin

lemma verify_image_keeps:
  "verify_image E q c d t p n ks s = (s', r) \<Longrightarrow> view (rg_world s') = view (rg_world s) \<and> rg_mirror s' = rg_mirror s"
  by (auto simp: verify_image_def split: sum.splits prod.splits if_splits dest!: load_artifacts_strict_view)

lemma catalog_keeps:
  "catalog E c k l s = (s', r) \<Longrightarrow> view (rg_world s') = view (rg_world s) \<and> rg_mirror s' = rg_mirror s"
  by (auto simp: catalog_def Let_def split: sum.splits prod.splits dest!: list_dir_view catalog_projects_view)

lemma policies_keep:
  "upsert_verification_policy E q c t n b s = (s', r) \<Longrightarrow> view (rg_world s') = view (rg_world s) \<and> rg_mirror s' = rg_mirror s"
  "get_verification_policy E q c t n s = (s', r) \<Longrightarrow> view (rg_world s') = view (rg_world s) \<and> rg_mirror s' = rg_mirror s"
  "delete_verification_policy E q c t n s = (s', r) \<Longrightarrow> view (rg_world s') = view (rg_world s) \<and> rg_mirror s' = rg_mirror s"
  by (auto simp: upsert_verification_policy_def get_verification_policy_def delete_verification_policy_def Let_def
      split: sum.splits prod.splits if_splits bool.splits)

end

text \<open>The repository a route names; the segments of a path are plain.\<close>

fun repo_of :: "route \<Rightarrow> (string \<times> string \<times> string) option" where
  "repo_of (Repo t p n _) = Some (t, p, n)"
| "repo_of (Repo2 p n oper) = Some (tenant_2seg oper, p, n)"
| "repo_of _ = None"

definition plain_route :: "route \<Rightarrow> bool" where
  "plain_route r = (case repo_of r of None \<Rightarrow> True | Some (t, p, n) \<Rightarrow> plain_seg t \<and> plain_seg p \<and> plain_seg n)"

text \<open>A sequence of calls.\<close>

definition run :: "('w, 'h, 'u, 's, 'k, 'v) reg_env \<Rightarrow> (string \<Rightarrow> string \<Rightarrow> (jwt_error, claims) result) \<Rightarrow> string \<Rightarrow> http_call list \<Rightarrow>
    ('w, 's, 'f) reg_state \<Rightarrow> ('w, 's, 'f) reg_state" where
  "run E decode alg calls s = fold (\<lambda>call s. fst (serve E decode alg call s)) calls s"

lemma route_repo:
  "repo_of r = Some (t, p, n) \<Longrightarrow> \<exists>oper. \<forall>E q c s. route_handler E q c r s = handle E q c t p n oper s"
  by (cases r) auto

context registry_store
begin

lemma route_other:
  "repo_of r = None \<Longrightarrow> \<not> is_internal r \<Longrightarrow> route_handler E q c r s = (s', x) \<Longrightarrow>
    view (rg_world s') = view (rg_world s) \<and> rg_mirror s' = rg_mirror s"
  by (cases r) (auto dest: verify_image_keeps catalog_keeps policies_keep)

end

lemma handle_denied: "\<forall>a. authorize c t p n a \<noteq> Inr () \<Longrightarrow> fst (handle E q c t p n oper s) = s"
  by (cases oper)
    (auto simp: head_manifest_def get_manifest_def put_manifest_def delete_manifest_def head_blob_def get_blob_def
      initiate_blob_upload_def upload_blob_chunk_def complete_blob_upload_def list_tags_def image_status_def
      upload_signature_def list_signatures_def split: sum.splits)

section \<open>Confinement\<close>

locale plain_repo = registry_store E view content target parts
  for E :: "('w, 'h, 'u, 's, 'k, 'v) reg_env" and view :: "'w view" and content :: "'h \<Rightarrow> bytes"
    and target :: "'u \<Rightarrow> path" and parts :: "'w \<Rightarrow> 'u \<Rightarrow> nat \<Rightarrow> bytes option" +
  fixes t p n :: string
  assumes plain_t: "plain_seg t" and plain_p: "plain_seg p" and plain_n: "plain_seg n"

sublocale plain_repo \<subseteq> conf: repo_rel E view content target parts t p n "confined (repo_key t p n)"
  by unfold_locales
    (auto intro: confined_trans confined_upd repo_paths_inside repo_key_plain plain_t plain_p plain_n)

context plain_repo
begin

lemma mirror_confined:
  assumes "http_quiet (me_http (en_mirror E)) view"
  shows "mirror_keeps (confined (repo_key t p n)) view E t p n"
proof -
  have "confined (repo_key t p n) (view w) (view (snd (fst (fetch_manifest (en_mirror E) t p n x (m, w)))))" for x m w
    using fetch_manifest_confined [OF _ refl assms conf.repo_plain, of x m w] by (metis prod.collapse)
  moreover have "confined (repo_key t p n) (view w) (view (snd (fst (fetch_blob (en_mirror E) t p n x (m, w)))))" for x m w
    using fetch_blob_confined [OF _ refl assms conf.repo_plain, of x m w] by (metis prod.collapse)
  ultimately show ?thesis
    by (simp add: mirror_keeps_def)
qed

lemma handle_confined:
  assumes "http_quiet (me_http (en_mirror E)) view" "handle E q c t p n oper s = (s', r)"
  shows "confined (repo_key t p n) (view (rg_world s)) (view (rg_world s'))"
  using conf.handle_step [OF assms(2)] mirror_confined [OF assms(1)] by (simp add: bucket_step_def)

end

text \<open>One call, seen from a repository its token grants nothing on.\<close>

lemma serve_elsewhere:
  assumes "registry_store E view content target parts" "http_quiet (me_http (en_mirror E)) view"
    and "plain_seg t" "plain_seg p" "plain_seg n" "inside (repo_key t p n) k"
    and "\<not> is_internal (hc_route call)" "plain_route (hc_route call)"
    and "\<And>c a. authenticate decode alg (hc_auth call) = Inr c \<Longrightarrow> authorize c t p n a \<noteq> Inr ()"
  shows "view (rg_world (fst (serve E decode alg call s))) k = view (rg_world s) k"
proof (cases "authenticate decode alg (hc_auth call)")
  case (Inr c)
  let ?r = "hc_route call" and ?q = "hc_request call"
  have serve: "serve E decode alg call s = route_handler E ?q c ?r s"
    using assms(7) Inr by (simp add: serve_def)
  show ?thesis
  proof (cases "repo_of ?r")
    case None
    obtain s' x where out: "route_handler E ?q c ?r s = (s', x)"
      by force
    show ?thesis
      using registry_store.route_other [OF assms(1) None assms(7) out] serve out by simp
  next
    case (Some tpn)
    obtain t' p' n' where r: "repo_of ?r = Some (t', p', n')"
      using Some by (cases tpn) auto
    obtain oper where h: "route_handler E ?q c ?r s = handle E ?q c t' p' n' oper s"
      using route_repo [OF r] by blast
    have plain: "plain_seg t'" "plain_seg p'" "plain_seg n'"
      using assms(8) r by (simp_all add: plain_route_def)
    show ?thesis
    proof (cases "t' = t \<and> p' = p \<and> n' = n")
      case True
      then show ?thesis
        using handle_denied [of c t p n E ?q oper s] assms(9) [OF Inr] serve h by simp
    next
      case False
      have "plain_repo E view content target parts t' p' n'"
        using assms(1) plain by (simp add: plain_repo_def plain_repo_axioms_def)
      from plain_repo.handle_confined [OF this assms(2) prod.collapse [symmetric]]
      have "confined (repo_key t' p' n') (view (rg_world s)) (view (rg_world (fst (handle E ?q c t' p' n' oper s))))" .
      moreover have "\<not> inside (repo_key t' p' n') k"
        using inside_repos [OF assms(3-5) plain assms(6)] False by blast
      ultimately show ?thesis
        unfolding serve h by (simp add: confined_def)
    qed
  qed
qed (use assms(7) in \<open>simp add: serve_def\<close>)

text \<open>
  C4. Isolation of repositories, on the routes that check a token: whatever sequence of requests to these
  routes is served, if none of their tokens grants any action on the repository \<open>t/p/n\<close>, then no object
  of that repository is created, changed or removed - whatever the handlers, the mirror's upstreams, the
  other regions and the database answer, and whatever faults the store has. The names in the
  requests are plain (letters, digits and \<open>._-:\<close>), and the services beside the store do not
  write to the bucket. The three replication routes check no token and are excluded;
  \<open>Registry_Behaviour\<close> shows what a call to them does.
\<close>

theorem repository_isolation:
  assumes "object_store (en_store E) view content target parts" "env_quiet E view"
    and "http_quiet (me_http (en_mirror E)) view"
    and "plain_seg t" "plain_seg p" "plain_seg n" "inside (repo_key t p n) k"
    and "\<forall>call \<in> set calls. \<not> is_internal (hc_route call) \<and> plain_route (hc_route call) \<and>
      (\<forall>c a. authenticate decode alg (hc_auth call) = Inr c \<longrightarrow> authorize c t p n a \<noteq> Inr ())"
  shows "view (rg_world (run E decode alg calls s)) k = view (rg_world s) k"
  using assms(8)
proof (induction calls arbitrary: s)
  case (Cons call calls)
  have "registry_store E view content target parts"
    using assms(1,2) by (simp add: registry_store_def registry_store_axioms_def)
  then have "view (rg_world (fst (serve E decode alg call s))) k = view (rg_world s) k"
    by (rule serve_elsewhere) (use assms(3-7) Cons.prems in auto)
  then show ?case
    using Cons by (simp add: run_def)
qed (simp add: run_def)

interpretation demo_repo: plain_repo demo_reg mem_view "\<lambda>h. h" snd mem_parts "''_''" "''p''" "''n''"
  by unfold_locales code_simp+

theorem repository_isolation_witness:
  "mem_view (rg_world (run demo_reg demo_decode ''RS256''
      [demo_call (Some ''Bearer b/p/n'') (Repo ''b'' ''p'' ''n'' (PutManifest ''v1'' None ''m'')),
       demo_call (Some ''Bearer b/p/n'') (Repo ''a'' ''p'' ''n'' (DeleteManifest ''v1''))]
      (demo_state (mem_init [(''a/p/n/tags/v1'', ''x'')] [])))) ''a/p/n/tags/v1'' = Some ''x''"
proof -
  have plain: "plain_seg ''a''" "plain_seg ''b''" "plain_seg ''p''" "plain_seg ''n''"
    by code_simp+
  have "inside (repo_key ''a'' ''p'' ''n'') ''a/p/n/tags/v1''"
    by code_simp
  note outcome = repository_isolation [OF demo.object_store_axioms demo_env_quiet demo_reg_http_quiet plain(1,3,4) this]
  have auth: "authenticate demo_decode ''RS256'' (Some ''Bearer b/p/n'') = Inr (demo_claims ''b/p/n'')"
    by code_simp
  have denied: "authorize (demo_claims ''b/p/n'') ''a'' ''p'' ''n'' a \<noteq> Inr ()" for a
    by (simp add: authorize_def demo_claims_def Let_def)
  have "mem_view (rg_world (demo_state (mem_init [(''a/p/n/tags/v1'', ''x'')] []))) ''a/p/n/tags/v1'' = Some ''x''"
    by (simp add: demo_state_def mem_init_def mem_view_def)
  then show ?thesis
    by (subst outcome) (use plain denied in \<open>auto simp: demo_call_def plain_route_def auth\<close>)
qed

section \<open>Content addressing\<close>

text \<open>Every blob and every manifest of a plain repository is stored under its own digest.\<close>

definition addressed :: "(bytes \<Rightarrow> string) \<Rightarrow> (path \<rightharpoonup> bytes) \<Rightarrow> bool" where
  "addressed sha m \<longleftrightarrow> (\<forall>t p n h b. plain_seg t \<and> plain_seg p \<and> plain_seg n \<and> plain_seg h \<longrightarrow>
     (m (join_path [t, p, n, ''blobs'', ''sha256'', h]) = Some b \<longrightarrow> sha b = h) \<and>
     (m (join_path [t, p, n, ''manifests'', h]) = Some b \<longrightarrow> sha256_digest sha b = h))"

lemma addressedI:
  assumes "\<And>t p n h b. plain_seg t \<Longrightarrow> plain_seg p \<Longrightarrow> plain_seg n \<Longrightarrow> plain_seg h \<Longrightarrow>
      m (join_path [t, p, n, ''blobs'', ''sha256'', h]) = Some b \<Longrightarrow> sha b = h"
    and "\<And>t p n h b. plain_seg t \<Longrightarrow> plain_seg p \<Longrightarrow> plain_seg n \<Longrightarrow> plain_seg h \<Longrightarrow>
      m (join_path [t, p, n, ''manifests'', h]) = Some b \<Longrightarrow> sha256_digest sha b = h"
  shows "addressed sha m"
  using assms unfolding addressed_def by blast

lemma addressedD:
  assumes "addressed sha m" "plain_seg t" "plain_seg p" "plain_seg n" "plain_seg h"
  shows "m (join_path [t, p, n, ''blobs'', ''sha256'', h]) = Some b \<Longrightarrow> sha b = h"
    "m (join_path [t, p, n, ''manifests'', h]) = Some b \<Longrightarrow> sha256_digest sha b = h"
  using assms unfolding addressed_def by blast+

lemma addressed_delete: "addressed sha m \<Longrightarrow> addressed sha (m(k := None))"
  by (simp add: addressed_def)

lemma addressed_upd:
  assumes "addressed sha m"
    and "\<And>t p n h. plain_seg t \<Longrightarrow> plain_seg p \<Longrightarrow> plain_seg n \<Longrightarrow> plain_seg h \<Longrightarrow>
      k = join_path [t, p, n, ''blobs'', ''sha256'', h] \<Longrightarrow> sha b = h"
    and "\<And>t p n h. plain_seg t \<Longrightarrow> plain_seg p \<Longrightarrow> plain_seg n \<Longrightarrow> plain_seg h \<Longrightarrow>
      k = join_path [t, p, n, ''manifests'', h] \<Longrightarrow> sha256_digest sha b = h"
  shows "addressed sha (m(k \<mapsto> b))"
proof (rule addressedI)
  fix t p n h b'
  assume plain: "plain_seg t" "plain_seg p" "plain_seg n" "plain_seg h"
  show "sha b' = h" if "(m(k \<mapsto> b)) (join_path [t, p, n, ''blobs'', ''sha256'', h]) = Some b'"
    using that assms(2) [OF plain] addressedD(1) [OF assms(1) plain] unfolding fun_upd_apply by (metis option.inject)
  show "sha256_digest sha b' = h" if "(m(k \<mapsto> b)) (join_path [t, p, n, ''manifests'', h]) = Some b'"
    using that assms(3) [OF plain] addressedD(2) [OF assms(1) plain] unfolding fun_upd_apply by (metis option.inject)
qed

lemma inside_dir:
  assumes "plain_seg t" "plain_seg p" "plain_seg n" "plain_seg d" "\<forall>s \<in> set bs. CHR ''/'' \<notin> set s" "4 \<le> length bs"
    and "inside (join_path [t, p, n, d]) (join_path bs)"
  shows "take 4 bs = [t, p, n, d]"
proof -
  have "inside (join_path (take 4 bs)) (join_path bs)"
    using inside_prefix [of "take 4 bs" "drop 4 bs"] assms(6) by (cases bs) auto
  moreover have "\<forall>s \<in> set (take 4 bs). CHR ''/'' \<notin> set s"
    using assms(5) set_take_subset [of 4 bs] by blast
  ultimately show ?thesis
    using inside_same_segs [of "[t, p, n, d]" "take 4 bs" "join_path bs"] assms
    by (auto simp: plain_seg_no_slash)
qed

lemma addressed_elsewhere:
  assumes "plain_seg t" "plain_seg p" "plain_seg n" "d = ''tags'' \<or> d = ''uploads''"
    and "inside (join_path [t, p, n, d]) k" "addressed sha m"
  shows "addressed sha (m(k \<mapsto> b))"
proof (rule addressed_upd [OF assms(6)])
  have d: "plain_seg d"
    using assms(4) by auto
  fix t' p' n' h
  assume plain: "plain_seg t'" "plain_seg p'" "plain_seg n'" "plain_seg h"
  show "sha b = h" if "k = join_path [t', p', n', ''blobs'', ''sha256'', h]"
    using inside_dir [OF assms(1-3) d, of "[t', p', n', ''blobs'', ''sha256'', h]"] plain that assms(4,5)
    by (auto simp: plain_seg_no_slash)
  show "sha256_digest sha b = h" if "k = join_path [t', p', n', ''manifests'', h]"
    using inside_dir [OF assms(1-3) d, of "[t', p', n', ''manifests'', h]"] plain that assms(4,5)
    by (auto simp: plain_seg_no_slash)
qed

locale addressed_repo = plain_repo E view content target parts t p n
  for E :: "('w, 'h, 'u, 's, 'k, 'v) reg_env" and view :: "'w view" and content :: "'h \<Rightarrow> bytes"
    and target :: "'u \<Rightarrow> path" and parts :: "'w \<Rightarrow> 'u \<Rightarrow> nat \<Rightarrow> bytes option" and t p n :: string +
  assumes sha_plain: "plain_seg (en_sha E b)"
begin

lemma digest_plain: "plain_seg (sha256_digest (en_sha E) b)"
  using sha_plain [of b] by (simp add: plain_seg_def sha256_digest_def seg_char_def is_ascii_alphanumeric_def
      is_ascii_alphabetic_def is_ascii_lowercase_def is_ascii_digit_def)

lemma object_keys:
  "os_path (en_store E) (blob_path t p n (sha256_digest (en_sha E) b)) = join_path [t, p, n, ''blobs'', ''sha256'', en_sha E b]"
  "os_path (en_store E) (manifest_path t p n (sha256_digest (en_sha E) b)) =
    join_path [t, p, n, ''manifests'', sha256_digest (en_sha E) b]"
proof -
  have "plain_key (join_path [t, p, n, ''blobs'', ''sha256'', en_sha E b])"
    "plain_key (join_path [t, p, n, ''manifests'', sha256_digest (en_sha E) b])"
    using plain_t plain_p plain_n sha_plain digest_plain by (intro plain_key_join; simp)+
  from this [THEN path_plain]
  show "os_path (en_store E) (blob_path t p n (sha256_digest (en_sha E) b)) = join_path [t, p, n, ''blobs'', ''sha256'', en_sha E b]"
    "os_path (en_store E) (manifest_path t p n (sha256_digest (en_sha E) b)) =
      join_path [t, p, n, ''manifests'', sha256_digest (en_sha E) b]"
    by (simp_all add: blob_path_def manifest_path_def strip_prefix_or_def sha256_digest_def)
qed

lemma addressed_blob:
  assumes "addressed (en_sha E) m"
  shows "addressed (en_sha E) (m(join_path [t, p, n, ''blobs'', ''sha256'', en_sha E b] \<mapsto> b))"
proof (rule addressed_upd [OF assms])
  fix t' p' n' h
  assume "plain_seg t'" "plain_seg p'" "plain_seg n'" "plain_seg h"
  note slashes = this [THEN plain_seg_no_slash] plain_t [THEN plain_seg_no_slash] plain_p [THEN plain_seg_no_slash]
    plain_n [THEN plain_seg_no_slash] sha_plain [THEN plain_seg_no_slash]
  show "en_sha E b = h"
    if "join_path [t, p, n, ''blobs'', ''sha256'', en_sha E b] = join_path [t', p', n', ''blobs'', ''sha256'', h]"
    using join_path_inj [OF _ _ _ _ that] slashes by simp
  show "sha256_digest (en_sha E) b = h"
    if "join_path [t, p, n, ''blobs'', ''sha256'', en_sha E b] = join_path [t', p', n', ''manifests'', h]"
    using join_path_inj [OF _ _ _ _ that] slashes by simp
qed

lemma addressed_manifest:
  assumes "addressed (en_sha E) m"
  shows "addressed (en_sha E) (m(join_path [t, p, n, ''manifests'', sha256_digest (en_sha E) b] \<mapsto> b))"
proof (rule addressed_upd [OF assms])
  fix t' p' n' h
  assume "plain_seg t'" "plain_seg p'" "plain_seg n'" "plain_seg h"
  note slashes = this [THEN plain_seg_no_slash] plain_t [THEN plain_seg_no_slash] plain_p [THEN plain_seg_no_slash]
    plain_n [THEN plain_seg_no_slash] digest_plain [THEN plain_seg_no_slash]
  show "sha256_digest (en_sha E) b = h"
    if "join_path [t, p, n, ''manifests'', sha256_digest (en_sha E) b] = join_path [t', p', n', ''manifests'', h]"
    using join_path_inj [OF _ _ _ _ that] slashes by simp
  show "en_sha E b = h"
    if "join_path [t, p, n, ''manifests'', sha256_digest (en_sha E) b] = join_path [t', p', n', ''blobs'', ''sha256'', h]"
    using join_path_inj [OF _ _ _ _ that] slashes by simp
qed

lemma addressed_links:
  assumes "addressed (en_sha E) m"
  shows "addressed (en_sha E) (m(os_path (en_store E) (tag_link_path t p n x) \<mapsto> b))"
    "addressed (en_sha E) (m(os_path (en_store E) (upload_path t p n x) \<mapsto> b))"
proof -
  have "plain_key (join_path [t, p, n, d])" if "d = ''tags'' \<or> d = ''uploads''" for d
    using plain_t plain_p plain_n that by (intro plain_key_join) auto
  then have "inside (join_path [t, p, n, ''tags'']) (os_path (en_store E) (tag_link_path t p n x))"
    "inside (join_path [t, p, n, ''uploads'']) (os_path (en_store E) (upload_path t p n x))"
    using path_inside [of "join_path [t, p, n, ''tags'']" x] path_inside [of "join_path [t, p, n, ''uploads'']" x]
    by (simp_all add: tag_link_path_def upload_path_def)
  then show "addressed (en_sha E) (m(os_path (en_store E) (tag_link_path t p n x) \<mapsto> b))"
    "addressed (en_sha E) (m(os_path (en_store E) (upload_path t p n x) \<mapsto> b))"
    using addressed_elsewhere [OF plain_t plain_p plain_n _ _ assms] by blast+
qed

end

sublocale addressed_repo \<subseteq> ca: repo_rel E view content target parts t p n
  "\<lambda>m m'. addressed (en_sha E) m \<longrightarrow> addressed (en_sha E) m'"
  unfolding object_keys
  by unfold_locales
    (auto simp del: join_path.simps simp: object_keys addressed_blob addressed_manifest addressed_links addressed_delete
      intro: repo_key_plain plain_t plain_p plain_n)

interpretation demo_addressed: addressed_repo demo_reg mem_view "\<lambda>h. h" snd mem_parts "''_''" "''p''" "''n''"
  by unfold_locales (simp add: demo_store demo_sha_plain)

context addressed_repo
begin

lemma handle_addressed:
  assumes "handle E q c t p n oper s = (s', r)" "rg_mirror s = None" "addressed (en_sha E) (view (rg_world s))"
  shows "addressed (en_sha E) (view (rg_world s')) \<and> rg_mirror s' = None"
  using ca.handle_step [OF assms(1)] assms(2,3) by (simp add: bucket_step_def)

end

lemma serve_addressed:
  assumes "registry_store E view content target parts" "\<And>b. plain_seg (en_sha E b)"
    and "\<not> is_internal (hc_route call)" "plain_route (hc_route call)"
    and "addressed (en_sha E) (view (rg_world s))" "rg_mirror s = None"
  shows "addressed (en_sha E) (view (rg_world (fst (serve E decode alg call s)))) \<and>
    rg_mirror (fst (serve E decode alg call s)) = None"
proof (cases "authenticate decode alg (hc_auth call)")
  case (Inr c)
  obtain s' x where out: "route_handler E (hc_request call) c (hc_route call) s = (s', x)"
    by force
  have serve: "fst (serve E decode alg call s) = s'"
    using assms(3) Inr out by (simp add: serve_def)
  show ?thesis
  proof (cases "repo_of (hc_route call)")
    case None
    show ?thesis
      using registry_store.route_other [OF assms(1) None assms(3) out] serve assms(5,6) by simp
  next
    case (Some tpn)
    obtain t p n where r: "repo_of (hc_route call) = Some (t, p, n)"
      using Some by (cases tpn) auto
    obtain oper where h: "handle E (hc_request call) c t p n oper s = (s', x)"
      using route_repo [OF r] out by metis
    have "addressed_repo E view content target parts t p n"
      using assms(1,2,4) r
      by (simp add: addressed_repo_def addressed_repo_axioms_def plain_repo_def plain_repo_axioms_def plain_route_def)
    from addressed_repo.handle_addressed [OF this h assms(6,5)] show ?thesis
      using serve by simp
  qed
qed (use assms(3,5,6) in \<open>simp add: serve_def\<close>)

lemma run_addressed:
  assumes "registry_store E view content target parts" "\<And>b. plain_seg (en_sha E b)"
    and "\<forall>call \<in> set calls. \<not> is_internal (hc_route call) \<and> plain_route (hc_route call)"
    and "addressed (en_sha E) (view (rg_world s))" "rg_mirror s = None"
  shows "addressed (en_sha E) (view (rg_world (run E decode alg calls s))) \<and> rg_mirror (run E decode alg calls s) = None"
  using assms(3-5)
proof (induction calls arbitrary: s)
  case (Cons call calls)
  then show ?case
    using serve_addressed [OF assms(1,2), of call s decode alg] by (simp add: run_def)
qed (simp add: run_def)

lemma respond_body: "respond code hs body = Some (Inr r) \<Longrightarrow> rs_body r = body"
  by (auto simp: respond_def split: if_splits)

text \<open>What a pull returns when there is neither a mirror nor another region is an object of the bucket.\<close>

context addressed_repo
begin

lemma pull_reads:
  assumes "rg_mirror s = None" "en_failover E = None" "plain_seg h"
  shows "get_manifest E q c t p n (''sha256:'' @ h) s = (s', Some (Inr r)) \<Longrightarrow>
      \<exists>b. rs_body r = Raw b \<and> view (rg_world s) (join_path [t, p, n, ''manifests'', ''sha256:'' @ h]) = Some b"
    and "get_blob E q c t p n (''sha256:'' @ h) s = (s', Some (Inr r)) \<Longrightarrow>
      \<exists>b. rs_body r = Raw b \<and> view (rg_world s) (join_path [t, p, n, ''blobs'', ''sha256'', h]) = Some b"
proof -
  have "plain_seg (''sha256:'' @ h)"
    using assms(3) by (simp add: plain_seg_def seg_char_def is_ascii_alphanumeric_def is_ascii_alphabetic_def
        is_ascii_lowercase_def is_ascii_digit_def)
  then have keys: "os_path (en_store E) (manifest_path t p n (''sha256:'' @ h)) = join_path [t, p, n, ''manifests'', ''sha256:'' @ h]"
    "os_path (en_store E) (blob_path t p n (''sha256:'' @ h)) = join_path [t, p, n, ''blobs'', ''sha256'', h]"
    using path_plain [OF plain_key_join [of "[t, p, n, ''manifests'', ''sha256:'' @ h]"]]
      path_plain [OF plain_key_join [of "[t, p, n, ''blobs'', ''sha256'', h]"]] plain_t plain_p plain_n assms(3)
    by (simp_all add: blob_path_def manifest_path_def strip_prefix_or_def)
  have resolve: "resolve_manifest_path E t p n (''sha256:'' @ h) w = (w, Inr (manifest_path t p n (''sha256:'' @ h)))" for w
    by (simp add: resolve_manifest_path_def normalized_ref_def starts_with_def)
  have no_remote: "remote_read E f e url s1 = (s2, Some (Inr b)) \<longleftrightarrow> False" if "rg_mirror s1 = None" for f e url s2 b
      and s1 :: "('w, 's, 'f) reg_state"
    using that assms(2) by (auto simp: remote_read_def failover_read_def)
  show "\<exists>b. rs_body r = Raw b \<and> view (rg_world s) (join_path [t, p, n, ''manifests'', ''sha256:'' @ h]) = Some b"
    if "get_manifest E q c t p n (''sha256:'' @ h) s = (s', Some (Inr r))"
    using that assms(1) resolve store_read_got [of "manifest_path t p n (''sha256:'' @ h)" "rg_world s"] keys(1)
    by (auto simp: get_manifest_def find_manifest_def local_manifest_def no_remote Let_def
        split: sum.splits prod.splits option.splits read.splits if_splits dest!: respond_body)
  show "\<exists>b. rs_body r = Raw b \<and> view (rg_world s) (join_path [t, p, n, ''blobs'', ''sha256'', h]) = Some b"
    if "get_blob E q c t p n (''sha256:'' @ h) s = (s', Some (Inr r))"
    using that assms(1) store_read_got [of "blob_path t p n (''sha256:'' @ h)" "rg_world s"] keys(2)
    by (auto simp: get_blob_def find_blob_def no_remote Let_def
        split: sum.splits prod.splits option.splits read.splits if_splits dest!: respond_body)
qed

end

text \<open>
  C5. Content addressing end to end: start from a bucket in which every blob and manifest lies under its
  digest (an empty one, say), serve any sequence of calls other than the unauthenticated replication
  routes - pushes, uploads, signatures, deletes, in any order, with any faults of the store and a write that is cut short
  included - and then pull a manifest or a blob by digest. If the answer is a success, the body has that digest.
  The names in the requests are plain, the digests
  of the hash are plain strings and the services beside the store do not write to the bucket.
  (No mirror and no other region: their answers are not checked.)
\<close>

theorem pulled_bytes_match_digest:
  assumes "object_store (en_store E) view content target parts" "env_quiet E view" "\<And>b. plain_seg (en_sha E b)"
    and "addressed (en_sha E) (view (rg_world s))" "rg_mirror s = None" "en_failover E = None"
    and "\<forall>call \<in> set calls. \<not> is_internal (hc_route call) \<and> plain_route (hc_route call)"
    and "plain_seg t" "plain_seg p" "plain_seg n" "plain_seg h" "d = ''sha256:'' @ h"
    and "f = get_manifest E q c t p n d \<or> f = get_blob E q c t p n d"
    and "f (run E decode alg calls s) = (s', Some (Inr r))"
  shows "\<exists>b. rs_body r = Raw b \<and> sha256_digest (en_sha E) b = d"
proof -
  have store: "registry_store E view content target parts"
    using assms(1,2) by (simp add: registry_store_def registry_store_axioms_def)
  let ?s = "run E decode alg calls s"
  have inv: "addressed (en_sha E) (view (rg_world ?s))" "rg_mirror ?s = None"
    using run_addressed [OF store assms(3,7,4,5)] by blast+
  have repo: "addressed_repo E view content target parts t p n"
    using store assms(3,8-10)
    by (simp add: addressed_repo_def addressed_repo_axioms_def plain_repo_def plain_repo_axioms_def)
  have plain: "plain_seg (''sha256:'' @ h)"
    using assms(11) by (simp add: plain_seg_def seg_char_def is_ascii_alphanumeric_def is_ascii_alphabetic_def
        is_ascii_lowercase_def is_ascii_digit_def)
  show ?thesis
    using assms(12-14) addressed_repo.pull_reads [OF repo inv(2) assms(6,11)]
      addressedD(1) [OF inv(1) assms(8-11)] addressedD(2) [OF inv(1) assms(8-10) plain]
    by (auto simp: sha256_digest_def simp del: join_path.simps) blast+
qed

theorem pulled_bytes_match_digest_witness:
  "\<exists>b. rs_body (projr (the (snd (get_manifest demo_reg demo_request (demo_claims ''_/p/n'') ''_'' ''p'' ''n'' ''sha256:hm''
      (run demo_reg demo_decode ''RS256'' [demo_call (Some ''Bearer _/p/n'') (Repo2 ''p'' ''n'' (PutManifest ''v1'' None ''m''))]
        (demo_state (mem_init [] []))))))) = Raw b \<and> sha256_digest demo_sha b = ''sha256:hm''"
proof -
  let ?calls = "[demo_call (Some ''Bearer _/p/n'') (Repo2 ''p'' ''n'' (PutManifest ''v1'' None ''m''))]"
  let ?f = "get_manifest demo_reg demo_request (demo_claims ''_/p/n'') ''_'' ''p'' ''n'' ''sha256:hm''"
  let ?s = "demo_state (mem_init [] [])"
  note plain = demo_push_facts(1-3,5)
  have start: "addressed (en_sha demo_reg) (mem_view (rg_world ?s))" "rg_mirror ?s = None" "en_failover demo_reg = None"
    by (simp_all add: addressed_def demo_state_def mem_init_def mem_view_def demo_reg_def)
  have calls: "\<forall>call \<in> set ?calls. \<not> is_internal (hc_route call) \<and> plain_route (hc_route call)"
    using plain by (simp add: demo_call_def plain_route_def DEFAULT_TENANT_def)
  obtain s1 r1 where push: "put_manifest demo_reg demo_request (demo_claims ''_/p/n'') ''_'' ''p'' ''n'' ''v1'' None ''m'' ?s =
      (s1, Some (Inr r1))" and calm: "faults (rg_world s1) = []"
    using demo_push by blast
  have auth: "authenticate demo_decode ''RS256'' (Some ''Bearer _/p/n'') = Inr (demo_claims ''_/p/n'')"
    by code_simp
  have "run demo_reg demo_decode ''RS256'' ?calls ?s = s1"
    by (simp add: run_def demo_call_def serve_def auth DEFAULT_TENANT_def push)
  then obtain s' r where out: "?f (run demo_reg demo_decode ''RS256'' ?calls ?s) = (s', Some (Inr r))"
    using demo_pull [OF push calm] by auto
  have "\<exists>b. rs_body r = Raw b \<and> sha256_digest (en_sha demo_reg) b = ''sha256:hm''"
    by (rule pulled_bytes_match_digest [OF demo.object_store_axioms demo_env_quiet demo_push_facts(7) start calls plain _
          disjI1 [OF refl] out]) simp
  then show ?thesis
    unfolding out by (simp add: demo_store)
qed

end
