(* ===== verification/Registry_Behaviour.thy ===== *)
theory Registry_Behaviour
  imports Registry_Isolation
begin

text \<open>
  Further behaviour of the handlers of \<open>main.rs\<close>: the unauthenticated replication routes, tags that are spelled
  like digests, signatures on the two-segment routes, deletes by digest, and tag listings.
\<close>

section \<open>Replication without a token\<close>

text \<open>
  The replication routes are part of the public router and ask for no token: a single request with
  no credentials replaces any tag of any repository, and files its body under any digest, so that
  the next pull by an authorized client, of the tag or of that digest, returns the
  attacker's bytes - also when the digest is not theirs.
\<close>

theorem replicate_unauthenticated:
  assumes "object_store (en_store E) view content target parts" "env_quiet E view" "calm_reads (en_store E) view calm"
    and "plain_seg t" "plain_seg p" "plain_seg n" "plain_seg x" "plain_seg h" "plain_seg (en_sha E body)"
    and "hs ''x-replication-tenant'' = Some t" "hs ''x-replication-project'' = Some p" "hs ''x-replication-repo'' = Some n"
    and "hs ''x-replication-reference'' = Some x" "hs ''x-replication-digest'' = Some (''sha256:'' @ h)"
    and "serve E decode alg \<lparr>hc_auth = None, hc_route = ReplicateManifest hs body, hc_request = q\<rparr> s = (s1, Some (Inr r))"
    and "calm (rg_world s1)" "authorize c t p n action.Pull = Inr ()" "\<not> en_signing_enabled E" "\<not> en_admission_enabled E"
    and "header_ok (detect_manifest_media_type (en_json E) body)"
    and "y = x \<and> \<not> starts_with ''sha256:'' x \<and> \<not> starts_with ''sha256-'' x \<or> y = ''sha256:'' @ h \<or> y = ''sha256-'' @ h"
  shows "\<exists>s2 r2. get_manifest E q' c t p n y s1 = (s2, Some (Inr r2)) \<and> rs_status r2 = 200 \<and> rs_body r2 = Raw body"
proof -
  have "store_manifest E t p n x (''sha256:'' @ h) body (rg_world s) = (rg_world s1, Inr ())"
    using assms(10-15)
    by (auto simp: serve_def internal_replicate_manifest_def extract_header_def Let_def split: prod.splits sum.splits
        dest!: audit_record_keeps)
  from stored_locally [OF assms(1-7) plain_digest [OF assms(8)] this assms(16,21)]
  obtain w' where "local_manifest E t p n y (rg_world s1) = (w', Inr (Some body))"
    by blast
  from get_manifest_found [OF assms(17) this assms(9), of q'] show ?thesis
    unfolding gates_off [OF assms(18,19)] prod.case sum.case if_P [OF assms(20)] by blast
qed

definition demo_headers :: "string \<Rightarrow> string \<rightharpoonup> string" where
  "demo_headers d = [''x-replication-tenant'' \<mapsto> ''_'', ''x-replication-project'' \<mapsto> ''p'', ''x-replication-repo'' \<mapsto> ''n'',
     ''x-replication-reference'' \<mapsto> ''v1'', ''x-replication-digest'' \<mapsto> d]"

lemma demo_replicate:
  "\<exists>s1 r. serve demo_reg demo_decode ''RS256'' \<lparr>hc_auth = None, hc_route = ReplicateManifest (demo_headers ''sha256:aa'') ''evil'',
      hc_request = demo_request\<rparr> (demo_state (mem_init [(''_/p/n/tags/v1'', ''sha256:hm'')] [])) = (s1, Some (Inr r)) \<and>
    faults (rg_world s1) = []"
proof -
  have trim: "trim_slash ''_/p/n/manifests/sha256:aa'' = ''_/p/n/manifests/sha256:aa''"
    "trim_slash ''_/p/n/tags/v1'' = ''_/p/n/tags/v1''"
    by code_simp+
  then show ?thesis
    by (simp add: serve_def internal_replicate_manifest_def demo_headers_def extract_header_def demo_reg_def store_manifest_def
        store_put_def dir_store_def mem_store_def mem_io_def next_fault_def mem_init_def demo_state_def manifest_path_def
        tag_link_path_def starts_with_def respond_def audit_record_def record_event_def should_persist_def log_with_sink_def
        is_write_def is_pull_def mk_event_def Let_def)
qed

theorem replicate_unauthenticated_witness:
  "\<exists>s1 s2 r2. fst (serve demo_reg demo_decode ''RS256'' \<lparr>hc_auth = None, hc_route = ReplicateManifest (demo_headers ''sha256:aa'') ''evil'',
      hc_request = demo_request\<rparr> (demo_state (mem_init [(''_/p/n/tags/v1'', ''sha256:hm'')] []))) = s1 \<and>
    get_manifest demo_reg demo_request (demo_claims ''_/p/n'') ''_'' ''p'' ''n'' ''v1'' s1 = (s2, Some (Inr r2)) \<and> rs_body r2 = Raw ''evil''"
proof -
  obtain s1 r where run: "serve demo_reg demo_decode ''RS256'' \<lparr>hc_auth = None, hc_route = ReplicateManifest (demo_headers ''sha256:aa'') ''evil'',
      hc_request = demo_request\<rparr> (demo_state (mem_init [(''_/p/n/tags/v1'', ''sha256:hm'')] [])) = (s1, Some (Inr r))"
    and calm: "faults (rg_world s1) = []"
    using demo_replicate by blast
  have aa: "plain_seg ''aa''"
    by code_simp
  have hs: "demo_headers ''sha256:aa'' ''x-replication-tenant'' = Some ''_''" "demo_headers ''sha256:aa'' ''x-replication-project'' = Some ''p''"
    "demo_headers ''sha256:aa'' ''x-replication-repo'' = Some ''n''" "demo_headers ''sha256:aa'' ''x-replication-reference'' = Some ''v1''"
    "demo_headers ''sha256:aa'' ''x-replication-digest'' = Some (''sha256:'' @ ''aa'')"
    by (simp_all add: demo_headers_def)
  have "\<exists>s2 r2. get_manifest demo_reg demo_request (demo_claims ''_/p/n'') ''_'' ''p'' ''n'' ''v1'' s1 = (s2, Some (Inr r2)) \<and>
      rs_status r2 = 200 \<and> rs_body r2 = Raw ''evil''"
    by (rule replicate_unauthenticated [OF demo.object_store_axioms demo_env_quiet demo_push_facts(13) demo_push_facts(1-4) aa
          demo_push_facts(7) hs run calm demo_push_facts(8-11)]) (simp add: starts_with_def)
  then show ?thesis
    using run by (metis fst_conv)
qed

section \<open>Tags spelled like digests\<close>

text \<open>
  A tag that starts with \<open>sha256-\<close>, as the tags of cosign signatures do, can be pushed but not pulled: the link is written
  under the tag, while a pull takes the reference for the other spelling of a digest and reads the
  manifest of that digest. When no manifest has it, the pull of the tag just acknowledged fails.
\<close>

theorem digest_like_tag_unpullable:
  assumes "object_store (en_store E) view content target parts" "env_quiet E view" "rg_mirror s = None" "en_failover E = None"
    and "plain_seg t" "plain_seg p" "plain_seg n" "plain_seg z" "plain_seg (en_sha E body)" "en_sha E body \<noteq> z"
    and "view (rg_world s) (join_path [t, p, n, ''manifests'', ''sha256:'' @ z]) = None"
    and "put_manifest E q c t p n (''sha256-'' @ z) ttl body s = (s1, Some (Inr r))"
  shows "\<nexists>s2 r2. get_manifest E q' c' t p n (''sha256-'' @ z) s1 = (s2, Some (Inr r2))"
proof -
  have store: "registry_store E view content target parts"
    using assms(1,2) by (simp add: registry_store_def registry_store_axioms_def)
  have tag: "plain_seg (''sha256-'' @ z)" "\<not> starts_with ''sha256:'' (''sha256-'' @ z)"
    using assms(8) by (simp_all add: plain_seg_def seg_char_def starts_with_def is_ascii_alphanumeric_def is_ascii_alphabetic_def
        is_ascii_lowercase_def is_ascii_digit_def)
  note digests = plain_digest [OF assms(8)] plain_digest [OF assms(9)]
  have keys: "os_path (en_store E) (manifest_path t p n d) = join_path [t, p, n, ''manifests'', d]"
    "os_path (en_store E) (tag_link_path t p n d) = join_path [t, p, n, ''tags'', d]" if "plain_seg d" for d
    using object_store.path_plain [OF assms(1) plain_key_join, of "[t, p, n, ''manifests'', d]"]
      object_store.path_plain [OF assms(1) plain_key_join, of "[t, p, n, ''tags'', d]"] assms(5-7) that
    by (simp_all add: manifest_path_join tag_link_path_join)
  let ?k = "join_path [t, p, n, ''manifests'', ''sha256:'' @ z]"
  have "?k \<noteq> join_path [t, p, n, ''manifests'', ''sha256:'' @ en_sha E body]" "?k \<noteq> join_path [t, p, n, ''tags'', ''sha256-'' @ z]"
    using plain_join_inj [of "[t, p, n, ''manifests'', ''sha256:'' @ z]"] assms(5-7,10) tag(1) digests
    by (auto simp del: join_path.simps)
  then have none: "view (rg_world s1) ?k = None"
    using registry_store.store_manifest_ok [OF store put_manifest_stored(1) [OF assms(12)]] assms(11)
      keys [OF digests(2)] keys [OF tag(1)] tag(2) by (simp add: sha256_digest_def del: join_path.simps)
  have "normalized_ref (''sha256-'' @ z) = ''sha256:'' @ z" "starts_with ''sha256:'' (''sha256:'' @ z)"
    by (rule normalized_digest(2), simp add: starts_with_def)
  then have "resolve_manifest_path E t p n (''sha256-'' @ z) (rg_world s1) =
      (rg_world s1, Inr (manifest_path t p n (''sha256:'' @ z)))"
    by (simp only: resolve_manifest_path_def if_True)
  moreover have "store_read E (manifest_path t p n (''sha256:'' @ z)) (rg_world s1) \<noteq> (w', Got b)" for w' b
    using registry_store.store_read_got [OF store, of "manifest_path t p n (''sha256:'' @ z)" "rg_world s1" w' b] none
    unfolding keys(1) [OF digests(1)] by auto
  ultimately have "local_manifest E t p n (''sha256-'' @ z) (rg_world s1) \<noteq> (w', Inr (Some b))" for w' b
    by (auto simp only: local_manifest_def split: prod.splits read.splits sum.splits if_splits)
  moreover have "rg_mirror s1 = None"
    using put_manifest_stored(2) [OF assms(12)] assms(3) by simp
  ultimately show ?thesis
    using assms(4)
    by (auto simp: get_manifest_def find_manifest_def remote_read_def failover_read_def Let_def
        split: sum.splits prod.splits option.splits)
qed

section \<open>Signatures on the two-segment routes\<close>

definition no_rows_of :: "string \<Rightarrow> signature_record list \<Rightarrow> bool" where
  "no_rows_of T rows \<longleftrightarrow> (\<forall>r \<in> set rows. sr_tenant r \<noteq> T)"

lemma sig_put_tenants: "sig_put b rec rows = (rows', x) \<Longrightarrow> sr_tenant rec \<noteq> T \<Longrightarrow> no_rows_of T rows \<Longrightarrow> no_rows_of T rows'"
  by (auto simp: sig_put_def no_rows_of_def split: if_splits; blast)

lemma audit_tables [simp]:
  "rg_signatures (fst (audit_record E q e s)) = rg_signatures s" "rg_policies (fst (audit_record E q e s)) = rg_policies s"
  "rg_signatures (sink_append E a s) = rg_signatures s" "rg_policies (sink_append E a s) = rg_policies s"
  by (auto simp: audit_record_def sink_append_def split: prod.splits)

lemma register_signature_rows:
  assumes "register_signature_metadata E q sub t p n sd gd len decl x s = (s', r)"
    and "t \<noteq> T" "no_rows_of T (rg_signatures s)"
  shows "no_rows_of T (rg_signatures s') \<and> rg_policies s' = rg_policies s"
proof -
  have "no_rows_of T rows" if "sig_put b rec (rg_signatures s) = (rows, y)" "sr_tenant rec = t" for b rec rows y
    using sig_put_tenants [OF that(1)] that(2) assms(2,3) by blast
  then show ?thesis
    using assms(1,3) by (auto simp: register_signature_metadata_def Let_def split: prod.splits if_splits sum.splits)
qed

lemma upload_signature_rows:
  assumes "upload_signature E q c t p n d body s = (s', r)" "t \<noteq> T" "no_rows_of T (rg_signatures s)"
  shows "no_rows_of T (rg_signatures s') \<and> rg_policies s' = rg_policies s"
proof -
  have "no_rows_of T (rg_signatures s1) \<and> rg_policies s1 = rg_policies s"
    if "persist_signature E q sub t p n d body decl s = (s1, y)" for sub decl s1 y
    using that register_signature_rows [OF _ assms(2), of E q sub p n d _ _ decl _ "s\<lparr>rg_world := w\<rparr>" for w] assms(3)
    by (auto simp: persist_signature_def Let_def map_prod_def split: prod.splits if_splits sum.splits option.splits)
  then show ?thesis
    using assms(1,3) by (auto simp: upload_signature_def Let_def split: prod.splits if_splits sum.splits)
qed

lemma remote_read_tables:
  "remote_read E f e url s = (s', r) \<Longrightarrow> rg_signatures s' = rg_signatures s \<and> rg_policies s' = rg_policies s"
  by (auto simp: remote_read_def split: option.splits prod.splits sum.splits)

lemma find_manifest_tables:
  "find_manifest E t p n x s = (s', r) \<Longrightarrow> rg_signatures s' = rg_signatures s \<and> rg_policies s' = rg_policies s"
  by (auto simp: find_manifest_def split: prod.splits sum.splits option.splits dest!: remote_read_tables)

text \<open>With signatures required and none registered for the repository, the pull gate refuses.\<close>

lemma unsigned_refused:
  assumes "en_pool E" "en_require_for_pull E" "rg_policies s = []" "\<forall>r \<in> set (rg_signatures s). sr_tenant r \<noteq> t"
  shows "snd (enforce_pull_signature_policy E q sub t p n d s) \<noteq> Inr ()"
proof -
  have none: "filter (\<lambda>r. sr_tenant r = t \<and> sr_project r = p \<and> sr_repository r = n \<and> sr_subject_digest r = d) (rg_signatures s) = []"
    using assms(4) by (auto simp: filter_empty_conv)
  show ?thesis
    using assms(1-3)
    by (auto simp: enforce_pull_signature_policy_def pull_policy_def policy_resolve_def policy_list_def list_for_subject_def none
        newest_first_def check_signatures_def trusted_refs_of_def Let_def split: sum.splits option.splits)
qed

text \<open>
  Signatures uploaded over the two-segment routes are lost to the pull gate: the wrapper files them under
  the tenant \<open>default\<close>, while images on two-segment routes belong to the tenant \<open>_\<close>. Where signatures are required,
  an image pushed and then signed over these routes stays unpullable, although the upload of
  its signature was acknowledged.
\<close>

theorem two_segment_signature_lost:
  assumes "en_signing_enabled E" "en_pool E" "en_require_for_pull E" "rg_policies s = []"
    and "\<forall>r \<in> set (rg_signatures s). sr_tenant r \<noteq> DEFAULT_TENANT" "\<not> is_cosign_sig_tag x"
    and "route_handler E q c (Repo2 p n (UploadSignature d body)) s = (s1, Some (Inr r1))"
  shows "\<nexists>s2 r2. route_handler E q' c' (Repo2 p n (GetManifest x)) s1 = (s2, Some (Inr r2))"
proof -
  have "upload_signature E q c ''default'' p n d body s = (s1, Some (Inr r1))" "''default'' \<noteq> DEFAULT_TENANT"
    using assms(7) by (simp_all add: DEFAULT_TENANT_def)
  from upload_signature_rows [OF this]
  have rows: "\<forall>r \<in> set (rg_signatures s1). sr_tenant r \<noteq> DEFAULT_TENANT" "rg_policies s1 = []"
    using assms(4,5) by (simp_all add: no_rows_of_def)
  have refused: "snd (enforce_pull_signature_policy E q' sub DEFAULT_TENANT p n d' s2) \<noteq> Inr ()"
    if "find_manifest E DEFAULT_TENANT p n x s1 = (s2, y)" for s2 y sub d'
    by (rule unsigned_refused [OF assms(2,3)]) (use find_manifest_tables [OF that] rows in auto)
  show ?thesis
    using assms(1,6) refused
    by (auto simp: get_manifest_def pull_gates_def Let_def split: sum.splits prod.splits option.splits) (metis snd_conv)+
qed

definition demo_signed :: "(mem_world, bytes, nat \<times> path, audit_event list, string, string) reg_env" where
  "demo_signed = demo_reg\<lparr>en_signing_enabled := True, en_require_for_pull := True,
     en_mirror := (en_mirror demo_reg)\<lparr>me_sha := (\<lambda>b. CHR ''a'' # filter seg_char b)\<rparr>\<rparr>"

definition demo_bucket2 :: mem_world where
  "demo_bucket2 = mem_init [(''_/p/n/tags/v1'', ''sha256:ab''), (''_/p/n/manifests/sha256:ab'', ''b'')] []"

lemma demo_sign:
  "\<exists>s1 r1. route_handler demo_signed demo_request (demo_claims ''default/p/n'') (Repo2 ''p'' ''n'' (UploadSignature ''sha256:ab'' ''s''))
      (demo_state demo_bucket2) = (s1, Some (Inr r1))"
proof -
  have facts: "cosign_sig_tag ''sha256:ab'' = Some ''sha256-ab.sig''" "header_ok ''/v2/default/p/n/blobs/sha256:as''"
    "filter seg_char ''s'' = ''s''" "starts_with ''sha256:'' ''sha256:ab''"
    by code_simp+
  obtain signer kind media where decl: "declared demo_sig ''s'' MEDIA_TYPE_COSIGN_SIMPLE = (signer, kind, media)"
    by (metis surj_pair)
  show ?thesis
    using facts decl
    by (simp add: upload_signature_def persist_signature_def register_signature_metadata_def demo_signed_def demo_reg_def
        demo_claims_def authorize_def can_def store_put_def dir_store_def mem_store_def mem_io_def next_fault_def mem_init_def
        demo_bucket2_def demo_state_def sha256_digest_def sig_put_def demo_request_def respond_def Let_def)
qed

theorem two_segment_signature_lost_witness:
  "\<exists>s1 r1. route_handler demo_signed demo_request (demo_claims ''default/p/n'') (Repo2 ''p'' ''n'' (UploadSignature ''sha256:ab'' ''s''))
      (demo_state demo_bucket2) = (s1, Some (Inr r1)) \<and>
    (\<nexists>s2 r2. route_handler demo_signed demo_request (demo_claims ''_/p/n'') (Repo2 ''p'' ''n'' (GetManifest ''v1'')) s1 = (s2, Some (Inr r2)))"
proof -
  obtain s1 r1 where up: "route_handler demo_signed demo_request (demo_claims ''default/p/n'')
      (Repo2 ''p'' ''n'' (UploadSignature ''sha256:ab'' ''s'')) (demo_state demo_bucket2) = (s1, Some (Inr r1))"
    using demo_sign by blast
  have env: "en_signing_enabled demo_signed" "en_pool demo_signed" "en_require_for_pull demo_signed"
    by (simp_all add: demo_signed_def demo_reg_def)
  have start: "rg_policies (demo_state demo_bucket2) = []" "\<forall>r \<in> set (rg_signatures (demo_state demo_bucket2)). sr_tenant r \<noteq> DEFAULT_TENANT"
    by (simp_all add: demo_state_def)
  have "\<not> is_cosign_sig_tag ''v1''"
    by code_simp
  from two_segment_signature_lost [OF env start this up] up show ?thesis
    by blast
qed

section \<open>Deleting by digest\<close>

context registry_store
begin

text \<open>A link that names the digest.\<close>

lemma read_tag_link_some:
  "read_tag_link E t p n tag w = (w', Inr (Some d)) \<Longrightarrow>
    \<exists>b. view w (os_path (en_store E) (tag_link_path t p n tag)) = Some b \<and> utf8_trim (from_utf8_lossy b) = d"
  by (auto simp: read_tag_link_def split: prod.splits read.splits if_splits dest!: store_read_got)

lemma read_tag_link_none:
  "read_tag_link E t p n tag w = (w', Inr None) \<Longrightarrow> view w (os_path (en_store E) (tag_link_path t p n tag)) = None"
  by (auto simp: read_tag_link_def is_store_not_found_def split: prod.splits read.splits if_splits dest!: store_read_absent)

text \<open>One turn of the loop: the object is passed over, removed, or the loop stops.\<close>

lemma delete_links_turn:
  assumes "delete_links E t p n d (loc # locs) w = (w', r)"
  obtains (pass) w1 where "view w1 = view w" "delete_links E t p n d locs w1 = (w', r)"
      "\<And>tag b. loc = tags_prefix t p n @ tag \<Longrightarrow> tag \<noteq> [] \<Longrightarrow> os_path (en_store E) (tag_link_path t p n tag) = loc \<Longrightarrow>
        view w loc = Some b \<Longrightarrow> utf8_trim (from_utf8_lossy b) \<noteq> d"
    | (removed) w2 r' where "view w2 = (view w)(loc := None)" "delete_links E t p n d locs w2 = (w', r')"
      "\<And>rm. r = Inr rm \<Longrightarrow> \<exists>rm'. r' = Inr rm'"
    | (stop) e' where "r = Inl e'" "maybe_delete loc (view w) (view w')"
proof (cases "strip_prefix (tags_prefix t p n) loc")
  case None
  show ?thesis
    by (rule pass [OF refl]) (use assms None in \<open>auto simp: strip_prefix_None_iff starts_with_iff\<close>)
next
  case (Some tag)
  then have loc: "loc = tags_prefix t p n @ tag"
    by (simp add: strip_prefix_iff)
  obtain w1 x where link: "read_tag_link E t p n tag w = (w1, x)"
    by force
  note v = read_tag_link_view [OF link]
  obtain w2 y where del: "os_delete (en_store E) loc w1 = (w2, y)"
    by force
  obtain w3 z where rest: "delete_links E t p n d locs w2 = (w3, z)"
    by force
  consider "tag = []" | e' where "tag \<noteq> []" "x = Inl e'" | l where "tag \<noteq> []" "x = Inr l" "l \<noteq> Some d" | "tag \<noteq> []" "x = Inr (Some d)"
    by (cases x) auto
  then show ?thesis
  proof cases
    case 1
    show ?thesis
      by (rule pass [OF refl]) (use assms Some 1 loc in auto)
  next
    case 2
    then show ?thesis
      using stop [of e'] assms Some link v by (auto simp: maybe_delete_def)
  next
    case 3
    have next_loop: "delete_links E t p n d locs w1 = (w', r)"
      using assms Some 3 link by simp
    show ?thesis
    proof (rule pass [OF v next_loop])
      fix tag' b
      assume tag': "loc = tags_prefix t p n @ tag'" "os_path (en_store E) (tag_link_path t p n tag') = loc" "view w loc = Some b"
      then have "tag' = tag"
        using loc by simp
      then show "utf8_trim (from_utf8_lossy b) \<noteq> d"
        using 3 link tag' read_tag_link_none [of t p n tag w w1] read_tag_link_some [of t p n tag w w1] by (cases l) auto
    qed
  next
    case 4
    have gone: "view w2 = (view w)(loc := None)" if "y = Inr u \<or> y = Inl NotFound" for u
      using that delete_ok [of loc w1 w2] delete_absent [of loc w1 w2] del v by auto
    show ?thesis
    proof (cases "y = Inr () \<or> y = Inl NotFound")
      case True
      then have "view w2 = (view w)(loc := None)"
        using gone by blast
      moreover have "w' = w3" "r = z \<or> r = map_sum id (Cons tag) z"
        using assms Some 4 link del rest True by (auto simp: is_store_not_found_def)
      ultimately show ?thesis
        using removed [of w2 z] rest by (cases z) auto
    next
      case False
      then obtain e' where "y = Inl e'" "e' \<noteq> NotFound"
        by (cases y) auto
      then show ?thesis
        using stop [of "Storage (en_os_text E e')"] assms Some 4 link del os_delete_any [OF del] v
        by (auto simp: is_store_not_found_def)
    qed
  qed
qed

lemma delete_links_monotone:
  "delete_links E t p n d locs w = (w', r) \<Longrightarrow> view w' k = None \<or> view w' k = view w k"
proof (induction locs arbitrary: w w' r)
  case (Cons loc locs)
  from Cons.prems show ?case
  proof (cases rule: delete_links_turn)
    case (pass w1)
    then show ?thesis
      using Cons.IH [OF pass(2)] by simp
  next
    case (removed w2 r')
    then show ?thesis
      using Cons.IH [OF removed(2)] by (auto split: if_splits)
  qed (auto simp: maybe_delete_def)
qed simp

lemma delete_links_done:
  assumes "delete_links E t p n d locs w = (w', Inr rm)" "tags_prefix t p n @ tag \<in> set locs" "tag \<noteq> []"
    and "os_path (en_store E) (tag_link_path t p n tag) = tags_prefix t p n @ tag"
    and "view w' (tags_prefix t p n @ tag) = Some b"
  shows "utf8_trim (from_utf8_lossy b) \<noteq> d"
  using assms(1,2,5)
proof (induction locs arbitrary: w rm)
  case (Cons loc locs)
  from Cons.prems(1) show ?case
  proof (cases rule: delete_links_turn)
    case (pass w1)
    show ?thesis
    proof (cases "loc = tags_prefix t p n @ tag")
      case True
      then show ?thesis
        using delete_links_monotone [OF pass(2), of loc] pass(1,3) Cons.prems(3) assms(3,4) by auto
    qed (use Cons.IH [OF pass(2)] Cons.prems in auto)
  next
    case (removed w2 r')
    then obtain rm' where r': "r' = Inr rm'"
      by blast
    show ?thesis
    proof (cases "loc = tags_prefix t p n @ tag")
      case True
      then show ?thesis
        using delete_links_monotone [OF removed(2), of loc] removed(1) Cons.prems(3) by auto
    qed (use Cons.IH [OF removed(2) [unfolded r']] Cons.prems in auto)
  qed simp
qed simp

lemma digest_deleted:
  assumes "delete_digest E t p n x d w = (w', Inr u)"
  obtains w1 w2 locs rm where "view w1 = (view w)(os_path (en_store E) (manifest_path t p n d) := None)" "view w2 = view w1"
    "os_list (en_store E) (os_path (en_store E) (tags_prefix t p n)) w1 = (w2, Inr locs)" "delete_links E t p n d locs w2 = (w', Inr rm)"
proof -
  let ?m = "os_path (en_store E) (manifest_path t p n d)"
  obtain w1 y where del: "os_delete (en_store E) ?m w = (w1, y)"
    by force
  have y: "y = Inr () \<or> y = Inl NotFound"
    using assms del by (cases y) (auto simp: delete_digest_def is_store_not_found_def split: if_splits)
  then have v: "view w1 = (view w)(?m := None)"
    using delete_ok [of ?m w w1] delete_absent [of ?m w w1] del by auto
  obtain rm where "delete_tags_for_digest E t p n d w1 = (w', Inr rm)"
    using assms del y by (auto simp: delete_digest_def is_store_not_found_def split: prod.splits sum.splits)
  then obtain w2 locs where "os_list (en_store E) (os_path (en_store E) (tags_prefix t p n)) w1 = (w2, Inr locs)"
    "delete_links E t p n d locs w2 = (w', Inr rm)"
    by (auto simp: delete_tags_for_digest_def split: prod.splits sum.splits)
  with v show ?thesis
    using that list_view by blast
qed

end

text \<open>
  A delete by digest leaves no tag behind: once it is acknowledged, the manifest is gone and no
  tag of the repository links to its digest - whatever other tags there were and whichever of the links were
  already gone. (\<open>Path::from\<close> drops the trailing slash of the listing prefix.)
\<close>

theorem digest_delete_untags:
  assumes "object_store (en_store E) view content target parts" "env_quiet E view"
    and "os_path (en_store E) (tags_prefix t p n) = repo_key t p n @ ''/tags''"
    and "plain_seg t" "plain_seg p" "plain_seg n" "plain_seg tag" "starts_with ''sha256:'' d"
    and "delete_manifest E q c t p n d s = (s', Some (Inr r))"
  shows "view (rg_world s') (os_path (en_store E) (manifest_path t p n d)) = None \<and>
    (\<forall>b. view (rg_world s') (os_path (en_store E) (tag_link_path t p n tag)) = Some b \<longrightarrow> utf8_trim (from_utf8_lossy b) \<noteq> d)"
proof -
  have store: "registry_store E view content target parts"
    using assms(1,2) by (simp add: registry_store_def registry_store_axioms_def)
  let ?m = "os_path (en_store E) (manifest_path t p n d)" and ?l = "tags_prefix t p n @ tag"
  have "delete_target E t p n d (rg_world s) = (rg_world s, Inr (d, False))"
    using assms(8) by (auto simp: delete_target_def starts_with_iff)
  then obtain u where del: "delete_digest E t p n d d (rg_world s) = (rg_world s', Inr u)"
    using assms(9) by (auto simp: delete_manifest_def Let_def split: sum.splits prod.splits dest!: audit_record_keeps)
  obtain w1 w2 locs rm where v1: "view w1 = (view (rg_world s))(?m := None)" "view w2 = view w1"
    and ls: "os_list (en_store E) (repo_key t p n @ ''/tags'') w1 = (w2, Inr locs)"
    and loop: "delete_links E t p n d locs w2 = (rg_world s', Inr rm)"
    using registry_store.digest_deleted [OF store del] assms(3) by metis
  note mono = registry_store.delete_links_monotone [OF store loop]
  have key: "os_path (en_store E) (tag_link_path t p n tag) = ?l"
    using object_store.path_plain [OF assms(1) plain_key_join, of "[t, p, n, ''tags'', tag]"] assms(4-7)
    by (simp add: tag_link_path_join tags_prefix_def)
  have "utf8_trim (from_utf8_lossy b) \<noteq> d" if b: "view (rg_world s') ?l = Some b" for b
  proof (rule registry_store.delete_links_done [OF store loop _ _ key b])
    have "view w1 ?l = Some b"
      using mono [of ?l] b v1(2) by auto
    then have "?l \<in> under (repo_key t p n @ ''/tags'') (view w1)"
      by (auto simp: under_def dir_prefix_def starts_with_iff repo_paths)
    then show "?l \<in> set locs"
      using object_store.list_ok [OF assms(1) ls] by blast
    show "tag \<noteq> []"
      using assms(7) by (simp add: plain_seg_def)
  qed
  moreover have "view (rg_world s') ?m = None"
    using mono [of ?m] v1 by auto
  ultimately show ?thesis
    unfolding key by blast
qed

lemma demo_tags_dir: "os_path (en_store demo_reg) (tags_prefix ''_'' ''p'' ''n'') = repo_key ''_'' ''p'' ''n'' @ ''/tags''"
proof -
  have "trim_slash ''_/p/n/tags/'' = ''_/p/n/tags''"
    by code_simp
  then show ?thesis
    by (simp add: demo_store dir_store_sel tags_prefix_def repo_key_def)
qed

lemma demo_delete:
  "\<exists>s' r. delete_manifest demo_reg demo_request (demo_claims ''_/p/n'') ''_'' ''p'' ''n'' ''sha256:ab'' (demo_state demo_bucket2) =
    (s', Some (Inr r))"
proof -
  have trim: "trim_slash ''_/p/n/manifests/sha256:ab'' = ''_/p/n/manifests/sha256:ab''" "trim_slash ''_/p/n/tags/v1'' = ''_/p/n/tags/v1''"
    "trim_slash ''_/p/n/tags/'' = ''_/p/n/tags''" "utf8_trim (from_utf8_lossy ''sha256:ab'') = ''sha256:ab''"
    by code_simp+
  show ?thesis
    using trim
    by (simp add: delete_manifest_def delete_target_def demo_claims_def authorize_def can_def starts_with_def delete_digest_def
        delete_tags_for_digest_def read_tag_link_def store_read_def demo_reg_def dir_store_def mem_store_def mem_io_def mem_get_def
        next_fault_def mem_init_def demo_bucket2_def demo_state_def manifest_path_def tag_link_path_def tags_prefix_def mem_keys_def
        dir_prefix_def enqueue_def notify_def audit_record_def record_event_def should_persist_def log_with_sink_def is_write_def
        is_pull_def mk_event_def respond_def is_store_not_found_def Let_def)
qed

theorem digest_delete_untags_witness:
  "\<exists>s' r. delete_manifest demo_reg demo_request (demo_claims ''_/p/n'') ''_'' ''p'' ''n'' ''sha256:ab'' (demo_state demo_bucket2) =
      (s', Some (Inr r)) \<and>
    (\<forall>b. mem_view (rg_world s') (os_path (en_store demo_reg) (tag_link_path ''_'' ''p'' ''n'' ''v1'')) = Some b \<longrightarrow>
      utf8_trim (from_utf8_lossy b) \<noteq> ''sha256:ab'')"
proof -
  obtain s' r where del: "delete_manifest demo_reg demo_request (demo_claims ''_/p/n'') ''_'' ''p'' ''n'' ''sha256:ab''
      (demo_state demo_bucket2) = (s', Some (Inr r))"
    using demo_delete by blast
  have "starts_with ''sha256:'' ''sha256:ab''"
    by code_simp
  from digest_delete_untags [OF demo.object_store_axioms demo_env_quiet demo_tags_dir demo_push_facts(1-4) this del] del
  show ?thesis
    by blast
qed

section \<open>Listing tags\<close>

text \<open>The tags of a repository: the names of the objects below its directory of links.\<close>

definition repo_tags :: "string \<Rightarrow> string \<Rightarrow> string \<Rightarrow> (path \<rightharpoonup> bytes) \<Rightarrow> string set" where
  "repo_tags t p n m = {tag. tag \<noteq> [] \<and> tags_prefix t p n @ tag \<in> dom m}"

lemma filter_map_strip: "set (filter_map (strip_prefix k) locs) = {x. k @ x \<in> set locs}"
  by (induction locs) (auto simp: strip_prefix_iff split: option.splits)

lemma distinct_filter_map_strip: "distinct locs \<Longrightarrow> distinct (filter_map (strip_prefix k) locs)"
  using filter_map_strip by (induction locs) (auto simp: strip_prefix_iff split: option.splits)

lemma sorted_dropWhile_le: "sorted xs \<Longrightarrow> dropWhile (\<lambda>x. x \<le> l) xs = filter (\<lambda>x. l < x) xs" for l :: "'a :: linorder"
proof (induction xs)
  case (Cons x xs)
  show ?case
  proof (cases "x \<le> l")
    case False
    then have "filter (\<lambda>x. l < x) xs = xs"
      using Cons.prems by (auto simp: filter_id_conv)
    with False show ?thesis by auto
  qed (use Cons in auto)
qed simp

text \<open>
  A page of tags is exact: it lists, in order, the tags of the repository after \<open>last\<close>, all of them or the first \<open>n\<close>,
  each once and nothing else - so a client that passes the last tag of one page as \<open>last\<close> of the next
  sees every tag exactly once. (\<open>Path::from\<close> drops the trailing slash of the listing prefix.)
\<close>

theorem tag_page_exact:
  assumes "object_store (en_store E) view content target parts"
    and "os_path (en_store E) (tags_prefix t p n) = repo_key t p n @ ''/tags''"
    and "list_tags E c t p n k last_seen s = (s', Some (Inr r))"
  shows "rs_body r = TagListBody (repo_key t p n)
    ((case k of None \<Rightarrow> (\<lambda>xs. xs) | Some m \<Rightarrow> take m)
      (filter (\<lambda>x. case last_seen of None \<Rightarrow> True | Some l \<Rightarrow> l < x) (sorted_list_of_set (repo_tags t p n (view (rg_world s))))))"
proof -
  obtain w1 locs where ls: "os_list (en_store E) (repo_key t p n @ ''/tags'') (rg_world s) = (w1, Inr locs)"
    and body: "rs_body r = TagListBody (repo_key t p n) (page last_seen k (sort (tags_of (tags_prefix t p n) locs)))"
    using assms(2,3) by (auto simp: list_tags_def Let_def repo_key_def split: sum.splits prod.splits dest!: respond_body)
  have locs: "set locs = under (repo_key t p n @ ''/tags'') (view (rg_world s))" "distinct locs"
    using object_store.list_ok [OF assms(1) ls] by blast+
  have "set (tags_of (tags_prefix t p n) locs) = repo_tags t p n (view (rg_world s))"
    by (auto simp: tags_of_def filter_map_strip locs(1) repo_tags_def under_def dir_prefix_def starts_with_iff repo_paths)
  moreover have "distinct (tags_of (tags_prefix t p n) locs)"
    using locs(2) by (simp add: tags_of_def distinct_filter_map_strip)
  ultimately have "sort (tags_of (tags_prefix t p n) locs) = sorted_list_of_set (repo_tags t p n (view (rg_world s)))"
    by (metis sorted_list_of_set_sort_remdups distinct_remdups_id)
  then show ?thesis
    using body by (auto simp: page_def sorted_dropWhile_le split: option.splits)
qed

theorem tag_page_exact_witness:
  "\<exists>s' r. list_tags demo_reg (demo_claims ''_/p/n'') ''_'' ''p'' ''n'' (Some 1) None (demo_state demo_bucket2) = (s', Some (Inr r)) \<and>
    rs_body r = TagListBody ''_/p/n'' [''v1'']"
proof -
  have trim: "trim_slash ''_/p/n/tags/'' = ''_/p/n/tags''"
    by code_simp
  obtain s' r where ls: "list_tags demo_reg (demo_claims ''_/p/n'') ''_'' ''p'' ''n'' (Some 1) None (demo_state demo_bucket2) = (s', Some (Inr r))"
    using trim
    by (simp add: list_tags_def demo_claims_def authorize_def can_def demo_reg_def dir_store_def mem_store_def mem_io_def
        next_fault_def mem_init_def demo_bucket2_def demo_state_def tags_prefix_def respond_def Let_def)
  have tags: "repo_tags ''_'' ''p'' ''n'' (mem_view (rg_world (demo_state demo_bucket2))) = {''v1''}"
    by (auto simp: repo_tags_def mem_view_def demo_state_def demo_bucket2_def mem_init_def tags_prefix_def split: if_splits)
  show ?thesis
    using ls tag_page_exact [OF demo.object_store_axioms demo_tags_dir ls] by (simp add: tags repo_key_def)
qed

end
