(* ===== verification/Resilient_Store.thy ===== *)
theory Resilient_Store
  imports Object_Store Circuit_Breaker Retry
begin

text \<open>
  \<open>specton-resilience/src/resilient_store.rs\<close>: an object store in front of another
  one. Writes, deletes, reads and delimited listings go through the circuit breaker
  and, inside it, through the retry loop; multipart uploads, plain listings and copies
  are passed on. The state is the breaker together with the world of the inner store.
  The wrapper satisfies the contract of the interface whenever the inner store does.
\<close>

record ('w, 'h, 'u) resilient =
  inner :: "('w, 'h, 'u) store_ops"
  policy_of :: retry_policy
  breaker_of :: breaker_config
  env_of :: "'w retry_env"
  clock_of :: "'w \<Rightarrow> nat"

fun map_cb_err :: "os_error call_error \<Rightarrow> os_error" where
  "map_cb_err BreakerOpen = Generic"
| "map_cb_err (Inner e) = e"

definition is_not_found :: "os_error \<Rightarrow> bool" where
  "is_not_found e \<longleftrightarrow> e = NotFound"

text \<open>\<open>circuit_breaker.call_classified(|| retry_policy.execute_labeled(op))\<close>, then
  \<open>map_cb_err\<close>.\<close>

definition guarded ::
  "('w, 'h, 'u) resilient \<Rightarrow> (os_error \<Rightarrow> bool) \<Rightarrow> ('w, 'a) io \<Rightarrow> (breaker_state \<times> 'w, 'a) io" where
  "guarded R is_failure f s =
    (case call_classified (breaker_of R) (clock_of R)
        (execute_labeled (env_of R) (policy_of R) f) is_failure s of
       (s', Inr v) \<Rightarrow> (s', Inr v)
     | (s', Inl e) \<Rightarrow> (s', Inl (map_cb_err e)))"

definition delegated :: "('w, 'a) io \<Rightarrow> (breaker_state \<times> 'w, 'a) io" where
  "delegated f s = (let (st, w) = s; (w', r) = f w in ((st, w'), r))"

definition rs_put :: "('w, 'h, 'u) resilient \<Rightarrow> path \<Rightarrow> bytes \<Rightarrow> (breaker_state \<times> 'w, unit) io" where
  "rs_put R p d = guarded R (\<lambda>_. True) (os_put (inner R) p d)"

definition rs_get :: "('w, 'h, 'u) resilient \<Rightarrow> path \<Rightarrow> (breaker_state \<times> 'w, 'h) io" where
  "rs_get R p = guarded R (\<lambda>e. \<not> is_not_found e) (os_get (inner R) p)"

definition rs_head :: "('w, 'h, 'u) resilient \<Rightarrow> path \<Rightarrow> (breaker_state \<times> 'w, nat) io" where
  "rs_head R p = guarded R (\<lambda>e. \<not> is_not_found e) (os_head (inner R) p)"

definition rs_delete :: "('w, 'h, 'u) resilient \<Rightarrow> path \<Rightarrow> (breaker_state \<times> 'w, unit) io" where
  "rs_delete R p = guarded R (\<lambda>_. True) (os_delete (inner R) p)"

definition rs_list_dir ::
  "('w, 'h, 'u) resilient \<Rightarrow> path \<Rightarrow> (breaker_state \<times> 'w, path list \<times> path list) io" where
  "rs_list_dir R p = guarded R (\<lambda>_. True) (os_list_dir (inner R) p)"

definition rs_list :: "('w, 'h, 'u) resilient \<Rightarrow> path \<Rightarrow> (breaker_state \<times> 'w, path list) io" where
  "rs_list R p = delegated (os_list (inner R) p)"

definition rs_multipart :: "('w, 'h, 'u) resilient \<Rightarrow> path \<Rightarrow> (breaker_state \<times> 'w, 'u) io" where
  "rs_multipart R p = delegated (os_multipart (inner R) p)"

definition rs_copy :: "('w, 'h, 'u) resilient \<Rightarrow> path \<Rightarrow> path \<Rightarrow> (breaker_state \<times> 'w, unit) io" where
  "rs_copy R p q = delegated (os_copy (inner R) p q)"

definition resilient_store ::
  "('w, 'h, 'u) resilient \<Rightarrow> (breaker_state \<times> 'w, 'h, 'u) store_ops" where
  "resilient_store R =
    \<lparr>os_path = os_path (inner R),
     os_get = rs_get R,
     os_bytes = (\<lambda>h. delegated (os_bytes (inner R) h)),
     os_head = rs_head R,
     os_put = rs_put R,
     os_delete = rs_delete R,
     os_list = rs_list R,
     os_list_dir = rs_list_dir R,
     os_copy = rs_copy R,
     os_multipart = rs_multipart R,
     os_put_part = (\<lambda>u i d. delegated (os_put_part (inner R) u i d)),
     os_complete = (\<lambda>u. delegated (os_complete (inner R) u)),
     os_abort = (\<lambda>u. delegated (os_abort (inner R) u))\<rparr>"

section \<open>What retrying preserves\<close>

text \<open>
  If each attempt moves the objects along a relation that composes, so does the whole
  loop; the outcome is that of the last attempt.
\<close>

locale quiet_env =
  fixes env :: "'w retry_env" and view :: "'w \<Rightarrow> 'v"
  assumes sleep_quiet: "view (sleep env n w) = view w"
    and random_quiet: "random_range env n w = (w', k) \<Longrightarrow> view w' = view w"
begin

lemma delay_quiet: "compute_delay env p attempt w = (w', k) \<Longrightarrow> view w' = view w"
  by (auto simp: compute_delay_def random_quiet split: if_splits)

lemma before_attempt_rel:
  assumes step: "\<And>w w' e. f w = (w', Inl e) \<Longrightarrow> T (view w) (view w')"
    and refl: "\<And>v. T v v" and trans: "\<And>u v x. T u v \<Longrightarrow> T v x \<Longrightarrow> T u x"
  shows "\<forall>m < n. \<exists>w' e. f (before_attempt env p f attempt m w) = (w', Inl e) \<Longrightarrow>
    T (view w) (view (before_attempt env p f attempt n w))"
proof (induction n arbitrary: attempt w)
  case (Suc n)
  obtain w1 e where first: "f w = (w1, Inl e)"
    using Suc.prems by force
  obtain w2 delay where d: "compute_delay env p attempt w1 = (w2, delay)"
    by force
  let ?w = "sleep env delay w2"
  have "\<forall>m < n. \<exists>w' e. f (before_attempt env p f (Suc attempt) m ?w) = (w', Inl e)"
    using Suc.prems first d by (metis (no_types, lifting) Suc_mono before_attempt.simps(2) case_prod_conv fst_conv)
  from Suc.IH [OF this] have "T (view ?w) (view (before_attempt env p f (Suc attempt) n ?w))" .
  moreover have "T (view w) (view ?w)"
    using step [OF first] delay_quiet [OF d] by (simp add: sleep_quiet)
  ultimately show ?case
    using trans first d by simp
qed (simp add: refl)

lemma execute_rel:
  assumes "\<And>w w' e. f w = (w', Inl e) \<Longrightarrow> T (view w) (view w')"
    and "\<And>v. T v v" and "\<And>u v x. T u v \<Longrightarrow> T v x \<Longrightarrow> T u x"
    and run: "execute_labeled env p f w = (w', r)"
  shows "\<exists>w0. T (view w) (view w0) \<and> f w0 = (w', r)"
proof -
  from retry_loop_spec [of 0 p env f w] obtain n where
    "execute_labeled env p f w = f (before_attempt env p f 0 n w)"
    "\<forall>m < n. \<exists>w' e. f (before_attempt env p f 0 m w) = (w', Inl e)"
    unfolding execute_labeled_def by blast
  with before_attempt_rel [of f T n p 0 w] assms show ?thesis
    by (metis (no_types, lifting))
qed

end

lemma guarded_cases:
  assumes "guarded R isf f (st, w) = ((st', w'), r)"
  obtains (rejected) "w' = w" "r = Inl Generic"
  | (ran) "execute_labeled (env_of R) (policy_of R) f w = (w', r)"
  using assms
  by (auto simp: guarded_def call_classified_def Let_def
      split: prod.splits sum.splits if_splits)

section \<open>The wrapper keeps the contract\<close>

lemma maybe_put_refl: "maybe_put p d m m"
  by (simp add: maybe_put_def)

lemma maybe_put_trans: "maybe_put p d m1 m2 \<Longrightarrow> maybe_put p d m2 m3 \<Longrightarrow> maybe_put p d m1 m3"
  by (auto simp: maybe_put_def)

lemma maybe_delete_refl: "maybe_delete p m m"
  by (simp add: maybe_delete_def)

lemma maybe_delete_trans:
  "maybe_delete p m1 m2 \<Longrightarrow> maybe_delete p m2 m3 \<Longrightarrow> maybe_delete p m1 m3"
  by (auto simp: maybe_delete_def)

locale resilient_contract =
  object_store "inner R" view content target parts + quiet_env "env_of R" view
  for R :: "('w, 'h, 'u) resilient"
    and view :: "'w view"
    and content :: "'h \<Rightarrow> bytes"
    and target :: "'u \<Rightarrow> path"
    and parts :: "'w \<Rightarrow> 'u \<Rightarrow> nat \<Rightarrow> bytes option"
begin

text \<open>A guarded read leaves the objects alone and answers from them.\<close>

lemma guarded_read:
  assumes "\<And>w w' r. f w = (w', r) \<Longrightarrow> view w' = view w"
    and "guarded R isf f (st, w) = ((st', w'), r)"
  shows "view w' = view w \<and> (r = Inl Generic \<or> (\<exists>w0. view w0 = view w \<and> f w0 = (w', r)))"
  using assms(2)
proof (cases rule: guarded_cases)
  case ran
  have step: "view w = view w'" if "f w = (w', Inl e)" for w w' e
    using assms(1) [OF that] by simp
  have "\<exists>w0. view w = view w0 \<and> f w0 = (w', r)"
    by (rule execute_rel [where T = "(=)"]) (use step ran in auto)
  then obtain w0 where "view w = view w0" "f w0 = (w', r)"
    by blast
  then show ?thesis
    using assms(1) by metis
qed simp

lemma guarded_put:
  assumes "guarded R isf (os_put (inner R) p d) (st, w) = ((st', w'), r)"
  shows "(r = Inl Generic \<and> view w' = view w) \<or>
    (\<exists>w0. maybe_put p d (view w) (view w0) \<and> os_put (inner R) p d w0 = (w', r))"
  using assms
proof (cases rule: guarded_cases)
  case ran
  have "\<exists>w0. maybe_put p d (view w) (view w0) \<and> os_put (inner R) p d w0 = (w', r)"
    by (rule execute_rel [where T = "maybe_put p d"])
      (rule put_err maybe_put_refl ran | erule (1) maybe_put_trans | assumption)+
  then show ?thesis ..
qed simp

lemma guarded_delete:
  assumes "guarded R isf (os_delete (inner R) p) (st, w) = ((st', w'), r)"
  shows "(r = Inl Generic \<and> view w' = view w) \<or>
    (\<exists>w0. maybe_delete p (view w) (view w0) \<and> os_delete (inner R) p w0 = (w', r))"
  using assms
proof (cases rule: guarded_cases)
  case ran
  have "\<exists>w0. maybe_delete p (view w) (view w0) \<and> os_delete (inner R) p w0 = (w', r)"
    by (rule execute_rel [where T = "maybe_delete p"])
      (rule delete_err maybe_delete_refl ran | erule (1) maybe_delete_trans | assumption)+
  then show ?thesis ..
qed simp

lemma delegated_eq:
  "delegated f (st, w) = ((st', w'), r) \<longleftrightarrow> st' = st \<and> f w = (w', r)"
  by (auto simp: delegated_def split: prod.splits)

lemmas rs_defs = resilient_store_def rs_get_def rs_head_def rs_put_def rs_delete_def rs_list_def
  rs_list_dir_def rs_copy_def rs_multipart_def

lemma rs_get_spec:
  assumes "os_get (resilient_store R) p (st, w) = ((st', w'), r)"
  shows "view w' = view w" "r = Inr h \<Longrightarrow> view w p = Some (content h)"
    "r = Inl NotFound \<Longrightarrow> view w p = None"
proof -
  have *: "view w' = view w \<and>
      (r = Inl Generic \<or> (\<exists>w0. view w0 = view w \<and> os_get (inner R) p w0 = (w', r)))"
    by (rule guarded_read [OF get_view]) (use assms in \<open>auto simp: rs_defs\<close>)
  show "view w' = view w" "r = Inr h \<Longrightarrow> view w p = Some (content h)"
    "r = Inl NotFound \<Longrightarrow> view w p = None"
    using * get_ok get_absent by fastforce+
qed

lemma rs_head_spec:
  assumes "os_head (resilient_store R) p (st, w) = ((st', w'), r)"
  shows "view w' = view w" "r = Inr k \<Longrightarrow> \<exists>d. view w p = Some d \<and> k = length d"
    "r = Inl NotFound \<Longrightarrow> view w p = None"
proof -
  have *: "view w' = view w \<and>
      (r = Inl Generic \<or> (\<exists>w0. view w0 = view w \<and> os_head (inner R) p w0 = (w', r)))"
    by (rule guarded_read [OF head_view]) (use assms in \<open>auto simp: rs_defs\<close>)
  show "view w' = view w" "r = Inr k \<Longrightarrow> \<exists>d. view w p = Some d \<and> k = length d"
    "r = Inl NotFound \<Longrightarrow> view w p = None"
    using * head_ok head_absent by fastforce+
qed

lemma rs_list_dir_spec:
  assumes "os_list_dir (resilient_store R) p (st, w) = ((st', w'), r)"
  shows "view w' = view w"
    "r = Inr (ds, ps) \<Longrightarrow> set ds = sub_dirs p (view w) \<and> set ps = direct_objects p (view w)"
proof -
  have *: "view w' = view w \<and>
      (r = Inl Generic \<or> (\<exists>w0. view w0 = view w \<and> os_list_dir (inner R) p w0 = (w', r)))"
    by (rule guarded_read [OF list_dir_view]) (use assms in \<open>auto simp: rs_defs\<close>)
  show "view w' = view w"
    "r = Inr (ds, ps) \<Longrightarrow> set ds = sub_dirs p (view w) \<and> set ps = direct_objects p (view w)"
    using * list_dir_ok by fastforce+
qed

lemma rs_put_spec:
  assumes "os_put (resilient_store R) p d (st, w) = ((st', w'), r)"
  shows "r = Inr u \<Longrightarrow> view w' = (view w)(p \<mapsto> d)" "r = Inl e \<Longrightarrow> maybe_put p d (view w) (view w')"
proof -
  have *: "(r = Inl Generic \<and> view w' = view w) \<or>
      (\<exists>w0. maybe_put p d (view w) (view w0) \<and> os_put (inner R) p d w0 = (w', r))"
    using assms by (intro guarded_put) (simp add: rs_defs)
  show "view w' = (view w)(p \<mapsto> d)" if "r = Inr u"
    using * that put_ok by (fastforce simp: maybe_put_def)
  show "maybe_put p d (view w) (view w')" if "r = Inl e"
    using * that put_err maybe_put_refl maybe_put_trans by metis
qed

lemma rs_delete_spec:
  assumes "os_delete (resilient_store R) p (st, w) = ((st', w'), r)"
  shows "r = Inr u \<or> r = Inl NotFound \<Longrightarrow> view w' = (view w)(p := None)"
    "r = Inl e \<Longrightarrow> maybe_delete p (view w) (view w')"
proof -
  have *: "(r = Inl Generic \<and> view w' = view w) \<or>
      (\<exists>w0. maybe_delete p (view w) (view w0) \<and> os_delete (inner R) p w0 = (w', r))"
    using assms by (intro guarded_delete) (simp add: rs_defs)
  show "view w' = (view w)(p := None)" if "r = Inr u \<or> r = Inl NotFound"
    using * that delete_ok delete_absent by (fastforce simp: maybe_delete_def)
  show "maybe_delete p (view w) (view w')" if "r = Inl e"
    using * that delete_err maybe_delete_refl maybe_delete_trans by metis
qed

end

sublocale resilient_contract \<subseteq> outer: object_store "resilient_store R" "\<lambda>s. view (snd s)" content
  target "\<lambda>s. parts (snd s)"
proof (unfold_locales, goal_cases)
  case (2 p w w' r)
  then show ?case using rs_get_spec(1) by (metis prod.collapse)
next
  case (3 p w w' h)
  then show ?case using rs_get_spec(2) by (metis prod.collapse)
next
  case (4 p w w')
  then show ?case using rs_get_spec(3) by (metis prod.collapse)
next
  case (7 p w w' n)
  then show ?case using rs_head_spec(1) by (metis prod.collapse)
next
  case (8 p w w' k)
  then show ?case using rs_head_spec(2) by (metis prod.collapse)
next
  case (9 p w w')
  then show ?case using rs_head_spec(3) by (metis prod.collapse)
next
  case (10 p d w w' u)
  then show ?case using rs_put_spec(1) by (metis prod.collapse)
next
  case (11 p d w w' e)
  then show ?case using rs_put_spec(2) by (metis prod.collapse)
next
  case (12 p w w' u)
  then show ?case using rs_delete_spec(1) by (metis prod.collapse)
next
  case (13 p w w')
  then show ?case using rs_delete_spec(1) by (metis prod.collapse)
next
  case (14 p w w' e)
  then show ?case using rs_delete_spec(2) by (metis prod.collapse)
next
  case (17 p w w' ll)
  then show ?case using rs_list_dir_spec(1) by (metis prod.collapse)
next
  case (18 p w w' ds ps)
  then show ?case using rs_list_dir_spec(2) by (metis prod.collapse)
next
  case (20 p q w w' e)
  then show ?case
    using copy_err [of p q "snd w" "snd w'" e] by (auto simp: rs_defs delegated_def split: prod.splits)
next
  case (28 k y)
  then show ?case
    using path_under [of k y] by (simp add: rs_defs)
qed (auto simp: rs_defs delegated_def bytes_view bytes_ok list_view list_ok copy_ok path_plain
    multipart_view multipart_ok part_view part_ok complete_ok complete_err abort_view
    split: prod.splits)

context resilient_contract
begin

lemma outer_store:
  "object_store (resilient_store R) (\<lambda>s. view (snd s)) content target (\<lambda>s. parts (snd s))"
  by unfold_locales

end

section \<open>Properties\<close>

definition demo_resilient :: "(mem_world, bytes, nat \<times> path) resilient" where
  "demo_resilient = \<lparr>inner = mem_store,
     policy_of = \<lparr>max_retries = 1, base_delay_ms = 100, max_delay_ms = 5000, jitter = False\<rparr>,
     breaker_of = default_breaker_config, env_of = script_env, clock_of = op_count\<rparr>"

interpretation demo: resilient_contract demo_resilient mem_view "\<lambda>h. h" snd mem_parts
proof -
  have "object_store (inner demo_resilient) mem_view (\<lambda>h. h) snd mem_parts"
    by (simp add: demo_resilient_def mem.object_store_axioms)
  moreover have "quiet_env (env_of demo_resilient) mem_view"
    by unfold_locales (auto simp: demo_resilient_def script_env_def)
  ultimately show "resilient_contract demo_resilient mem_view (\<lambda>h. h) snd mem_parts"
    by (rule resilient_contract.intro)
qed

text \<open>
  C33. Behind the circuit breaker and the retries a store still behaves as a store, for
  every inner store that keeps the contract: a write that reports success is what the
  next reads of that path return and leaves all other objects alone; a write that
  reports an error has left either the old objects or the new ones; a read that
  reports absence is right.
\<close>

theorem resilient_read_after_write:
  assumes "resilient_contract R view content target parts"
    and "rs_put R p d s = (s1, r)" "rs_get R q s1 = (s2, g)"
  shows "(r = Inr () \<longrightarrow> view (snd s1) = (view (snd s))(p \<mapsto> d)) \<and>
    (\<forall>e. r = Inl e \<longrightarrow> view (snd s1) = view (snd s) \<or> view (snd s1) = (view (snd s))(p \<mapsto> d)) \<and>
    (\<forall>h. g = Inr h \<longrightarrow> view (snd s1) q = Some (content h)) \<and>
    (g = Inl NotFound \<longrightarrow> view (snd s1) q = None) \<and>
    view (snd s2) = view (snd s1)"
proof -
  have put: "os_put (resilient_store R) p d s = (s1, r)"
    and get: "os_get (resilient_store R) q s1 = (s2, g)"
    using assms(2,3) by (simp_all add: resilient_store_def)
  have S: "object_store (resilient_store R) (\<lambda>s. view (snd s)) content target (\<lambda>s. parts (snd s))"
    by (rule resilient_contract.outer_store [OF assms(1)])
  show ?thesis
    using object_store.put_ok [OF S] object_store.put_err [OF S] object_store.get_ok [OF S]
      object_store.get_absent [OF S] object_store.get_view [OF S] put get
    unfolding maybe_put_def by metis
qed

theorem resilient_read_after_write_witness:
  "\<exists>s1 s2. rs_put demo_resilient ''a'' ''x'' (breaker_new, mem_init [] [Some Generic]) = (s1, Inr ()) \<and>
     rs_get demo_resilient ''a'' s1 = (s2, Inr ''x'') \<and> mem_view (snd s1) = [''a'' \<mapsto> ''x'']"
proof -
  let ?s = "(breaker_new, mem_init [] [Some Generic])"
  note ev = rs_put_def rs_get_def guarded_def call_classified_def demo_resilient_def breaker_new_def
    rejects_def to_half_open_def execute_labeled_def retry_loop.simps mem_store_def mem_io_def
    mem_get_def next_fault_def mem_init_def compute_delay_def script_env_def
  obtain s1 where put: "rs_put demo_resilient ''a'' ''x'' ?s = (s1, Inr ())"
    by (simp add: ev)
  obtain s2 where get: "rs_get demo_resilient ''a'' s1 = (s2, Inr ''x'')"
    using put by (auto simp: ev)
  have "mem_view (snd s1) = (mem_view (snd ?s))(''a'' \<mapsto> ''x'')"
    using resilient_read_after_write [OF demo.resilient_contract_axioms put get] by simp
  also have "\<dots> = [''a'' \<mapsto> ''x'']"
    by (simp add: mem_view_def mem_init_def)
  finally show ?thesis
    using put get by blast
qed

text \<open>
  An absent object is a healthy answer for reads and a fault for deletes: a get that
  reports absence resets the failure count of a closed breaker, a delete that reports
  absence counts as a failure and opens the breaker at the threshold.
\<close>

theorem absence_and_breaker:
  assumes "rs_get R p (Closed n, w) = ((st, w1), Inl NotFound)"
    and "rs_delete R q (Closed m, v) = ((st', v1), Inl NotFound)"
  shows "st = Closed 0 \<and>
    st' = (if m + 1 \<ge> failure_threshold (breaker_of R) then Open (clock_of R v1) else Closed (m + 1))"
  using assms
  by (auto simp: rs_get_def rs_delete_def guarded_def call_classified_def rejects_def to_half_open_def
      is_not_found_def Let_def split: prod.splits sum.splits if_splits)

theorem absence_and_breaker_witness:
  "\<exists>w1. rs_delete demo_resilient ''a'' (Closed 4, mem_init [] []) = ((Open 2, w1), Inl NotFound)"
proof -
  note ev = rs_delete_def rs_get_def guarded_def call_classified_def demo_resilient_def
    rejects_def to_half_open_def execute_labeled_def retry_loop.simps mem_store_def mem_io_def
    mem_get_def next_fault_def mem_init_def compute_delay_def script_env_def is_not_found_def
  obtain st w1 where get: "rs_get demo_resilient ''a'' (Closed 4, mem_init [] []) = ((st, w1), Inl NotFound)"
    by (simp add: ev)
  obtain st' v1 where del: "rs_delete demo_resilient ''a'' (Closed 4, mem_init [] []) = ((st', v1), Inl NotFound)"
    and v1: "op_count v1 = 2"
    by (simp add: ev default_breaker_config_def)
  have "st' = Open 2"
    using absence_and_breaker [OF get del] v1
    by (simp add: demo_resilient_def default_breaker_config_def)
  with del show ?thesis by blast
qed

end
