(* ===== verification/Gc_Reaper.thy ===== *)
theory Gc_Reaper
  imports Gc_Refcount
begin

text \<open>
  The continuous reaper (\<open>specton-gc/src/reaper.rs\<close>) over the tables of
  \<open>Gc_Refcount\<close> and an object store. Whether the statements before and after the
  storage deletes succeed, and whether an operator paused or stopped the reaper
  before a candidate, are arguments. Reaping keeps the invariant and every object
  that an edge still references; with a healthy store a cycle removes every
  eligible blob.
\<close>

section \<open>Control and configuration\<close>

record reaper_control =
  paused :: bool
  stop :: bool

definition control_new :: reaper_control where
  "control_new = \<lparr>paused = False, stop = False\<rparr>"

definition pause :: "reaper_control \<Rightarrow> reaper_control" where
  "pause c = c\<lparr>paused := True\<rparr>"

definition resume :: "reaper_control \<Rightarrow> reaper_control" where
  "resume c = c\<lparr>paused := False\<rparr>"

definition shutdown :: "reaper_control \<Rightarrow> reaper_control" where
  "shutdown c = c\<lparr>stop := True\<rparr>"

record reaper_config =
  grace :: nat
  batch_size :: int
  idle_sleep :: nat
  sweep_qps :: nat

definition reaper_config_default :: reaper_config where
  "reaper_config_default = \<lparr>grace = 24 * 3600, batch_size = 200, idle_sleep = 30, sweep_qps = 100\<rparr>"

record reaper_stats =
  blobs_reaped :: nat
  bytes_freed :: nat
  cycles :: nat
  paused_cycles :: nat
  stat_errors :: nat

definition stats_default :: reaper_stats where
  "stats_default = \<lparr>blobs_reaped = 0, bytes_freed = 0, cycles = 0, paused_cycles = 0, stat_errors = 0\<rparr>"

record cycle_result =
  cr_blobs :: nat
  cr_bytes :: int
  cr_errors :: nat

definition cycle_default :: cycle_result where
  "cycle_default = \<lparr>cr_blobs = 0, cr_bytes = 0, cr_errors = 0\<rparr>"

section \<open>Reaping one blob\<close>

definition reap_key :: "string \<Rightarrow> string \<times> string \<times> string \<Rightarrow> string" where
  "reap_key d = (\<lambda>(t, p, r).
     t @ ''/'' @ p @ ''/'' @ r @ ''/blobs/sha256/'' @ strip_prefix_or ''sha256:'' d)"

fun delete_objects :: "('w, 'h, 'u) store_ops \<Rightarrow> string \<Rightarrow> (string \<times> string \<times> string) list \<Rightarrow> 'w \<Rightarrow>
    'w \<times> (gc_error, unit) result" where
  "delete_objects S d [] w = (w, Inr ())"
| "delete_objects S d (tpr # paths) w = (case os_delete S (os_path S (reap_key d tpr)) w of
     (w', Inr _) \<Rightarrow> delete_objects S d paths w'
   | (w', Inl NotFound) \<Rightarrow> delete_objects S d paths w'
   | (w', Inl _) \<Rightarrow> (w', Inl Sqlx))"

definition paths_of :: "gc_db \<Rightarrow> string \<times> string \<Rightarrow> (string \<times> string \<times> string) list" where
  "paths_of db k = map (\<lambda>(t, p, r, _). (t, p, r)) (filter (\<lambda>(t, _, _, b). (t, b) = k) (blob_paths db))"

definition drop_rows :: "string \<Rightarrow> string \<Rightarrow> int \<Rightarrow> gc_db \<Rightarrow> gc_db" where
  "drop_rows t d n db = db\<lparr>blob_paths := filter (\<lambda>(t', _, _, b). (t', b) \<noteq> (t, d)) (blob_paths db),
     refcounts := AList.delete (t, d) (refcounts db),
     gc_reaps := gc_reaps db @ [\<lparr>rr_tenant = t, rr_digest = d, rr_bytes = n\<rparr>]\<rparr>"

text \<open>
  \<open>reads\<close>: beginning the transaction and its two queries succeed; \<open>commits\<close>: the
  statements after the storage deletes and the commit succeed.
\<close>

definition reap_blob :: "('w, 'h, 'u) store_ops \<Rightarrow> bool \<Rightarrow> bool \<Rightarrow> string \<Rightarrow> string \<Rightarrow> int \<Rightarrow> gc_db \<Rightarrow> 'w \<Rightarrow>
    gc_db \<times> 'w \<times> (gc_error, bool) result" where
  "reap_blob S reads commits t d n db w =
    (if \<not> reads then (db, w, Inl Sqlx)
     else if map_option refcount (map_of (refcounts db) (t, d)) \<noteq> Some 0 then (db, w, Inr False)
     else (case delete_objects S d (paths_of db (t, d)) w of
       (w', Inl e) \<Rightarrow> (db, w', Inl e)
     | (w', Inr _) \<Rightarrow> if commits then (drop_rows t d n db, w', Inr True) else (db, w', Inl Sqlx)))"

section \<open>A cycle and the loop\<close>

definition eligible :: "reaper_config \<Rightarrow> nat \<Rightarrow> rc_row \<Rightarrow> bool" where
  "eligible cfg now row \<longleftrightarrow> refcount row = 0 \<and>
    (case zeroed_at row of None \<Rightarrow> False | Some z \<Rightarrow> z + grace cfg < now)"

definition candidates :: "reaper_config \<Rightarrow> nat \<Rightarrow> gc_db \<Rightarrow> (string \<times> string \<times> int) list" where
  "candidates cfg now db = map (\<lambda>((t, d), row). (t, d, rc_bytes row))
     (take (nat (batch_size cfg)) (sort_key (\<lambda>(_, row). the (zeroed_at row))
        (filter (\<lambda>(_, row). eligible cfg now row) (refcounts db))))"

record reap_env =
  interrupted :: bool
  tx_reads :: bool
  tx_commits :: bool

definition wrap_i64 :: "int \<Rightarrow> int" where
  "wrap_i64 n = (n + 2 ^ 63) mod 2 ^ 64 - 2 ^ 63"

fun reap_loop :: "('w, 'h, 'u) store_ops \<Rightarrow> (nat \<Rightarrow> reap_env) \<Rightarrow> nat \<Rightarrow> (string \<times> string \<times> int) list \<Rightarrow>
    gc_db \<Rightarrow> 'w \<Rightarrow> cycle_result \<Rightarrow> gc_db \<times> 'w \<times> cycle_result" where
  "reap_loop S env i [] db w res = (db, w, res)"
| "reap_loop S env i ((t, d, n) # cs) db w res =
    (if interrupted (env i) then (db, w, res)
     else (case reap_blob S (tx_reads (env i)) (tx_commits (env i)) t d n db w of
       (db', w', Inr True) \<Rightarrow> reap_loop S env (Suc i) cs db' w'
          (res\<lparr>cr_blobs := cr_blobs res + 1, cr_bytes := wrap_i64 (cr_bytes res + n)\<rparr>)
     | (db', w', Inr False) \<Rightarrow> reap_loop S env (Suc i) cs db' w' res
     | (db', w', Inl _) \<Rightarrow> reap_loop S env (Suc i) cs db' w' (res\<lparr>cr_errors := cr_errors res + 1\<rparr>)))"

definition reap_one_cycle :: "('w, 'h, 'u) store_ops \<Rightarrow> reaper_config \<Rightarrow> bool \<Rightarrow> (nat \<Rightarrow> reap_env) \<Rightarrow> nat \<Rightarrow>
    gc_db \<Rightarrow> 'w \<Rightarrow> gc_db \<times> 'w \<times> (gc_error, cycle_result) result" where
  "reap_one_cycle S cfg select_ok env now db w =
    (if \<not> select_ok \<or> batch_size cfg < 0 then (db, w, Inl Sqlx)
     else (let cs = candidates cfg now db in
       if cs = [] then (db, w, Inr cycle_default)
       else (case reap_loop S env 0 cs db w cycle_default of (db', w', res) \<Rightarrow> (db', w', Inr res))))"

record cycle_env =
  ce_control :: reaper_control
  ce_select_ok :: bool
  ce_env :: "nat \<Rightarrow> reap_env"
  ce_now :: nat

text \<open>
  The long-running loop, over the control flags and outcomes it meets in each turn;
  the sleeps do not change the state.
\<close>

fun reaper_run :: "('w, 'h, 'u) store_ops \<Rightarrow> reaper_config \<Rightarrow> cycle_env list \<Rightarrow> gc_db \<Rightarrow> 'w \<Rightarrow> reaper_stats \<Rightarrow>
    gc_db \<times> 'w \<times> reaper_stats" where
  "reaper_run S cfg [] db w st = (db, w, st)"
| "reaper_run S cfg (e # es) db w st =
    (if stop (ce_control e) then (db, w, st)
     else (let st1 = st\<lparr>cycles := cycles st + 1\<rparr> in
       if paused (ce_control e)
       then reaper_run S cfg es db w (st1\<lparr>paused_cycles := paused_cycles st1 + 1\<rparr>)
       else (case reap_one_cycle S cfg (ce_select_ok e) (ce_env e) (ce_now e) db w of
         (db', w', Inr res) \<Rightarrow> reaper_run S cfg es db' w'
           (st1\<lparr>blobs_reaped := blobs_reaped st1 + cr_blobs res,
                bytes_freed := nat ((int (bytes_freed st1) + cr_bytes res) mod 2 ^ 64)\<rparr>)
       | (db', w', Inl _) \<Rightarrow> reaper_run S cfg es db' w' (st1\<lparr>stat_errors := stat_errors st1 + 1\<rparr>))))"

section \<open>Reaping keeps the invariant\<close>

lemma reap_key_blob_path: "reap_key d (t, p, r) = blob_path t p r d"
  by (simp add: reap_key_def blob_path_def)

lemma drop_rows_simps [simp]:
  "edges (drop_rows t d n db) = edges db"
  "gc_drift (drop_rows t d n db) = gc_drift db"
  "map_of (refcounts (drop_rows t d n db)) = (map_of (refcounts db))((t, d) := None)"
  by (simp_all add: drop_rows_def AList.delete_conv')

lemma drop_rows_inv:
  assumes inv: "gc_inv db" and row: "map_of (refcounts db) (t, d) = Some r" "refcount r = 0"
  shows "gc_inv (drop_rows t d n db)"
proof (rule gc_invI)
  note invs = gc_invD [OF inv]
  have none: "edge_count db (t, d) = 0"
    using invs(3) [of "(t, d)"] row by (simp add: row_ok_def)
  show "keys_ok (drop_rows t d n db)"
    using invs(1) by (simp add: keys_ok_def drop_rows_def distinct_delete)
  have "(t, m, d) \<notin> set (edges db)" for m
    using none edge_count_pos_iff [of db t d] by auto
  then show "paths_ok (drop_rows t d n db)"
    using invs(2) by (fastforce simp: paths_ok_def drop_rows_def)
  show "row_ok (drop_rows t d n db) k" for k
    using invs(3) [of k] none edge_count_cong [of "drop_rows t d n db" db]
    by (auto simp: row_ok_def split: option.splits)
qed

lemma reap_blob_cases:
  assumes "reap_blob S reads commits t d n db w = (db', w', x)"
  obtains (skip) "db' = db" "w' = w" "x \<noteq> Inr True"
  | (failed) "map_option refcount (map_of (refcounts db) (t, d)) = Some 0" "db' = db" "x = Inl Sqlx"
      "delete_objects S d (paths_of db (t, d)) w = (w', Inl Sqlx) \<or>
       (delete_objects S d (paths_of db (t, d)) w = (w', Inr ()) \<and> \<not> commits)"
  | (reaped) "map_option refcount (map_of (refcounts db) (t, d)) = Some 0"
      "db' = drop_rows t d n db" "x = Inr True" "commits"
      "delete_objects S d (paths_of db (t, d)) w = (w', Inr ())"
proof -
  obtain w1 y where del: "delete_objects S d (paths_of db (t, d)) w = (w1, y)"
    by fastforce
  show thesis
  proof (cases "reads \<and> map_option refcount (map_of (refcounts db) (t, d)) = Some 0")
    case False
    then have "db' = db \<and> w' = w \<and> x \<noteq> Inr True"
      using assms by (auto simp: reap_blob_def split: if_splits)
    then show thesis using skip by simp
  next
    case True
    then have eq: "(db', w', x) = (case y of Inl e \<Rightarrow> (db, w1, Inl e)
        | Inr _ \<Rightarrow> if commits then (drop_rows t d n db, w1, Inr True) else (db, w1, Inl Sqlx))"
      using assms del by (simp add: reap_blob_def)
    show thesis
    proof (cases y)
      case (Inl e)
      moreover have "e = Sqlx" by (cases e)
      ultimately show thesis
        using failed True eq del by simp
    next
      case (Inr u)
      then have del: "delete_objects S d (paths_of db (t, d)) w = (w1, Inr ())"
        using del by simp
      show thesis
      proof (cases commits)
        case True': True
        then have "db' = drop_rows t d n db" "w' = w1" "x = Inr True"
          using eq Inr by simp_all
        then show thesis
          using reaped True True' del by blast
      next
        case False
        then have "db' = db" "w' = w1" "x = Inl Sqlx"
          using eq Inr by simp_all
        then show thesis
          using failed True False del by blast
      qed
    qed
  qed
qed

lemma reap_blob_inv:
  assumes "gc_inv db" "reap_blob S reads commits t d n db w = (db', w', x)"
  shows "gc_inv db'"
  using assms(2) by (cases rule: reap_blob_cases) (use assms(1) drop_rows_inv in auto)

lemma reap_blob_edges:
  "reap_blob S reads commits t d n db w = (db', w', x) \<Longrightarrow> edges db' = edges db"
  by (erule reap_blob_cases) simp_all

section \<open>What reaping does to the store\<close>

context object_store
begin

lemma delete_objects_view:
  assumes "delete_objects S d paths w = (w', r)"
  shows "(q \<notin> (\<lambda>tpr. os_path S (reap_key d tpr)) ` set paths \<longrightarrow> view w' q = view w q) \<and>
    (view w' q = view w q \<or> view w' q = None) \<and>
    (r = Inr () \<longrightarrow> q \<in> (\<lambda>tpr. os_path S (reap_key d tpr)) ` set paths \<longrightarrow> view w' q = None)"
  using assms
proof (induction paths arbitrary: w)
  case (Cons tpr paths)
  let ?k = "os_path S (reap_key d tpr)"
  obtain w1 x where del: "os_delete S ?k w = (w1, x)"
    by fastforce
  consider (cont) "x = Inr () \<or> x = Inl NotFound" "delete_objects S d paths w1 = (w', r)"
    | (stop) e where "x = Inl e" "w' = w1" "r = Inl Sqlx"
    using Cons.prems del by (cases x) (auto split: os_error.splits)
  then show ?case
  proof cases
    case cont
    then have "view w1 = (view w)(?k := None)"
      using delete_ok delete_absent del by auto
    with Cons.IH [OF cont(2)] show ?thesis by auto
  next
    case stop
    then show ?thesis
      using delete_err [of ?k w w1 e] del by (auto simp: maybe_delete_def split: if_splits)
  qed
qed auto

end

text \<open>The keys a registry writes: plain path segments and digests written \<open>sha256:<hex>\<close>.\<close>

definition canonical_digest :: "string \<Rightarrow> bool" where
  "canonical_digest d \<longleftrightarrow> (case strip_prefix ''sha256:'' d of None \<Rightarrow> False | Some hex \<Rightarrow> plain_seg hex)"

definition canonical_path :: "string \<times> string \<times> string \<times> string \<Rightarrow> bool" where
  "canonical_path = (\<lambda>(t, p, r, d). plain_seg t \<and> plain_seg p \<and> plain_seg r \<and> canonical_digest d)"

lemma canonical_digestE:
  assumes "canonical_digest d"
  obtains hex where "d = ''sha256:'' @ hex" "plain_seg hex"
  using assms by (auto simp: canonical_digest_def strip_prefix_iff split: option.splits)

lemma canonical_segs:
  assumes "canonical_path (t, p, r, d)"
  shows "list_all plain_seg [t, p, r, ''blobs'', ''sha256'', strip_prefix_or ''sha256:'' d]"
  using assms by (auto simp: canonical_path_def strip_prefix_or_def elim!: canonical_digestE)

lemma canonical_plain:
  "canonical_path (t, p, r, d) \<Longrightarrow> plain_key (blob_path t p r d)"
  unfolding blob_path_join by (rule plain_key_join) (use canonical_segs in auto)

lemma blob_path_inj:
  assumes "canonical_path (t, p, r, d)" "canonical_path (t', p', r', d')"
    and "blob_path t p r d = blob_path t' p' r' d'"
  shows "(t, p, r, d) = (t', p', r', d')"
proof -
  obtain h h' where "d = ''sha256:'' @ h" "d' = ''sha256:'' @ h'"
    using assms(1,2) by (auto simp: canonical_path_def elim!: canonical_digestE)
  then show ?thesis
    using assms(3) plain_join_inj [OF canonical_segs [OF assms(1)] canonical_segs [OF assms(2)]]
    unfolding blob_path_join by (simp add: strip_prefix_or_def)
qed

context object_store
begin

lemma reaped_keys:
  assumes "list_all canonical_path (blob_paths db)"
  shows "(\<lambda>tpr. os_path S (reap_key d tpr)) ` set (paths_of db (t, d)) =
    {blob_path t p r d | p r. (t, p, r, d) \<in> set (blob_paths db)}"
proof -
  have "os_path S (reap_key d (t, p, r)) = blob_path t p r d" if "(t, p, r, d) \<in> set (blob_paths db)" for p r
    using assms that by (simp add: reap_key_blob_path path_plain canonical_plain list_all_iff)
  then show ?thesis
    by (force simp: paths_of_def image_iff)
qed

lemma reap_blob_view:
  assumes "reap_blob S reads commits t d n db w = (db', w', x)" "list_all canonical_path (blob_paths db)"
  shows "view w' q = view w q \<or> (view w' q = None \<and> map_option refcount (map_of (refcounts db) (t, d)) = Some 0 \<and>
    (\<exists>p r. (t, p, r, d) \<in> set (blob_paths db) \<and> q = blob_path t p r d))"
proof -
  have del: "view w' q = view w q \<or> view w' q = None \<and> q \<in> {blob_path t p r d | p r. (t, p, r, d) \<in> set (blob_paths db)}"
    if "delete_objects S d (paths_of db (t, d)) w = (w', y)" for y
    using delete_objects_view [OF that, of q] unfolding reaped_keys [OF assms(2)] by blast
  show ?thesis
    using assms(1) by (cases rule: reap_blob_cases) (use del in blast)+
qed

lemma reap_blob_safe:
  assumes "gc_inv db" "list_all canonical_path (blob_paths db)"
    and "reap_blob S reads commits t d n db w = (db', w', x)"
    and "(t', m, d') \<in> set (edges db)" "canonical_path (t', p, r, d')"
  shows "view w' (blob_path t' p r d') = view w (blob_path t' p r d')"
proof -
  obtain row where "map_of (refcounts db) (t', d') = Some row" "0 < refcount row"
    using referenced_row [OF assms(1,4)] by blast
  moreover have "(t, d) = (t', d')"
    if "(t, p', r', d) \<in> set (blob_paths db)" "blob_path t' p r d' = blob_path t p' r' d" for p' r'
    using blob_path_inj [OF assms(5) _ that(2)] that(1) assms(2) by (auto simp: list_all_iff)
  ultimately show ?thesis
    using reap_blob_view [OF assms(3,2), of "blob_path t' p r d'"] by force
qed

end

section \<open>Cycles and the loop\<close>

definition reap_closed :: "('w, 'h, 'u) store_ops \<Rightarrow> (gc_db \<Rightarrow> 'w \<Rightarrow> bool) \<Rightarrow> bool" where
  "reap_closed S P \<longleftrightarrow> (\<forall>db w reads commits t d n db' w' x.
     P db w \<longrightarrow> reap_blob S reads commits t d n db w = (db', w', x) \<longrightarrow> P db' w')"

lemma reap_closedD:
  "reap_closed S P \<Longrightarrow> P db w \<Longrightarrow> reap_blob S reads commits t d n db w = (db', w', x) \<Longrightarrow> P db' w'"
  unfolding reap_closed_def by blast

lemma reap_loop_invariant:
  assumes "reap_closed S P"
  shows "P db w \<Longrightarrow> reap_loop S env i cs db w res = (db', w', res') \<Longrightarrow> P db' w'"
proof (induction cs arbitrary: i db w res)
  case (Cons c cs)
  obtain t d n where c: "c = (t, d, n)"
    by (cases c)
  obtain db1 w1 x where r: "reap_blob S (tx_reads (env i)) (tx_commits (env i)) t d n db w = (db1, w1, x)"
    by (metis prod_cases3)
  have "P db1 w1"
    by (rule reap_closedD [OF assms Cons.prems(1) r])
  then show ?case
    using Cons.prems r
    by (auto simp: c split: if_splits sum.splits bool.splits intro: Cons.IH)
qed auto

lemma reap_cycle_invariant:
  assumes "reap_closed S P" "P db w" "reap_one_cycle S cfg ok env now db w = (db', w', x)"
  shows "P db' w'"
proof -
  obtain db1 w1 r1 where loop: "reap_loop S env 0 (candidates cfg now db) db w cycle_default = (db1, w1, r1)"
    by (metis prod_cases3)
  have "P db1 w1"
    by (rule reap_loop_invariant [OF assms(1,2) loop])
  then show ?thesis
    using assms(2,3) loop by (auto simp: reap_one_cycle_def Let_def split: if_splits)
qed

lemma reaper_run_invariant:
  assumes "reap_closed S P"
  shows "P db w \<Longrightarrow> reaper_run S cfg es db w st = (db', w', st') \<Longrightarrow> P db' w'"
proof (induction es arbitrary: db w st)
  case (Cons e es)
  obtain db1 w1 x where r: "reap_one_cycle S cfg (ce_select_ok e) (ce_env e) (ce_now e) db w = (db1, w1, x)"
    by (metis prod_cases3)
  have "P db1 w1"
    by (rule reap_cycle_invariant [OF assms Cons.prems(1) r])
  then show ?case
    using Cons.prems r by (auto simp: Let_def split: if_splits sum.splits intro: Cons.IH)
qed auto

lemma reap_blob_canonical:
  "reap_blob S reads commits t d n db w = (db', w', x) \<Longrightarrow> list_all canonical_path (blob_paths db) \<Longrightarrow>
    list_all canonical_path (blob_paths db')"
  by (erule reap_blob_cases) (auto simp: drop_rows_def list_all_iff)

context object_store
begin

lemma reaper_run_safe:
  assumes "gc_inv db" "list_all canonical_path (blob_paths db)"
    and "(t, m, d) \<in> set (edges db)" "canonical_path (t, p, r, d)"
    and run: "reaper_run S cfg es db w st = (db', w', st')"
  shows "gc_inv db' \<and> edges db' = edges db \<and> view w' (blob_path t p r d) = view w (blob_path t p r d)"
proof -
  let ?P = "\<lambda>db1 w1. gc_inv db1 \<and> list_all canonical_path (blob_paths db1) \<and> edges db1 = edges db \<and>
    view w1 (blob_path t p r d) = view w (blob_path t p r d)"
  have "reap_closed S ?P"
    unfolding reap_closed_def
  proof (intro allI impI, goal_cases)
    case (1 db1 w1 reads commits t1 d1 n db2 w2 x)
    then show ?case
      using assms(3,4) reap_blob_inv [OF _ 1(2)] reap_blob_canonical [OF 1(2)] reap_blob_edges [OF 1(2)]
        reap_blob_safe [OF _ _ 1(2), of t m d p r] by simp
  qed
  from reaper_run_invariant [OF this _ run] assms have "?P db' w'"
    by simp
  then show ?thesis by simp
qed

end

section \<open>Progress\<close>

definition quiet :: "reap_env \<Rightarrow> bool" where
  "quiet e \<longleftrightarrow> \<not> interrupted e \<and> tx_reads e \<and> tx_commits e"

definition healthy_deletes :: "('w, 'h, 'u) store_ops \<Rightarrow> ('w \<Rightarrow> bool) \<Rightarrow> bool" where
  "healthy_deletes S H \<longleftrightarrow> (\<forall>p w. H w \<longrightarrow> (\<exists>w'. H w' \<and>
     (os_delete S p w = (w', Inr ()) \<or> os_delete S p w = (w', Inl NotFound))))"

lemma delete_objects_healthy:
  assumes "healthy_deletes S H" "H w"
  shows "\<exists>w'. H w' \<and> delete_objects S d paths w = (w', Inr ())"
  using assms(2)
proof (induction paths arbitrary: w)
  case (Cons tpr paths)
  obtain w1 where "H w1" "os_delete S (os_path S (reap_key d tpr)) w = (w1, Inr ()) \<or>
      os_delete S (os_path S (reap_key d tpr)) w = (w1, Inl NotFound)"
    using assms(1) Cons.prems unfolding healthy_deletes_def by blast
  with Cons.IH [of w1] show ?case by auto
qed auto

abbreviation cand_key :: "string \<times> string \<times> int \<Rightarrow> string \<times> string" where
  "cand_key \<equiv> (\<lambda>(t, d, n). (t, d))"

text \<open>All candidates dropped: the tables after a quiet batch.\<close>

definition drop_all :: "(string \<times> string \<times> int) list \<Rightarrow> gc_db \<Rightarrow> gc_db" where
  "drop_all cs db = fold (\<lambda>(t, d, n). drop_rows t d n) cs db"

context object_store
begin

lemma reap_loop_quiet:
  assumes "healthy_deletes S H" "\<forall>j. quiet (env j)"
  shows "H w \<Longrightarrow> distinct (map cand_key cs) \<Longrightarrow> list_all canonical_path (blob_paths db) \<Longrightarrow>
    (\<forall>c \<in> set cs. map_option refcount (map_of (refcounts db) (cand_key c)) = Some 0) \<Longrightarrow>
    \<exists>w' res'. reap_loop S env i cs db w res = (drop_all cs db, w', res') \<and> H w' \<and>
      cr_blobs res' = cr_blobs res + length cs \<and> cr_errors res' = cr_errors res \<and>
      (\<forall>q. view w' q = (if \<exists>t p r d. (t, p, r, d) \<in> set (blob_paths db) \<and> (t, d) \<in> cand_key ` set cs \<and>
         q = blob_path t p r d then None else view w q))"
proof (induction cs arbitrary: i db w res)
  case (Cons c cs)
  obtain t d n where c: "c = (t, d, n)"
    by (cases c)
  have zero: "map_option refcount (map_of (refcounts db) (t, d)) = Some 0"
    using Cons.prems(4) c by simp
  obtain w1 where w1: "H w1" "delete_objects S d (paths_of db (t, d)) w = (w1, Inr ())"
    using delete_objects_healthy [OF assms(1) Cons.prems(1)] by blast
  let ?db1 = "drop_rows t d n db"
    and ?res1 = "res\<lparr>cr_blobs := cr_blobs res + 1, cr_bytes := wrap_i64 (cr_bytes res + n)\<rparr>"
  have step: "reap_loop S env i (c # cs) db w res = reap_loop S env (Suc i) cs ?db1 w1 ?res1"
    using assms(2) zero w1(2) by (simp add: c reap_blob_def quiet_def)
  have v1: "view w1 q = (if \<exists>p r. (t, p, r, d) \<in> set (blob_paths db) \<and> q = blob_path t p r d
      then None else view w q)" for q
    using delete_objects_view [OF w1(2), of q] unfolding reaped_keys [OF Cons.prems(3)] by auto
  have rest: "\<forall>c \<in> set cs. map_option refcount (map_of (refcounts ?db1) (cand_key c)) = Some 0"
    using Cons.prems(2,4) by (force simp: c)
  have "list_all canonical_path (blob_paths ?db1)"
    using Cons.prems(3) by (auto simp: drop_rows_def list_all_iff)
  with Cons.IH [of w1 ?db1 "Suc i" ?res1] w1(1) Cons.prems(2) rest
  obtain w' res' where IH: "reap_loop S env (Suc i) cs ?db1 w1 ?res1 = (drop_all cs ?db1, w', res')" "H w'"
      "cr_blobs res' = cr_blobs ?res1 + length cs" "cr_errors res' = cr_errors ?res1"
      "\<forall>q. view w' q = (if \<exists>t p r d. (t, p, r, d) \<in> set (blob_paths ?db1) \<and> (t, d) \<in> cand_key ` set cs \<and>
         q = blob_path t p r d then None else view w1 q)"
    by auto
  have keys: "(t', p', r', d') \<in> set (blob_paths ?db1) \<longleftrightarrow>
      (t', p', r', d') \<in> set (blob_paths db) \<and> (t', d') \<noteq> (t, d)" for t' p' r' d'
    by (auto simp: drop_rows_def)
  have "view w' q = (if \<exists>t p r d. (t, p, r, d) \<in> set (blob_paths db) \<and> (t, d) \<in> cand_key ` set (c # cs) \<and>
      q = blob_path t p r d then None else view w q)" for q
    using IH(5) v1 unfolding keys c by (simp, blast)
  with step IH show ?case
    by (simp add: c drop_all_def)
qed (auto simp: drop_all_def)

end

definition eligible_keys :: "reaper_config \<Rightarrow> nat \<Rightarrow> gc_db \<Rightarrow> (string \<times> string) set" where
  "eligible_keys cfg now db = {k. \<exists>row. map_of (refcounts db) k = Some row \<and> eligible cfg now row}"

lemma cand_key_candidates:
  "map cand_key (candidates cfg now db) = map fst
     (take (nat (batch_size cfg)) (sort_key (\<lambda>(_, row). the (zeroed_at row))
        (filter (\<lambda>(_, row). eligible cfg now row) (refcounts db))))"
  by (simp add: candidates_def case_prod_unfold)

lemma distinct_candidates:
  assumes "distinct (map fst (refcounts db))"
  shows "distinct (map cand_key (candidates cfg now db))"
proof -
  have "distinct (map fst (filter (\<lambda>(_, row). eligible cfg now row) (refcounts db)))"
    using assms by (simp add: distinct_map_filter)
  then have "distinct (map fst (sort_key (\<lambda>(_, row). the (zeroed_at row))
      (filter (\<lambda>(_, row). eligible cfg now row) (refcounts db))))"
    by (simp add: distinct_map)
  then show ?thesis
    unfolding cand_key_candidates by (simp add: take_map [symmetric])
qed

lemma eligible_rows:
  assumes "distinct (map fst (refcounts db))"
  shows "fst ` set (filter (\<lambda>(_, row). eligible cfg now row) (refcounts db)) = eligible_keys cfg now db"
  unfolding eligible_keys_def map_of_eq_Some_iff [OF assms] by force

lemma candidates_all:
  assumes "distinct (map fst (refcounts db))"
    and "int (length (filter (\<lambda>(_, row). eligible cfg now row) (refcounts db))) \<le> batch_size cfg"
  shows "cand_key ` set (candidates cfg now db) = eligible_keys cfg now db"
    and "length (candidates cfg now db) = length (filter (\<lambda>(_, row). eligible cfg now row) (refcounts db))"
proof -
  let ?es = "filter (\<lambda>(_, row). eligible cfg now row) (refcounts db)"
  have n: "length ?es \<le> nat (batch_size cfg)"
    using assms(2) by linarith
  then have "map cand_key (candidates cfg now db) = map fst (sort_key (\<lambda>(_, row). the (zeroed_at row)) ?es)"
    unfolding cand_key_candidates by simp
  then have "set (map cand_key (candidates cfg now db)) = fst ` set ?es"
    by simp
  then show "cand_key ` set (candidates cfg now db) = eligible_keys cfg now db"
    using eligible_rows [OF assms(1)] by simp
  show "length (candidates cfg now db) = length ?es"
    using n by (simp add: candidates_def)
qed

lemma drop_all_rows:
  "map_of (refcounts (drop_all cs db)) k = (if k \<in> cand_key ` set cs then None else map_of (refcounts db) k)"
  by (induction cs arbitrary: db) (auto simp: drop_all_def)

lemma drop_all_edges [simp]: "edges (drop_all cs db) = edges db"
  by (induction cs arbitrary: db) (auto simp: drop_all_def)

lemma drop_all_paths:
  "blob_paths (drop_all cs db) = filter (\<lambda>(t, p, r, d). (t, d) \<notin> cand_key ` set cs) (blob_paths db)"
proof (induction cs arbitrary: db)
  case (Cons c cs)
  have "blob_paths (drop_all (c # cs) db) =
      filter (\<lambda>(t, p, r, d). (t, d) \<notin> cand_key ` set cs) (filter (\<lambda>(t, p, r, d). (t, d) \<noteq> cand_key c) (blob_paths db))"
    using Cons.IH by (simp add: drop_all_def drop_rows_def split_beta)
  then show ?case
    by (auto intro!: filter_cong)
qed (simp add: drop_all_def)

context object_store
begin

lemma reap_cycle_quiet:
  assumes inv: "keys_ok db" and can: "list_all canonical_path (blob_paths db)"
    and healthy: "healthy_deletes S H" "H w" and quiet: "\<forall>j. quiet (env j)"
    and batch: "int (length (filter (\<lambda>(_, row). eligible cfg now row) (refcounts db))) \<le> batch_size cfg"
  obtains db' w' res where "reap_one_cycle S cfg True env now db w = (db', w', Inr res)"
    "cr_errors res = 0"
    "cr_blobs res = length (filter (\<lambda>(_, row). eligible cfg now row) (refcounts db))"
    "edges db' = edges db"
    "blob_paths db' = filter (\<lambda>(t, p, r, d). (t, d) \<notin> eligible_keys cfg now db) (blob_paths db)"
    "\<And>k. map_of (refcounts db') k = (if k \<in> eligible_keys cfg now db then None else map_of (refcounts db) k)"
    "\<And>q. view w' q = (if \<exists>t p r d. (t, p, r, d) \<in> set (blob_paths db) \<and> (t, d) \<in> eligible_keys cfg now db \<and>
       q = blob_path t p r d then None else view w q)"
proof -
  let ?cs = "candidates cfg now db"
  have dist: "distinct (map fst (refcounts db))"
    using inv by (simp add: keys_ok_def)
  note all = candidates_all [OF dist batch]
  have zero: "\<forall>c \<in> set ?cs. map_option refcount (map_of (refcounts db) (cand_key c)) = Some 0"
    using all(1) by (force simp: eligible_keys_def eligible_def)
  obtain w' res where loop: "reap_loop S env 0 ?cs db w cycle_default = (drop_all ?cs db, w', res)"
    "cr_blobs res = length ?cs" "cr_errors res = 0"
    "\<forall>q. view w' q = (if \<exists>t p r d. (t, p, r, d) \<in> set (blob_paths db) \<and> (t, d) \<in> cand_key ` set ?cs \<and>
       q = blob_path t p r d then None else view w q)"
    using reap_loop_quiet [OF healthy(1) quiet healthy(2) distinct_candidates [OF dist] can zero,
        where i = 0 and res = cycle_default] by (auto simp: cycle_default_def)
  have "reap_one_cycle S cfg True env now db w = (drop_all ?cs db, w', Inr res)"
    using loop(1) batch by (auto simp: reap_one_cycle_def Let_def drop_all_def)
  then show thesis
    by (rule that) (use loop all drop_all_rows [of ?cs db] drop_all_paths [of ?cs db] in auto)
qed

end

section \<open>Pushes, deletes, uploads and the reaper interleaved\<close>

inductive gc_step :: "('w, 'h, 'u) store_ops \<Rightarrow> gc_db \<times> 'w \<Rightarrow> gc_db \<times> 'w \<Rightarrow> bool" for S where
  push: "gc_step S (db, w) (fst (add_refs commits now t p r m bs db), w)"
| delete: "gc_step S (db, w) (fst (remove_refs commits now t m db), w)"
| upload: "os_put S k data w = (w', x) \<Longrightarrow> gc_step S (db, w) (db, w')"
| reap: "reap_blob S reads commits t d n db w = (db', w', y) \<Longrightarrow> gc_step S (db, w) (db', w')"

inductive_cases gc_stepE: "gc_step S (db, w) (db', w')"

lemma gc_step_inv: "gc_step S (db, w) (db', w') \<Longrightarrow> gc_inv db \<Longrightarrow> gc_inv db'"
  by (erule gc_stepE) (auto simp: add_refs_inv remove_refs_inv reap_blob_inv)

lemma gc_steps_inv:
  assumes "(gc_step S)\<^sup>*\<^sup>* s s'" "gc_inv (fst s)"
  shows "gc_inv (fst s')"
  using assms by (induction rule: rtranclp_induct) (auto dest: gc_step_inv)

context object_store
begin

lemma gc_step_keeps_present:
  assumes "gc_step S (db, w) (db', w')" "gc_inv db" "list_all canonical_path (blob_paths db)"
    and "(t, m, d) \<in> set (edges db)" "canonical_path (t, p, r, d)"
    and "view w (blob_path t p r d) \<noteq> None"
  shows "view w' (blob_path t p r d) \<noteq> None"
  using assms(1)
proof (cases rule: gc_step.cases)
  case (upload k data x)
  then show ?thesis
    using assms(6) put_ok [of k data w w'] put_err [of k data w w'] by (cases x) (auto simp: maybe_put_def)
next
  case (reap reads commits t' d' n y)
  then show ?thesis
    using reap_blob_safe [OF assms(2,3) _ assms(4,5)] assms(6) by simp
qed (use assms(6) in auto)

end

section \<open>Properties\<close>

text \<open>C8. Whatever pushes, manifest deletes, uploads and reaps happen, in any order and with
  any of their transactions failing, every count in \<open>blob_refcounts\<close> is the number of
  manifests of the tenant with an edge to the blob, a blob without a row has no edge, and
  \<open>zeroed_at\<close> is set exactly on the rows with count zero.\<close>

theorem gc_counts_exact:
  assumes "(gc_step S)\<^sup>*\<^sup>* (empty_db, w0) (db, w)"
  shows "case map_of (refcounts db) (t, d) of
      None \<Rightarrow> {m. (t, m, d) \<in> set (edges db)} = {}
    | Some row \<Rightarrow> refcount row = card {m. (t, m, d) \<in> set (edges db)} \<and>
        (zeroed_at row = None \<longleftrightarrow> {m. (t, m, d) \<in> set (edges db)} \<noteq> {})"
proof -
  have inv: "gc_inv db"
    using gc_steps_inv [OF assms] gc_inv_empty by simp
  show ?thesis
    using gc_invD(3) [OF inv, of "(t, d)"] edge_count_card [OF gc_invD(1) [OF inv], of t d] edge_count_pos_iff [of db t d]
    by (auto simp: row_ok_def split: option.splits)
qed

text \<open>C7. In every state reached by reference transactions of pushes and deletes, uploads and
  reaps, no further such step removes the object of a blob to which the reference table still
  has an edge from a manifest of the tenant, even when the reaper works on a stale candidate
  or its transaction fails half way. Each transaction takes effect whole or not at all, the reconciler
  does not run, and the recorded paths and the digest are canonical: plain path segments
  and digests written with their \<open>sha256:\<close> prefix.\<close>

theorem gc_referenced_kept:
  assumes "object_store S view content target parts"
    and "(gc_step S)\<^sup>*\<^sup>* (empty_db, w0) (db, w)" "gc_step S (db, w) (db', w')"
    and "list_all canonical_path (blob_paths db)" "canonical_path (t, p, r, d)"
    and "(t, m, d) \<in> set (edges db)" "view w (blob_path t p r d) \<noteq> None"
  shows "view w' (blob_path t p r d) \<noteq> None"
  using object_store.gc_step_keeps_present [OF assms(1,3) _ assms(4,6,5,7)] gc_steps_inv [OF assms(2)]
    gc_inv_empty by simp

text \<open>C9. A cycle makes progress: when the store and the database answer, nobody pauses or stops the
  reaper, the recorded paths are canonical and the eligible blobs fit into one batch, one cycle
  removes every blob whose count has been zero for longer than the grace period: its count row,
  its path rows and the objects at all its recorded paths. It leaves every other count row, every
  other path row, all edges and every other object alone.\<close>

theorem reap_cycle_complete:
  assumes "object_store S view content target parts" "healthy_deletes S H" "H w"
    and "gc_inv db" "list_all canonical_path (blob_paths db)" "\<forall>j. quiet (env j)"
    and "int (length (filter (\<lambda>(_, row). eligible cfg now row) (refcounts db))) \<le> batch_size cfg"
  shows "\<exists>db' w' res. reap_one_cycle S cfg True env now db w = (db', w', Inr res) \<and> gc_inv db' \<and>
    cr_errors res = 0 \<and>
    cr_blobs res = length (filter (\<lambda>(_, row). eligible cfg now row) (refcounts db)) \<and>
    edges db' = edges db \<and>
    blob_paths db' = filter (\<lambda>(t, p, r, d). (t, d) \<notin> eligible_keys cfg now db) (blob_paths db) \<and>
    (\<forall>k. map_of (refcounts db') k = (if k \<in> eligible_keys cfg now db then None else map_of (refcounts db) k)) \<and>
    (\<forall>q. view w' q = (if \<exists>t p r d. (t, p, r, d) \<in> set (blob_paths db) \<and> (t, d) \<in> eligible_keys cfg now db \<and>
       q = blob_path t p r d then None else view w q))"
proof -
  obtain db' w' res where cycle: "reap_one_cycle S cfg True env now db w = (db', w', Inr res)"
    "cr_errors res = 0"
    "cr_blobs res = length (filter (\<lambda>(_, row). eligible cfg now row) (refcounts db))"
    "edges db' = edges db"
    "blob_paths db' = filter (\<lambda>(t, p, r, d). (t, d) \<notin> eligible_keys cfg now db) (blob_paths db)"
    "\<And>k. map_of (refcounts db') k = (if k \<in> eligible_keys cfg now db then None else map_of (refcounts db) k)"
    "\<And>q. view w' q = (if \<exists>t p r d. (t, p, r, d) \<in> set (blob_paths db) \<and> (t, d) \<in> eligible_keys cfg now db \<and>
       q = blob_path t p r d then None else view w q)"
    by (rule object_store.reap_cycle_quiet [OF assms(1) gc_invD(1) [OF assms(4)] assms(5,2,3,6,7)]) (rule that)
  have "reap_closed S (\<lambda>db _. gc_inv db)"
    unfolding reap_closed_def by (intro allI impI) (rule reap_blob_inv)
  then have "gc_inv db'"
    by (rule reap_cycle_invariant) (use assms(4) cycle(1) in auto)
  with cycle show ?thesis by auto
qed

section \<open>Instances\<close>

definition demo_blob :: blob_descriptor where
  "demo_blob = \<lparr>bd_digest = ''sha256:ab'', bd_size = 7\<rparr>"

definition demo_world :: mem_world where
  "demo_world = mem_init [(blob_path ''t'' ''p'' ''r1'' ''sha256:ab'', ''layer''),
     (blob_path ''t'' ''p'' ''r2'' ''sha256:ab'', ''layer''),
     (manifest_path ''t'' ''p'' ''r2'' ''sha256:m1'', ''index'')] []"

definition demo_pushed :: gc_db where
  "demo_pushed = fst (add_refs True 5 ''t'' ''p'' ''r1'' ''sha256:m1'' [demo_blob] empty_db)"

definition demo_config :: reaper_config where
  "demo_config = \<lparr>grace = 10, batch_size = 5, idle_sleep = 30, sweep_qps = 100\<rparr>"

definition demo_deleted :: gc_db where
  "demo_deleted = fst (remove_refs True 9 ''t'' ''sha256:m1'' demo_pushed)"

lemma demo_pushed_reachable: "(gc_step mem_store)\<^sup>*\<^sup>* (empty_db, demo_world) (demo_pushed, demo_world)"
  unfolding demo_pushed_def by (rule r_into_rtranclp) (rule gc_step.push)

lemma demo_pushed_row: "map_of (refcounts demo_pushed) (''t'', ''sha256:ab'') =
    Some \<lparr>refcount = 1, zeroed_at = None, last_seen_at = 5, rc_bytes = 7\<rparr>"
  by code_simp

lemma demo_deleted_rows: "refcounts demo_deleted =
    [((''t'', ''sha256:ab''), \<lparr>refcount = 0, zeroed_at = Some 9, last_seen_at = 9, rc_bytes = 7\<rparr>)]"
  by code_simp

lemma mem_healthy: "healthy_deletes mem_store (\<lambda>w. faults w = [])"
  by (auto simp: healthy_deletes_def mem_store_def mem_io_def next_fault_def)

theorem gc_counts_exact_witness:
  "card {m. (''t'', m, ''sha256:ab'') \<in> set (edges demo_pushed)} = 1"
  using gc_counts_exact [OF demo_pushed_reachable, of "''t''" "''sha256:ab''"]
  unfolding demo_pushed_row by simp

theorem gc_referenced_kept_witness:
  "mem_view (fst (snd (reap_blob mem_store True True ''t'' ''sha256:ab'' 7 demo_pushed demo_world)))
     (blob_path ''t'' ''p'' ''r1'' ''sha256:ab'') \<noteq> None"
proof (rule gc_referenced_kept [OF mem.object_store_axioms demo_pushed_reachable, where m = "''sha256:m1''"])
  show "gc_step mem_store (demo_pushed, demo_world)
      (fst (reap_blob mem_store True True ''t'' ''sha256:ab'' 7 demo_pushed demo_world),
       fst (snd (reap_blob mem_store True True ''t'' ''sha256:ab'' 7 demo_pushed demo_world)))"
    by (rule gc_step.reap) (rule prod_eqI; simp)+
  show "mem_view demo_world (blob_path ''t'' ''p'' ''r1'' ''sha256:ab'') \<noteq> None"
    by code_simp
qed code_simp+

theorem reap_cycle_complete_witness:
  "\<exists>db' w' res. reap_one_cycle mem_store reaper_config_default True
      (\<lambda>_. \<lparr>interrupted = False, tx_reads = True, tx_commits = True\<rparr>) 90000 demo_deleted demo_world
        = (db', w', Inr res) \<and> cr_blobs res = 1"
proof -
  have "(gc_step mem_store)\<^sup>*\<^sup>* (empty_db, demo_world) (demo_deleted, demo_world)"
    unfolding demo_deleted_def
    by (rule rtranclp.rtrancl_into_rtrancl [OF demo_pushed_reachable]) (rule gc_step.delete)
  then have inv: "gc_inv demo_deleted"
    using gc_steps_inv gc_inv_empty by fastforce
  have can: "list_all canonical_path (blob_paths demo_deleted)"
    by code_simp
  have n: "length (filter (\<lambda>(_, row). eligible reaper_config_default 90000 row) (refcounts demo_deleted)) = 1"
    unfolding demo_deleted_rows by (simp add: eligible_def reaper_config_default_def)
  have "\<forall>j::nat. quiet \<lparr>interrupted = False, tx_reads = True, tx_commits = True\<rparr>"
    by (simp add: quiet_def)
  from reap_cycle_complete [OF mem.object_store_axioms mem_healthy _ inv can this,
      where w = demo_world and now = 90000 and cfg = reaper_config_default] n
  show ?thesis
    by (force simp: reaper_config_default_def demo_world_def mem_init_def)
qed

section \<open>Two ways to lose a live blob\<close>

lemma manifest_path_not_blob:
  assumes "plain_seg t" "plain_seg p" "plain_seg r" "plain_seg m" "canonical_path (t', p', r', d)"
  shows "manifest_path t p r m \<noteq> blob_path t' p' r' d"
  using plain_join_inj [of "[t, p, r, ''manifests'', m]" "[t', p', r', ''blobs'', ''sha256'', strip_prefix_or ''sha256:'' d]"]
    assms(1-4) canonical_segs [OF assms(5)] unfolding manifest_path_join blob_path_join by simp

text \<open>C32. The edges carry no repository. When the same manifest is pushed to two repositories of a
  tenant and no other manifest references one of its blobs, deleting it from the first
  repository drops the count to zero, and the first cycle after the grace period deletes the
  blob of the second repository too, whose manifest object stays. The store and the
  database answer, the eligible blobs fit into one batch and all names are plain.\<close>

theorem shared_manifest_blob_lost:
  assumes "object_store S view content target parts" "healthy_deletes S H" "H w" "\<forall>j. quiet (env j)"
    and inv: "gc_inv db" "list_all canonical_path (blob_paths db)"
    and names: "list_all plain_seg [t, p, r, p', r', m]" "list_all (\<lambda>b. canonical_digest (bd_digest b)) bs"
    and only: "b \<in> set bs" "\<forall>m'. (t, m', bd_digest b) \<notin> set (edges db)"
    and pushes: "db1 = fst (add_refs True now1 t p r m bs db)" "db2 = fst (add_refs True now2 t p' r' m bs db1)"
    and delete: "db3 = fst (remove_refs True now3 t m db2)" "now3 + grace cfg < now"
    and batch: "int (length (filter (\<lambda>(_, row). eligible cfg now row) (refcounts db3))) \<le> batch_size cfg"
  shows "\<exists>db' w' res. reap_one_cycle S cfg True env now db3 w = (db', w', Inr res) \<and>
    view w' (blob_path t p' r' (bd_digest b)) = None \<and>
    view w' (manifest_path t p' r' m) = view w (manifest_path t p' r' m)"
proof -
  let ?d = "bd_digest b"
  have inv2: "gc_inv db2" and inv3: "gc_inv db3"
    unfolding delete(1) pushes by (simp_all add: inv(1) add_refs_inv remove_refs_inv)
  have edge: "(t, m, ?d) \<in> set (edges db2)" "(t, m', ?d) \<in> set (edges db2) \<Longrightarrow> m' = m" for m'
    using only unfolding pushes add_refs_tables by auto
  obtain row where "map_of (refcounts db3) (t, ?d) = Some row" "refcount row = 0" "zeroed_at row = Some now3"
    unfolding delete(1) by (rule remove_last_ref [OF inv2 edge])
  then have el: "(t, ?d) \<in> eligible_keys cfg now db3"
    using delete(2) by (simp add: eligible_keys_def eligible_def)
  have path: "(t, p', r', ?d) \<in> set (blob_paths db3)" and can: "list_all canonical_path (blob_paths db3)"
    using only(1) names inv(2) unfolding delete(1) remove_refs_paths pushes list_all_iff add_refs_tables
    by (auto simp: canonical_path_def)
  obtain db' w' res where cycle: "reap_one_cycle S cfg True env now db3 w = (db', w', Inr res)"
    "\<And>q. view w' q = (if \<exists>t p r d. (t, p, r, d) \<in> set (blob_paths db3) \<and> (t, d) \<in> eligible_keys cfg now db3 \<and>
       q = blob_path t p r d then None else view w q)"
    by (rule object_store.reap_cycle_quiet [OF assms(1) gc_invD(1) [OF inv3] can assms(2-4) batch]) (rule that)
  have "manifest_path t p' r' m \<noteq> blob_path t1 p1 r1 d1" if "(t1, p1, r1, d1) \<in> set (blob_paths db3)" for t1 p1 r1 d1
    using names(1) can that by (intro manifest_path_not_blob) (auto simp: list_all_iff)
  then have "view w' (manifest_path t p' r' m) = view w (manifest_path t p' r' m)"
    unfolding cycle(2) by auto
  moreover have "view w' (blob_path t p' r' ?d) = None"
    unfolding cycle(2) by (rule if_P) (use path el in blast)
  ultimately show ?thesis
    using cycle(1) by blast
qed

theorem shared_manifest_blob_lost_witness:
  "let db2 = fst (add_refs True 6 ''t'' ''p'' ''r2'' ''sha256:m1'' [demo_blob] demo_pushed);
       db3 = fst (remove_refs True 9 ''t'' ''sha256:m1'' db2);
       w' = fst (snd (reap_one_cycle mem_store demo_config True
         (\<lambda>_. \<lparr>interrupted = False, tx_reads = True, tx_commits = True\<rparr>) 30 db3 demo_world)) in
     mem_view demo_world (blob_path ''t'' ''p'' ''r2'' ''sha256:ab'') = Some ''layer'' \<and>
     mem_view w' (blob_path ''t'' ''p'' ''r2'' ''sha256:ab'') = None \<and>
     mem_view w' (manifest_path ''t'' ''p'' ''r2'' ''sha256:m1'') = Some ''index''"
proof -
  let ?db2 = "fst (add_refs True 6 ''t'' ''p'' ''r2'' ''sha256:m1'' [demo_blob] demo_pushed)"
  let ?db3 = "fst (remove_refs True 9 ''t'' ''sha256:m1'' ?db2)"
  have names: "list_all plain_seg [''t'', ''p'', ''r1'', ''p'', ''r2'', ''sha256:m1'']"
    "list_all (\<lambda>b. canonical_digest (bd_digest b)) [demo_blob]" "list_all canonical_path (blob_paths empty_db)"
    by code_simp+
  have rows: "refcounts ?db3 =
      [((''t'', ''sha256:ab''), \<lparr>refcount = 0, zeroed_at = Some 9, last_seen_at = 9, rc_bytes = 7\<rparr>)]"
    by code_simp
  have views: "mem_view demo_world (blob_path ''t'' ''p'' ''r2'' ''sha256:ab'') = Some ''layer''"
    "mem_view demo_world (manifest_path ''t'' ''p'' ''r2'' ''sha256:m1'') = Some ''index''"
    by code_simp+
  have b: "bd_digest demo_blob = ''sha256:ab''"
    by (simp add: demo_blob_def)
  have env: "\<forall>j::nat. quiet \<lparr>interrupted = False, tx_reads = True, tx_commits = True\<rparr>"
    by (simp add: quiet_def)
  have "\<exists>db' w' res. reap_one_cycle mem_store demo_config True
      (\<lambda>_. \<lparr>interrupted = False, tx_reads = True, tx_commits = True\<rparr>) 30 ?db3 demo_world = (db', w', Inr res) \<and>
    mem_view w' (blob_path ''t'' ''p'' ''r2'' (bd_digest demo_blob)) = None \<and>
    mem_view w' (manifest_path ''t'' ''p'' ''r2'' ''sha256:m1'') = mem_view demo_world (manifest_path ''t'' ''p'' ''r2'' ''sha256:m1'')"
    by (rule shared_manifest_blob_lost [OF mem.object_store_axioms mem_healthy _ env gc_inv_empty names(3,1,2) _ _ demo_pushed_def refl refl])
      (simp_all add: rows demo_world_def mem_init_def empty_db_def demo_config_def eligible_def)
  then show ?thesis
    using views unfolding b Let_def by auto
qed

text \<open>A manifest may write a digest without its \<open>sha256:\<close> prefix. Its row is a different
  blob for the counter but the same object for the reaper: once that manifest is deleted,
  the object of the prefixed digest goes although another manifest references it.\<close>

theorem bare_digest_alias_lost:
  "let bare = \<lparr>bd_digest = ''ab'', bd_size = 7\<rparr>;
       db1 = fst (add_refs True 6 ''t'' ''p'' ''r1'' ''sha256:m2'' [bare] demo_pushed);
       db2 = fst (remove_refs True 9 ''t'' ''sha256:m2'' db1);
       out = reap_one_cycle mem_store demo_config True
         (\<lambda>_. \<lparr>interrupted = False, tx_reads = True, tx_commits = True\<rparr>) 30 db2 demo_world in
     (''t'', ''sha256:m1'', ''sha256:ab'') \<in> set (edges (fst out)) \<and>
     mem_view (fst (snd out)) (blob_path ''t'' ''p'' ''r1'' ''sha256:ab'') = None"
  by code_simp

end
