(* ===== verification/Gc_Reconciler.thy ===== *)
theory Gc_Reconciler
  imports Gc_Reaper "HOL-Library.Multiset"
begin

text \<open>
  The reconciler of online garbage collection (\<open>specton-gc/src/reconciler.rs\<close>): it
  compares the counts with the edges, records the drift and, when asked, repairs it.
  The database's ordering of the digests is an argument (any permutation), as is which
  of its statements succeed. Its statements run outside a transaction, so the loop
  works on the rows of one query and on a database that may have moved on.
\<close>

record reconcile_stats =
  blobs_examined :: nat
  orphan_count :: nat
  missing_count :: nat
  underflow_count :: nat
  corrected :: nat

definition reconcile_stats_default :: reconcile_stats where
  "reconcile_stats_default =
    \<lparr>blobs_examined = 0, orphan_count = 0, missing_count = 0, underflow_count = 0, corrected = 0\<rparr>"

record reconcile_config =
  max_blobs :: "int option"
  apply_fix :: bool

definition reconcile_config_default :: reconcile_config where
  "reconcile_config_default = \<lparr>max_blobs = Some 10000, apply_fix = False\<rparr>"

section \<open>Statements\<close>

definition record_drift :: "string \<times> string \<Rightarrow> string \<Rightarrow> nat \<Rightarrow> nat \<Rightarrow> gc_db \<Rightarrow> gc_db" where
  "record_drift k kind expected observed db = db\<lparr>gc_drift := gc_drift db @
     [\<lparr>dr_tenant = fst k, dr_digest = snd k, dr_kind = kind, dr_expected = expected,
       dr_observed = observed, dr_corrected_at = None\<rparr>]\<rparr>"

definition fix_missing :: "nat \<Rightarrow> string \<times> string \<Rightarrow> nat \<Rightarrow> gc_db \<Rightarrow> gc_db" where
  "fix_missing now k expected db = db\<lparr>refcounts := AList.update k
     (case map_of (refcounts db) k of
        None \<Rightarrow> \<lparr>refcount = expected, zeroed_at = None, last_seen_at = now, rc_bytes = 0\<rparr>
      | Some r \<Rightarrow> r\<lparr>refcount := expected, zeroed_at := None, last_seen_at := now\<rparr>) (refcounts db)\<rparr>"

definition fix_orphan :: "nat \<Rightarrow> string \<times> string \<Rightarrow> gc_db \<Rightarrow> gc_db" where
  "fix_orphan now k = update_row k (\<lambda>r. r\<lparr>refcount := 0,
     zeroed_at := (case zeroed_at r of None \<Rightarrow> Some now | Some z \<Rightarrow> Some z)\<rparr>)"

definition fix_underflow :: "nat \<Rightarrow> string \<times> string \<Rightarrow> nat \<Rightarrow> gc_db \<Rightarrow> gc_db" where
  "fix_underflow now k expected = update_row k (\<lambda>r. r\<lparr>refcount := expected,
     zeroed_at := (if expected = 0 then Some now else None)\<rparr>)"

definition mark_drift_corrected :: "nat \<Rightarrow> string \<times> string \<Rightarrow> gc_db \<Rightarrow> gc_db \<times> nat" where
  "mark_drift_corrected now k db =
    (let open_row = (\<lambda>x. dr_tenant x = fst k \<and> dr_digest x = snd k \<and> dr_corrected_at x = None) in
     (db\<lparr>gc_drift := map (\<lambda>x. if open_row x then x\<lparr>dr_corrected_at := Some now\<rparr> else x) (gc_drift db)\<rparr>,
      length (filter open_row (gc_drift db))))"

definition reconcile_backfill :: "gc_db \<Rightarrow> gc_db \<times> (gc_error, reconcile_stats) result" where
  "reconcile_backfill db = (db, Inl Sqlx)"

section \<open>The pass\<close>

text \<open>A row of the query: digest, observed count, expected count.\<close>

type_synonym drift_candidate = "(string \<times> string) \<times> nat option \<times> nat"

definition known_digests :: "gc_db \<Rightarrow> (string \<times> string) list" where
  "known_digests db = remdups (map fst (refcounts db) @ map (\<lambda>(t, _, b). (t, b)) (edges db))"

definition reconcile_rows ::
  "((string \<times> string) list \<Rightarrow> (string \<times> string) list) \<Rightarrow> nat \<Rightarrow> gc_db \<Rightarrow> drift_candidate list" where
  "reconcile_rows order_by lim db =
    map (\<lambda>k. (k, map_option refcount (map_of (refcounts db) k), edge_count db k))
      (take lim (order_by (known_digests db)))"

definition classify :: "nat option \<Rightarrow> nat \<Rightarrow> string option" where
  "classify observed expected = (case observed of
     None \<Rightarrow> if 0 < expected then Some ''missing'' else None
   | Some o' \<Rightarrow> if expected = 0 \<and> 0 < o' then Some ''orphan''
       else if expected < o' then Some ''underflow'' else None)"

definition fix_drift :: "nat \<Rightarrow> string \<Rightarrow> string \<times> string \<Rightarrow> nat \<Rightarrow> gc_db \<Rightarrow> gc_db" where
  "fix_drift now kind k expected =
    (if kind = ''missing'' then fix_missing now k expected
     else if kind = ''orphan'' then fix_orphan now k else fix_underflow now k expected)"

definition count_drift :: "string \<Rightarrow> reconcile_stats \<Rightarrow> reconcile_stats" where
  "count_drift kind st =
    (if kind = ''missing'' then st\<lparr>missing_count := missing_count st + 1\<rparr>
     else if kind = ''orphan'' then st\<lparr>orphan_count := orphan_count st + 1\<rparr>
     else st\<lparr>underflow_count := underflow_count st + 1\<rparr>)"

text \<open>
  \<open>ok k\<close> tells whether recording and fixing \<open>k\<close> succeed; the first failure returns
  early, keeping what was written before it.
\<close>

fun reconcile_loop :: "bool \<Rightarrow> (string \<times> string \<Rightarrow> bool \<times> bool) \<Rightarrow> nat \<Rightarrow> drift_candidate list \<Rightarrow> gc_db \<Rightarrow>
    reconcile_stats \<Rightarrow> gc_db \<times> (gc_error, reconcile_stats) result" where
  "reconcile_loop fixing ok now [] db st = (db, Inr st)"
| "reconcile_loop fixing ok now ((k, observed, expected) # rows) db st =
    (let st1 = st\<lparr>blobs_examined := blobs_examined st + 1\<rparr> in
     case classify observed expected of
       None \<Rightarrow> reconcile_loop fixing ok now rows db st1
     | Some kind \<Rightarrow>
         if \<not> fst (ok k) then (db, Inl Sqlx)
         else (let db1 = record_drift k kind expected (case observed of None \<Rightarrow> 0 | Some o' \<Rightarrow> o') db;
                   st2 = count_drift kind st1 in
           if \<not> fixing then reconcile_loop fixing ok now rows db1 st2
           else if \<not> snd (ok k) then (db1, Inl Sqlx)
           else reconcile_loop fixing ok now rows (fix_drift now kind k expected db1)
             (st2\<lparr>corrected := corrected st2 + 1\<rparr>)))"

definition reconcile_limit :: "reconcile_config \<Rightarrow> int" where
  "reconcile_limit cfg = (case max_blobs cfg of None \<Rightarrow> 2 ^ 63 - 1 | Some n \<Rightarrow> n)"

definition reconcile :: "((string \<times> string) list \<Rightarrow> (string \<times> string) list) \<Rightarrow> bool \<Rightarrow>
    (string \<times> string \<Rightarrow> bool \<times> bool) \<Rightarrow> nat \<Rightarrow> reconcile_config \<Rightarrow> gc_db \<Rightarrow>
    gc_db \<times> (gc_error, reconcile_stats) result" where
  "reconcile order_by query_ok ok now cfg db =
    (if \<not> query_ok \<or> reconcile_limit cfg < 0 then (db, Inl Sqlx)
     else reconcile_loop (apply_fix cfg) ok now
       (reconcile_rows order_by (nat (reconcile_limit cfg)) db) db reconcile_stats_default)"

section \<open>What a pass repairs\<close>

lemma record_drift_keeps [simp]:
  "edges (record_drift k kind e x db) = edges db" "blob_paths (record_drift k kind e x db) = blob_paths db"
  "refcounts (record_drift k kind e x db) = refcounts db" "gc_reaps (record_drift k kind e x db) = gc_reaps db"
  by (simp_all add: record_drift_def)

lemmas fix_defs = fix_drift_def fix_missing_def fix_orphan_def fix_underflow_def

lemma fix_drift_keeps [simp]:
  "edges (fix_drift now kind k e db) = edges db" "blob_paths (fix_drift now kind k e db) = blob_paths db"
  "gc_drift (fix_drift now kind k e db) = gc_drift db"
  by (simp_all add: fix_defs)

definition repaired :: "nat \<Rightarrow> nat \<Rightarrow> rc_row option \<Rightarrow> rc_row option" where
  "repaired now e row = (case row of
     None \<Rightarrow> if 0 < e then Some \<lparr>refcount = e, zeroed_at = None, last_seen_at = now, rc_bytes = 0\<rparr> else None
   | Some r \<Rightarrow> if e = 0 \<and> 0 < refcount r then Some (r\<lparr>refcount := 0,
         zeroed_at := (case zeroed_at r of None \<Rightarrow> Some now | Some z \<Rightarrow> Some z)\<rparr>)
       else if e < refcount r then Some (r\<lparr>refcount := e, zeroed_at := None\<rparr>) else Some r)"

lemma fix_drift_row:
  assumes "classify (map_option refcount (map_of (refcounts db) k)) e = Some kind"
  shows "map_of (refcounts (fix_drift now kind k e db)) k' =
    (if k' = k then repaired now e (map_of (refcounts db) k) else map_of (refcounts db) k')"
  using assms
  by (auto simp: classify_def fix_defs repaired_def map_of_update_row update_conv
      split: option.splits if_splits)

lemma unclassified:
  "classify (map_option refcount row) e = None \<Longrightarrow> repaired now e row = row"
  by (auto simp: classify_def repaired_def split: option.splits if_splits)

lemma reconcile_loop_repairs:
  assumes "\<forall>k. ok k = (True, True)"
  shows "distinct ks \<Longrightarrow> (\<And>k. k \<in> set ks \<Longrightarrow> f k = map_option refcount (map_of (refcounts db) k)) \<Longrightarrow>
    \<exists>db' st'. reconcile_loop True ok now (map (\<lambda>k. (k, f k, e k)) ks) db st = (db', Inr st') \<and>
      edges db' = edges db \<and> blob_paths db' = blob_paths db \<and>
      (\<forall>k. map_of (refcounts db') k =
        (if k \<in> set ks then repaired now (e k) (map_of (refcounts db) k) else map_of (refcounts db) k))"
proof (induction ks arbitrary: db st)
  case (Cons a ks)
  show ?case
  proof (cases "classify (f a) (e a)")
    case None
    then have "repaired now (e a) (map_of (refcounts db) a) = map_of (refcounts db) a"
      using unclassified Cons.prems(2) by simp
    with Cons.IH [of db "st\<lparr>blobs_examined := blobs_examined st + 1\<rparr>"] Cons.prems None show ?thesis
      by fastforce
  next
    case (Some kind)
    define db1 where "db1 = record_drift a kind (e a) (case f a of None \<Rightarrow> 0 | Some o' \<Rightarrow> o') db"
    define db2 where "db2 = fix_drift now kind a (e a) db1"
    have rows: "map_of (refcounts db2) k =
        (if k = a then repaired now (e a) (map_of (refcounts db) a) else map_of (refcounts db) k)" for k
      using fix_drift_row [of db1 a "e a" kind now k] Some Cons.prems(2) [of a]
      by (simp add: db1_def db2_def)
    define st1 where "st1 = count_drift kind (st\<lparr>blobs_examined := blobs_examined st + 1\<rparr>)"
    have d: "distinct ks" "a \<notin> set ks"
      using Cons.prems(1) by simp_all
    have "f k = map_option refcount (map_of (refcounts db2) k)" if "k \<in> set ks" for k
      using that Cons.prems(2) [of k] d(2) rows by auto
    from Cons.IH [OF d(1) this, of "st1\<lparr>corrected := corrected st1 + 1\<rparr>"]
    obtain db' st' where IH: "reconcile_loop True ok now (map (\<lambda>k. (k, f k, e k)) ks) db2
        (st1\<lparr>corrected := corrected st1 + 1\<rparr>) = (db', Inr st')"
      "edges db' = edges db2" "blob_paths db' = blob_paths db2"
      "\<forall>k. map_of (refcounts db') k =
        (if k \<in> set ks then repaired now (e k) (map_of (refcounts db2) k) else map_of (refcounts db2) k)"
      by blast
    have "reconcile_loop True ok now (map (\<lambda>k. (k, f k, e k)) (a # ks)) db st = (db', Inr st')"
      using IH(1) Some spec [OF assms, of a] by (simp add: Let_def st1_def db1_def db2_def)
    moreover have "edges db' = edges db" "blob_paths db' = blob_paths db"
      using IH(2,3) by (simp_all add: db1_def db2_def)
    moreover have "map_of (refcounts db') k =
        (if k \<in> set (a # ks) then repaired now (e k) (map_of (refcounts db) k) else map_of (refcounts db) k)" for k
      using spec [OF IH(4), of k] rows [of k] d(2) by auto
    ultimately show ?thesis by blast
  qed
qed auto

lemma known_digests_complete:
  assumes "k \<notin> set (known_digests db)"
  shows "map_of (refcounts db) k = None" "edge_count db k = 0"
proof -
  show "map_of (refcounts db) k = None"
    using assms by (auto simp: known_digests_def map_of_eq_None_iff)
  have "\<not> (\<exists>m. (fst k, m, snd k) \<in> set (edges db))"
    using assms by (force simp: known_digests_def)
  then show "edge_count db k = 0"
    using edge_count_pos_iff [of db "fst k" "snd k"] by simp
qed

lemma reconcile_all:
  assumes perm: "\<forall>xs. mset (order_by xs) = mset xs" and ok: "\<forall>k. ok k = (True, True)"
    and cfg: "apply_fix cfg" "int (length (known_digests db)) \<le> reconcile_limit cfg"
  obtains db' st where "reconcile order_by True ok now cfg db = (db', Inr st)" "edges db' = edges db"
    "blob_paths db' = blob_paths db"
    "\<And>k. map_of (refcounts db') k = repaired now (edge_count db k) (map_of (refcounts db) k)"
proof -
  let ?ks = "order_by (known_digests db)"
  have m: "mset ?ks = mset (known_digests db)"
    using perm by simp
  then have d: "distinct ?ks" and s: "set ?ks = set (known_digests db)"
    by (metis distinct_remdups known_digests_def mset_eq_imp_distinct_iff) (metis m set_mset_mset)
  have "take (nat (reconcile_limit cfg)) ?ks = ?ks"
    using cfg(2) m size_mset [of ?ks] size_mset [of "known_digests db"] by simp
  then have rows: "reconcile_rows order_by (nat (reconcile_limit cfg)) db =
      map (\<lambda>k. (k, map_option refcount (map_of (refcounts db) k), edge_count db k)) ?ks"
    by (simp add: reconcile_rows_def)
  from reconcile_loop_repairs [OF ok d, where db = db and f = "\<lambda>k. map_option refcount (map_of (refcounts db) k)"
      and e = "edge_count db" and st = reconcile_stats_default and now = now]
  obtain db' st where loop: "reconcile_loop True ok now
      (map (\<lambda>k. (k, map_option refcount (map_of (refcounts db) k), edge_count db k)) ?ks) db
      reconcile_stats_default = (db', Inr st)"
    "edges db' = edges db" "blob_paths db' = blob_paths db"
    "\<forall>k. map_of (refcounts db') k = (if k \<in> set ?ks
       then repaired now (edge_count db k) (map_of (refcounts db) k) else map_of (refcounts db) k)"
    by blast
  have rec: "reconcile order_by True ok now cfg db = (db', Inr st)"
    using loop(1) rows cfg by (simp add: reconcile_def)
  have "map_of (refcounts db') k = repaired now (edge_count db k) (map_of (refcounts db) k)" for k
    using spec [OF loop(4), of k] known_digests_complete [of k db] s by (cases "k \<in> set ?ks") (auto simp: repaired_def)
  with rec loop(2,3) show thesis
    by (rule that)
qed

text \<open>C31. A repairing pass over all digests sets every count to the smaller of the recorded
  count and the number of edges, and creates the missing rows with the number of edges;
  the edges are not touched. A count below the number of edges stays as it is.\<close>

theorem reconcile_counts:
  assumes "\<forall>xs. mset (order_by xs) = mset xs" "\<forall>k. ok k = (True, True)"
    and "keys_ok db" "apply_fix cfg" "int (length (known_digests db)) \<le> reconcile_limit cfg"
  shows "\<exists>db' st. reconcile order_by True ok now cfg db = (db', Inr st) \<and> edges db' = edges db \<and>
    (\<forall>t d. let n = card {m. (t, m, d) \<in> set (edges db)} in
       map_option refcount (map_of (refcounts db') (t, d)) =
       (case map_of (refcounts db) (t, d) of
          None \<Rightarrow> if n = 0 then None else Some n
        | Some row \<Rightarrow> Some (min (refcount row) n)))"
proof -
  obtain db' st where "reconcile order_by True ok now cfg db = (db', Inr st)" "edges db' = edges db"
    and rows: "\<And>k. map_of (refcounts db') k = repaired now (edge_count db k) (map_of (refcounts db) k)"
    using reconcile_all [OF assms(1,2,4,5)] by metis
  moreover have "map_option refcount (repaired now (edge_count db (t, d)) row) =
      (case row of None \<Rightarrow> if edge_count db (t, d) = 0 then None else Some (edge_count db (t, d))
       | Some row \<Rightarrow> Some (min (refcount row) (edge_count db (t, d))))" for t d row
    by (auto simp: repaired_def split: option.splits)
  ultimately show ?thesis
    unfolding Let_def edge_count_card [OF assms(3), symmetric] by simp
qed

text \<open>Where no row counts too low, a repairing pass brings the tables back to the invariant
  the reaper relies on.\<close>

theorem reconcile_restores:
  assumes "\<forall>xs. mset (order_by xs) = mset xs" "\<forall>k. ok k = (True, True)"
    and "keys_ok db" "paths_ok db" "apply_fix cfg" "int (length (known_digests db)) \<le> reconcile_limit cfg"
    and rows: "\<forall>k row. map_of (refcounts db) k = Some row \<longrightarrow> edge_count db k \<le> refcount row \<and>
      (zeroed_at row = None \<longleftrightarrow> 0 < refcount row)"
  shows "\<exists>db' st. reconcile order_by True ok now cfg db = (db', Inr st) \<and> paths_ok db' \<and> (\<forall>k. row_ok db' k)"
proof -
  obtain db' st where rec: "reconcile order_by True ok now cfg db = (db', Inr st)" "edges db' = edges db"
    "blob_paths db' = blob_paths db"
    and new: "\<And>k. map_of (refcounts db') k = repaired now (edge_count db k) (map_of (refcounts db) k)"
    using reconcile_all [OF assms(1,2,5,6)] by metis
  have "row_ok db' k" for k
    using rows [rule_format, of k] edge_count_cong [OF rec(2)]
    by (cases "map_of (refcounts db) k") (auto simp: row_ok_def new repaired_def split: option.splits)
  moreover have "paths_ok db'"
    using assms(4) rec by (simp add: paths_ok_def)
  ultimately show ?thesis
    using rec(1) by blast
qed

section \<open>Instances and two repairs that lose a blob\<close>

definition drifted :: gc_db where
  "drifted = demo_pushed\<lparr>refcounts :=
     [((''t'', ''sha256:ab''), \<lparr>refcount = 3, zeroed_at = None, last_seen_at = 5, rc_bytes = 7\<rparr>)]\<rparr>"

definition fix_config :: reconcile_config where
  "fix_config = \<lparr>max_blobs = Some 5, apply_fix = True\<rparr>"

lemma drifted_facts:
  "keys_ok drifted" "int (length (known_digests drifted)) \<le> reconcile_limit fix_config" "apply_fix fix_config"
  "map_of (refcounts drifted) (''t'', ''sha256:ab'') =
    Some \<lparr>refcount = 3, zeroed_at = None, last_seen_at = 5, rc_bytes = 7\<rparr>"
  "edges drifted = [(''t'', ''sha256:m1'', ''sha256:ab'')]"
  by code_simp+

lemma drifted_paths: "paths_ok drifted"
proof -
  have "(''t'', ''p'', ''r1'', ''sha256:ab'') \<in> set (blob_paths drifted)"
    by code_simp
  then show ?thesis
    by (auto simp: paths_ok_def drifted_facts)
qed

theorem reconcile_counts_witness:
  "\<exists>db' st. reconcile rev True (\<lambda>_. (True, True)) 20 fix_config drifted = (db', Inr st) \<and>
    map_option refcount (map_of (refcounts db') (''t'', ''sha256:ab'')) = Some 1"
proof -
  have one: "card {m. (''t'', m, ''sha256:ab'') \<in> set (edges drifted)} = 1"
    by (simp add: drifted_facts)
  obtain db' st where "reconcile rev True (\<lambda>_. (True, True)) 20 fix_config drifted = (db', Inr st)"
    and rows: "\<forall>t d. let n = card {m. (t, m, d) \<in> set (edges drifted)} in
       map_option refcount (map_of (refcounts db') (t, d)) =
       (case map_of (refcounts drifted) (t, d) of
          None \<Rightarrow> if n = 0 then None else Some n | Some row \<Rightarrow> Some (min (refcount row) n))"
    using reconcile_counts [of rev "\<lambda>_. (True, True)", OF _ _ drifted_facts(1,3,2), of 20] by auto
  with rows [rule_format, of "''t''" "''sha256:ab''"] one show ?thesis
    by (simp add: Let_def drifted_facts(4))
qed

theorem reconcile_restores_witness:
  "\<exists>db' st. reconcile rev True (\<lambda>_. (True, True)) 20 fix_config drifted = (db', Inr st) \<and>
    (\<forall>k. row_ok db' k)"
proof -
  have "edge_count drifted k \<le> refcount row \<and> (zeroed_at row = None \<longleftrightarrow> 0 < refcount row)"
    if "map_of (refcounts drifted) k = Some row" for k row
    using that by (auto simp: drifted_def edge_count_def demo_pushed_def add_refs_def add_ref_def Let_def
        empty_db_def split: if_splits)
  then show ?thesis
    using reconcile_restores [of rev "\<lambda>_. (True, True)", OF _ _ drifted_facts(1) drifted_paths drifted_facts(3,2),
        of 20] by fastforce
qed

text \<open>A count below the number of edges is neither recorded nor repaired. With two manifests
  on a blob and a count of one, a repairing pass writes no drift row; deleting one manifest
  then makes the reaper delete the blob the other manifest still references.\<close>

theorem undercount_not_repaired:
  "let two = fst (add_refs True 6 ''t'' ''p'' ''r1'' ''sha256:m2'' [demo_blob] demo_pushed);
       low = two\<lparr>refcounts := refcounts demo_pushed\<rparr>;
       db1 = fst (reconcile id True (\<lambda>_. (True, True)) 7 fix_config low);
       db2 = fst (remove_refs True 9 ''t'' ''sha256:m2'' db1);
       out = reap_one_cycle mem_store demo_config True
         (\<lambda>_. \<lparr>interrupted = False, tx_reads = True, tx_commits = True\<rparr>) 30 db2 demo_world in
     gc_drift db1 = [] \<and> (''t'', ''sha256:m1'', ''sha256:ab'') \<in> set (edges (fst out)) \<and>
     mem_view (fst (snd out)) (blob_path ''t'' ''p'' ''r1'' ''sha256:ab'') = None"
  by code_simp

text \<open>The repairs write the counts of the query, not those of the moment. A push that lands
  between the query and the repair of an orphan row has its count set back to zero, and the
  reaper then deletes a blob that has just been pushed.\<close>

theorem reconcile_overwrites_push:
  "let orphan = demo_pushed\<lparr>edges := []\<rparr>;
       rows = reconcile_rows id 5 orphan;
       pushed = fst (add_refs True 6 ''t'' ''p'' ''r1'' ''sha256:m2'' [demo_blob] orphan);
       db1 = fst (reconcile_loop True (\<lambda>_. (True, True)) 7 rows pushed reconcile_stats_default);
       out = reap_one_cycle mem_store demo_config True
         (\<lambda>_. \<lparr>interrupted = False, tx_reads = True, tx_commits = True\<rparr>) 30 db1 demo_world in
     (''t'', ''sha256:m2'', ''sha256:ab'') \<in> set (edges (fst out)) \<and>
     mem_view (fst (snd out)) (blob_path ''t'' ''p'' ''r1'' ''sha256:ab'') = None"
  by code_simp

end
