(* ===== verification/Spec2Isabelle.thy ===== *)
theory Spec2Isabelle
  imports Registry_Behaviour Resilient_Store Gc_Reconciler
begin

text \<open>
  \<^bold>\<open>Specton CR: a verified model of the registry core\<close>

  Specton CR is a container registry written in Rust (crates below \<open>src/crates\<close>). Clients push and
  pull manifests and blobs over HTTP; everything is kept in an object store; Postgres holds reference
  counts, audit rows, signatures, policies and scan results. Around the request handlers run a garbage
  collector, a TTL reaper, a pull-through mirror, replication to other regions and a vulnerability scanner,
  whose results an admission gate consults on every pull.

  \<^bold>\<open>Conventions.\<close> Strings and bytes are both \<open>string\<close>, a list of 8-bit characters. A Rust \<open>Result\<close> is
  \<open>('e, 'a) result\<close>, that is \<open>'e + 'a\<close> with the error on the left; where a Rust function can panic, the model
  returns an \<open>option\<close> and \<open>None\<close> is the panic. State is passed explicitly. Crates and services
  that are not part of the sources (\<open>object_store\<close>, \<open>serde_json\<close>, \<open>semver\<close>, \<open>sigstore\<close>, HTTP, clocks, random
  numbers, SHA-256 and HMAC) are arguments of the definitions, mostly the fields of a record; what the code
  relies on is a named predicate or a locale, and each is discharged on a concrete instance.

  \<^bold>\<open>Base.\<close>
  \<^item> \<open>Prelude\<close>, \<open>Utf8\<close>, \<open>Json\<close>: \<open>Ordering\<close>, \<open>Result\<close>, the operations of \<open>str\<close> and \<open>[u8]\<close> the sources call,
    UTF-8 decoding, \<open>serde_json::Value\<close> and its accessors.
  \<^item> \<open>Object_Store\<close>: the store interface as the record \<open>store_ops\<close> over an abstract world and the locale
    \<open>object_store\<close> with its laws (an acknowledged write is what later reads return, a failed write leaves the
    old object or the new one, operations on one key leave the others alone). An in-memory store interprets it.
  \<^item> \<open>Common\<close> (\<open>specton-common\<close>): the keys of blobs, manifests, tag links and uploads, roles, actions, and
    the errors with their HTTP responses.

  \<^bold>\<open>Resilience\<close> (\<open>specton-resilience\<close>). \<open>Circuit_Breaker\<close> has the breaker for one call and, as the step
  relation \<open>breaker_step\<close>, for interleaved calls. \<open>Retry\<close> has the retry loop, whose recursion is on the
  attempts that remain. \<open>Multipart\<close> has \<open>put_chunked\<close> for every completion order of the parts, with 64-bit
  sizes. \<open>Resilient_Store\<close> wraps a store in both; a sublocale shows that the wrapper keeps the
  object-store contract.

  \<^bold>\<open>Garbage collection\<close> (\<open>specton-gc\<close>, tables of \<open>0004_online_gc.sql\<close>). \<open>Gc_Refcount\<close> has the digests a manifest
  references and \<open>add_refs\<close>/\<open>remove_refs\<close>; the locale \<open>ref_counter\<close> is their contract. \<open>Gc_Reaper\<close> has one
  blob, one cycle and the loop of the reaper; \<open>gc_step\<close> interleaves the reference transactions of pushes and
  deletes, uploads and reaps, including reaps of stale candidates and transactions that fail. A transaction takes
  effect whole or not at all. The reconciler (\<open>Gc_Reconciler\<close>) is not a step of \<open>gc_step\<close>: its statements run
  outside a transaction and can set a count below the number of edges, so its own effect is stated
  for a pass that nothing interrupts.

  \<^bold>\<open>Audit\<close> (\<open>specton-audit\<close>, \<open>specton-registry/src/audit.rs\<close>). \<open>Audit_Chain\<close> has events, row hashes and the
  in-memory sink, \<open>Audit_Postgres\<close> the columns of the table, the append as its two statements, verification
  and key rotation, \<open>Audit_Export\<close> Merkle roots, the JSONL export and checkpoints, \<open>Audit_Log\<close> the ring and the
  durable sink behind the locale \<open>audit_sink\<close>, which both sinks interpret. Row locks are not modelled:
  \<open>pg_tip\<close> is the query of the tip as of its snapshot, and an append made on its own runs it and the insert in turn.

  \<^bold>\<open>Scanner\<close> (\<open>specton-scanner\<close>). \<open>Version_Order\<close> has the contracts \<open>comparator\<close> and \<open>version_compare\<close>;
  \<open>Version_Apk\<close>, \<open>Version_Deb\<close>, \<open>Version_Pep440\<close>, \<open>Version_Rpm\<close> the parsers and comparisons of
  \<open>matcher/\<close>, each with the order it implements; \<open>Vuln_Match\<close> the choice of the comparator, the range filter and the
  query. The RPM comparison is left out of the ordering contract, since with its markers it is not transitive.
  \<open>Sbom\<close> has the parsers of package databases and lock files, \<open>Scan_Worker\<close> the image reader and a job
  from the queue to the stored result, \<open>Scan_Policy\<close> the policy verdict and the suppressions.

  \<^bold>\<open>Signatures and admission.\<close> \<open>Signing\<close> (\<open>specton-signing\<close>) has the signers, verifiers, key
  providers and the two tables; \<open>Admission\<close> (\<open>specton-registry/src/admission.rs\<close>) policies, scopes, the decision
  cache and the verdict.

  \<^bold>\<open>Mirror, TTL, replication.\<close> \<open>Mirror_Upstream\<close> and \<open>Mirror\<close> (\<open>specton-mirror\<close>) have the upstream client with its
  token flow, and the fetches into the local store; \<open>Ephemeral\<close> (\<open>specton-ephemeral\<close>) the TTL header and its
  reaper; \<open>Replication\<close> (\<open>specton-replication\<close>) health, failover, events and their delivery.

  \<^bold>\<open>Request handlers\<close> (\<open>specton-registry/src/main.rs\<close>). \<open>Registry_State\<close> has the token check, \<open>authorize\<close> and the state
  record \<open>reg_state\<close> with everything a request can change; \<open>Registry_Gate\<close> the two gates of a pull and
  the signature and policy handlers; \<open>Registry_Manifests\<close> and \<open>Registry_Blobs\<close> the manifest, upload, blob, listing
  and status handlers and the replication endpoints; \<open>Registry_Routes\<close> the router with its two-segment
  forms. The locale \<open>repo_rel\<close> of \<open>Registry_Writes\<close> says which relations on buckets hold across every handler;
  \<open>Registry_Handlers\<close> proves it handler by handler, once for all relations. \<open>Registry_Isolation\<close> instantiates it twice,
  with confinement to a repository and with content addressing. \<open>Registry_Push\<close> has push followed by
  pull, \<open>Registry_Behaviour\<close> what replication calls without a token, tags spelled like digests, two-segment
  signatures and deletes by digest do. \<open>Registry_Demo\<close> is the concrete registry of the examples.

  \<^bold>\<open>What the numbered properties show.\<close> C1 to C3 and C14 to C16: version orders and the
  vulnerability query. C4 to C6: isolation of repositories, content addressing, push then pull. C7 to C9, C31, C32:
  garbage collection. C10 to C12 and C26 to C30: audit log and export. C13: the mirror. C17 to C21: package
  databases and the scan worker. C22 to C25: admission and scan policy. C33 to C36: resilience. C37: TTL. C38:
  replication. C39, C40: signatures. Several of them state defects of the code as it is: C18, C21, C23, C24, C26,
  C27, C32 and C40.

  \<^bold>\<open>Assumptions to keep in mind.\<close> Isolation and content addressing speak of the routes that check a token: the
  three routes below \<open>/internal/replicate\<close> take none, and an anonymous call to them writes where it
  likes. They also speak of plain path segments (\<open>plain_seg\<close>: letters, digits and \<open>._-:\<close>); the router would
  also pass on percent-decoded segments with slashes. Handlers run one after the other; races between
  handlers are modelled for the garbage collector, the breaker and the Postgres audit log only.

  \<^bold>\<open>Termination.\<close> Every loop of the model is a total function: recursion on the remaining attempts, on the list
  worked through or on the unread input. No definition runs on fuel. Background loops that never end in the
  code are functions of the finite sequence of turns they have made.

  \<^bold>\<open>Not modelled.\<close> Metrics and log lines; the auth service, the Kubernetes controller, dashboard, assistant,
  import jobs, peer mesh, lazy-pull indexer, rebuilds, promotion, attestations and artifact validators; the
  feeds that fill the vulnerability table; key files and Vault; start-up and configuration files. The
  vulnerability query is a total parameter of the scan worker, so that a panic inside a comparator is
  outside what is said of a job.
\<close>

end
